(* ===== verification/Prelude.thy ===== *)
theory Prelude
  imports Main "HOL-Library.Word" "HOL-Library.Sublist" "HOL-Library.Code_Target_Numeral"
begin

text \<open>
  Shared vocabulary of the development: the types that name the program's data
  (Go strings are byte strings, modelled as \<open>string\<close>; a file's content is a list of
  bytes), the lemma collections the component theories feed, and generic lemmas on
  lists, options and sums that several components use.
\<close>

section \<open>Types\<close>

type_synonym byte = "8 word"
type_synonym bytes = "byte list"

text \<open>
  Clock readings. \<open>unix_time\<close> is Go's \<open>time.Now().Unix()\<close> (whole seconds, an
  \<open>int64\<close> that never overflows for real clocks, so an unbounded \<open>int\<close>);
  \<open>timestamp\<close> is the full-resolution \<open>time.Now()\<close> the metadata store writes into
  \<open>upload_time\<close>, kept abstract as an integer ordered like the clock.
\<close>

type_synonym unix_time = int
type_synonym timestamp = int

section \<open>Lemma collections\<close>

named_theorems name_simps "evaluation rules for the naming scheme"
named_theorems store_simps "evaluation rules for the byte store and metadata store"

section \<open>Generic lemmas\<close>

lemma sublist_singleton_iff [simp]: "sublist [c] s \<longleftrightarrow> c \<in> set s"
  by (induction s) (auto simp: sublist_Cons_right)

lemma sublist_same_length: "sublist xs ys \<Longrightarrow> length xs = length ys \<Longrightarrow> xs = ys"
  by (auto simp: sublist_def)

lemma sum_case_Inl_eq: "(case x of Inl e \<Rightarrow> f e | Inr v \<Rightarrow> g v) = r \<Longrightarrow> x = Inl e \<Longrightarrow> f e = r"
  by simp

end
