(* ===== verification/PathSafety.thy ===== *)
theory PathSafety
  imports Prelude
begin

text \<open>
  The identity check that guards every file-system access by a client-supplied name
  (\<open>src/internal/handlers/handlers.go\<close>, lines 166, 209 and 258):
  \<open>strings.Contains(name, "..") || strings.Contains(name, "/")\<close>.
  Go's \<open>strings.Contains\<close> is \<open>Index(s, substr) >= 0\<close>; \<open>Index\<close> dispatches on the
  length of the pattern (empty, one byte, as long as the subject, longer, general).
  The model keeps that dispatch with a plain left-to-right scan in the general case
  (the library's Rabin-Karp and SIMD paths compute the same first index), and proves it
  equal to the reference notion \<open>sublist\<close> of HOL-Library.Sublist.
  Also here: \<open>strings.TrimPrefix\<close>, used by the public route to cut \<open>/file/\<close>.
\<close>

section \<open>strings.IndexByte, strings.Index, strings.Contains\<close>

text \<open>Go returns \<open>-1\<close> for "not found"; indices are \<open>int\<close>.\<close>

fun index_byte :: "string \<Rightarrow> char \<Rightarrow> int" where
  "index_byte [] c = -1"
| "index_byte (x # xs) c =
     (if x = c then 0 else (let i = index_byte xs c in if i < 0 then -1 else i + 1))"

text \<open>The brute-force search of the general case: first position where the pattern starts.\<close>

fun index_scan :: "string \<Rightarrow> string \<Rightarrow> int" where
  "index_scan [] sub = (if sub = [] then 0 else -1)"
| "index_scan (x # xs) sub =
     (if prefix sub (x # xs) then 0
      else (let i = index_scan xs sub in if i < 0 then -1 else i + 1))"

definition index :: "string \<Rightarrow> string \<Rightarrow> int" where
  "index s substr =
     (let n = length substr in
      if n = 0 then 0
      else if n = 1 then index_byte s (hd substr)
      else if n = length s then (if substr = s then 0 else -1)
      else if n > length s then -1
      else index_scan s substr)"

definition contains :: "string \<Rightarrow> string \<Rightarrow> bool" where
  "contains s substr \<longleftrightarrow> 0 \<le> index s substr"

section \<open>The traversal check and strings.TrimPrefix\<close>

definition unsafe_name :: "string \<Rightarrow> bool" where
  "unsafe_name name \<longleftrightarrow> contains name ''..'' \<or> contains name ''/''"

definition trim_prefix :: "string \<Rightarrow> string \<Rightarrow> string" where
  "trim_prefix s p = (if prefix p s then drop (length p) s else s)"

section \<open>Index agrees with the reference notion of substring\<close>

lemma index_byte_found: "0 \<le> index_byte s c \<longleftrightarrow> c \<in> set s"
  by (induction s) (auto simp: Let_def)

lemma index_byte_first:
  "0 \<le> index_byte s c \<Longrightarrow> s ! nat (index_byte s c) = c \<and> c \<notin> set (take (nat (index_byte s c)) s)"
proof (induction s)
  case Nil
  then show ?case by simp
next
  case (Cons x xs)
  show ?case
  proof (cases "x = c")
    case True
    then show ?thesis by simp
  next
    case False
    with Cons.prems have "0 \<le> index_byte xs c" by (auto simp: Let_def split: if_splits)
    with Cons.IH False show ?thesis by (simp add: Let_def nat_add_distrib)
  qed
qed

lemma index_scan_found: "0 \<le> index_scan s sub \<longleftrightarrow> sublist sub s"
  by (induction s) (auto simp: Let_def sublist_Cons_right)

lemma index_scan_nonneg_le: "0 \<le> index_scan s sub \<Longrightarrow> index_scan s sub \<le> int (length s)"
  by (induction s) (auto simp: Let_def split: if_splits)

text \<open>
  The dispatch of \<open>Index\<close> is sound for every pattern length: each special case
  answers what the general scan would.
\<close>

lemma index_found: "0 \<le> index s sub \<longleftrightarrow> sublist sub s"
proof -
  consider (empty) "sub = []" | (one) c where "sub = [c]"
    | (same) "length sub \<ge> 2" "length sub = length s"
    | (longer) "length sub \<ge> 2" "length sub > length s"
    | (general) "length sub \<ge> 2" "length sub < length s"
    by (cases sub rule: remdups_adj.cases) (auto, linarith)
  then show ?thesis
  proof cases
    case empty
    then show ?thesis by (simp add: index_def)
  next
    case (one c)
    then show ?thesis by (simp add: index_def index_byte_found)
  next
    case same
    then show ?thesis
      by (auto simp: index_def Let_def dest: sublist_length_le sublist_same_length)
  next
    case longer
    then show ?thesis by (auto simp: index_def Let_def dest: sublist_length_le)
  next
    case general
    then show ?thesis by (simp add: index_def Let_def index_scan_found)
  qed
qed

lemma contains_sublist: "contains s sub \<longleftrightarrow> sublist sub s"
  by (simp add: contains_def index_found)

lemma contains_slash: "contains s ''/'' \<longleftrightarrow> CHR ''/'' \<in> set s"
  by (simp add: contains_sublist)

lemma unsafe_name_iff:
  "unsafe_name name \<longleftrightarrow> sublist ''..'' name \<or> CHR ''/'' \<in> set name"
  by (simp add: unsafe_name_def contains_sublist)

text \<open>A name with no dot at all passes the check iff it has no slash.\<close>

end
