(* ===== verification/Naming.thy ===== *)
theory Naming
  imports PathSafety
begin

text \<open>
  The naming scheme of \<open>UploadFile\<close> (\<open>src/internal/handlers/handlers.go\<close>,
  lines 80--83):
  \<^verbatim>\<open>
  extension := filepath.Ext(handler.Filename)
  timestamp := time.Now().Unix()
  newFilename := fmt.Sprintf("%d%s", timestamp, extension)
  \<close>
  \<open>Ext\<close> is the loop of Go's \<open>path/filepath.Ext\<close> (scan from the end, stop at a
  separator, return the suffix from the first dot found); \<open>fmt_int\<close> is \<open>%d\<close>
  on an \<open>int64\<close>. The theory proves what the stored name is made of: a decimal
  number and an extension with exactly one dot, hence a name that passes the
  traversal check; that the pair (second, extension) can be read back from the name
  (so two uploads collide exactly when they share both); and a closed form of \<open>Ext\<close>.
\<close>

section \<open>filepath.Ext\<close>

text \<open>
  The loop \<open>for i := len(path) - 1; i >= 0 && !os.IsPathSeparator(path[i]); i--\<close>
  runs over the reversed path; \<open>acc\<close> holds \<open>path[i+1:]\<close>, so that at a dot
  the result \<open>path[i:]\<close> is \<open>c # acc\<close>.
\<close>

fun ext_scan :: "string \<Rightarrow> string \<Rightarrow> string" where
  "ext_scan [] acc = []"
| "ext_scan (c # cs) acc =
     (if c = CHR ''/'' then []
      else if c = CHR ''.'' then c # acc
      else ext_scan cs (c # acc))"

definition Ext :: "string \<Rightarrow> string" where
  "Ext path = ext_scan (rev path) []"

section \<open>fmt: the decimal rendering of %d\<close>

text \<open>\<open>fmt\<close> reads each digit from its table \<open>ldigits = "0123456789abcdefx"\<close>.\<close>

definition digit_char :: "nat \<Rightarrow> char" where
  "digit_char d = ''0123456789'' ! d"

fun fmt_nat :: "nat \<Rightarrow> string" where
  "fmt_nat n = (if n < 10 then [digit_char n] else fmt_nat (n div 10) @ [digit_char (n mod 10)])"

declare fmt_nat.simps [simp del]

definition fmt_int :: "int \<Rightarrow> string" where
  "fmt_int i = (if i < 0 then CHR ''-'' # fmt_nat (nat (- i)) else fmt_nat (nat i))"

section \<open>The stored name\<close>

definition new_filename :: "unix_time \<Rightarrow> string \<Rightarrow> string" where
  "new_filename timestamp filename = fmt_int timestamp @ Ext filename"

section \<open>Reading a stored name back\<close>

text \<open>Inverse functions, used only to state the round trips.\<close>

definition read_nat :: "string \<Rightarrow> nat" where
  "read_nat s = foldl (\<lambda>acc c. acc * 10 + (of_char c - 48)) 0 s"

definition read_int :: "string \<Rightarrow> int" where
  "read_int s = (case s of c # r \<Rightarrow> if c = CHR ''-'' then - int (read_nat r) else int (read_nat s)
                          | [] \<Rightarrow> int (read_nat s))"

definition split_stored_name :: "string \<Rightarrow> unix_time \<times> string" where
  "split_stored_name name =
     (read_int (takeWhile (\<lambda>c. c \<noteq> CHR ''.'') name), dropWhile (\<lambda>c. c \<noteq> CHR ''.'') name)"

definition is_digit :: "char \<Rightarrow> bool" where
  "is_digit c \<longleftrightarrow> 48 \<le> (of_char c :: nat) \<and> (of_char c :: nat) \<le> 57"

text \<open>The shape every extension has: empty, or one leading dot and no other dot or slash.\<close>

definition ext_form :: "string \<Rightarrow> bool" where
  "ext_form e \<longleftrightarrow> e = [] \<or> (hd e = CHR ''.'' \<and> CHR ''.'' \<notin> set (tl e) \<and> CHR ''/'' \<notin> set e)"

section \<open>Properties of Ext\<close>

lemma ext_scan_closed:
  "ext_scan cs acc =
     (case dropWhile (\<lambda>x. x \<noteq> CHR ''/'' \<and> x \<noteq> CHR ''.'') cs of
        c # _ \<Rightarrow> if c = CHR ''.'' then c # rev (takeWhile (\<lambda>x. x \<noteq> CHR ''/'' \<and> x \<noteq> CHR ''.'') cs) @ acc
                 else []
      | [] \<Rightarrow> [])"
proof (induction cs arbitrary: acc)
  case Nil
  then show ?case by simp
next
  case (Cons a cs)
  show ?case
  proof (cases "a = CHR ''/'' \<or> a = CHR ''.''")
    case True
    then show ?thesis by auto
  next
    case False
    then show ?thesis using Cons.IH [of "a # acc"]
      by (cases "dropWhile (\<lambda>x. x \<noteq> CHR ''/'' \<and> x \<noteq> CHR ''.'') cs") (simp_all del: dropWhile_eq_Nil_conv)
  qed
qed
lemma ext_scan_suffix: "suffix (ext_scan cs acc) (rev cs @ acc)"
proof (induction cs arbitrary: acc)
  case Nil
  then show ?case by simp
next
  case (Cons c cs)
  have "suffix (ext_scan cs (c # acc)) (rev cs @ c # acc)" by (rule Cons.IH)
  then show ?case by (auto simp: suffix_def)
qed

lemma ext_scan_form:
  "CHR ''.'' \<notin> set acc \<Longrightarrow> CHR ''/'' \<notin> set acc \<Longrightarrow> ext_form (ext_scan cs acc)"
  by (induction cs arbitrary: acc) (auto simp: ext_form_def)

lemma ext_form_Ext [simp]: "ext_form (Ext path)"
  by (simp add: Ext_def ext_scan_form)

section \<open>Properties of the decimal rendering\<close>

lemma less_10_cases:
  "d < 10 \<Longrightarrow> d = 0 \<or> d = 1 \<or> d = 2 \<or> d = 3 \<or> d = 4 \<or> d = 5 \<or> d = 6 \<or> d = 7 \<or> d = 8 \<or> d = (9::nat)"
  by arith

lemma of_char_digit_char [simp]: "d < 10 \<Longrightarrow> of_char (digit_char d) = 48 + d"
  by (drule less_10_cases) (auto simp: digit_char_def)

lemma is_digit_digit_char [simp]: "d < 10 \<Longrightarrow> is_digit (digit_char d)"
  by (simp add: is_digit_def)

lemma fmt_nat_digits: "c \<in> set (fmt_nat n) \<Longrightarrow> is_digit c"
proof (induction n rule: fmt_nat.induct)
  case (1 n)
  then show ?case by (auto simp: fmt_nat.simps [of n] split: if_splits)
qed

lemma fmt_nat_nonempty [simp]: "fmt_nat n \<noteq> []"
  by (simp add: fmt_nat.simps [of n])

lemma read_nat_snoc: "read_nat (s @ [c]) = read_nat s * 10 + (of_char c - 48)"
  by (simp add: read_nat_def)

lemma read_fmt_nat [name_simps]: "read_nat (fmt_nat n) = n"
proof (induction n rule: fmt_nat.induct)
  case (1 n)
  show ?case
  proof (cases "n < 10")
    case True
    then show ?thesis by (simp add: fmt_nat.simps [of n] read_nat_def)
  next
    case False
    then have "read_nat (fmt_nat n) = read_nat (fmt_nat (n div 10)) * 10 + n mod 10"
      by (simp add: fmt_nat.simps [of n] read_nat_snoc)
    with "1.IH" False show ?thesis by simp
  qed
qed

lemma not_digit [simp]: "\<not> is_digit CHR ''-''" "\<not> is_digit CHR ''.''" "\<not> is_digit CHR ''/''"
  by (simp_all add: is_digit_def)

lemma fmt_nat_no_sign: "CHR ''-'' \<notin> set (fmt_nat n)" "CHR ''.'' \<notin> set (fmt_nat n)"
    "CHR ''/'' \<notin> set (fmt_nat n)"
  using fmt_nat_digits not_digit by blast+

lemma hd_fmt_nat: "hd (fmt_nat n) \<noteq> CHR ''-''"
  using fmt_nat_no_sign(1) hd_in_set [OF fmt_nat_nonempty] by metis

lemma read_int_unsigned: "s \<noteq> [] \<Longrightarrow> hd s \<noteq> CHR ''-'' \<Longrightarrow> read_int s = int (read_nat s)"
  by (cases s) (auto simp: read_int_def)

lemma read_fmt_int [name_simps]: "read_int (fmt_int i) = i"
proof (cases "i < 0")
  case True
  then show ?thesis by (simp add: fmt_int_def read_int_def read_fmt_nat)
next
  case False
  then have "read_int (fmt_int i) = int (read_nat (fmt_nat (nat i)))"
    by (simp add: fmt_int_def read_int_unsigned hd_fmt_nat)
  with False show ?thesis by (simp add: read_fmt_nat)
qed

lemma fmt_int_inj: "fmt_int i = fmt_int j \<Longrightarrow> i = j"
  by (metis read_fmt_int)

lemma fmt_int_chars: "CHR ''.'' \<notin> set (fmt_int i)" "CHR ''/'' \<notin> set (fmt_int i)"
  by (auto simp: fmt_int_def fmt_nat_no_sign)

lemma fmt_int_nonempty [simp]: "fmt_int i \<noteq> []"
  by (simp add: fmt_int_def)

lemma hd_fmt_int_not_dot: "hd (fmt_int i) \<noteq> CHR ''.''"
  using fmt_int_chars(1) hd_in_set [OF fmt_int_nonempty] by metis

lemma fmt_int_not_dot: "fmt_int i \<noteq> ''.''"
  using fmt_int_chars(1) by (metis list.set_intros(1))

lemmas naming_facts = fmt_int_chars fmt_int_nonempty ext_form_Ext

section \<open>A stored name splits back into second and extension\<close>

lemma split_append_ext:
  assumes "CHR ''.'' \<notin> set a" and "ext_form e"
  shows "takeWhile (\<lambda>c. c \<noteq> CHR ''.'') (a @ e) = a \<and> dropWhile (\<lambda>c. c \<noteq> CHR ''.'') (a @ e) = e"
proof -
  from assms(1) have all: "\<forall>x\<in>set a. x \<noteq> CHR ''.''" by blast
  show ?thesis
  proof (cases e)
    case Nil
    with all show ?thesis by (simp add: takeWhile_append2 dropWhile_append2)
  next
    case (Cons x r)
    with assms(2) have "x = CHR ''.''" by (simp add: ext_form_def)
    with Cons all show ?thesis by (simp add: takeWhile_append2 dropWhile_append2)
  qed
qed

lemma no_double_dot:
  assumes "CHR ''.'' \<notin> set a" and "ext_form e"
  shows "\<not> sublist ''..'' (a @ e)"
proof
  assume "sublist ''..'' (a @ e)"
  then obtain ps ss where split: "a @ e = ps @ ''..'' @ ss" by (auto simp: sublist_def)
  have "count_list (a @ e) CHR ''.'' \<le> 1"
    using assms by (cases e) (auto simp: ext_form_def count_list_0_iff)
  moreover have "2 \<le> count_list (ps @ ''..'' @ ss) CHR ''.''" by simp
  ultimately show False using split by simp
qed

lemma new_filename_parts:
  "CHR ''/'' \<notin> set (new_filename t f)" "new_filename t f \<noteq> []" "new_filename t f \<noteq> ''.''"
proof -
  have "CHR ''/'' \<notin> set (Ext f)" using ext_form_Ext [of f] by (cases "Ext f") (auto simp: ext_form_def)
  then show "CHR ''/'' \<notin> set (new_filename t f)" by (simp add: new_filename_def fmt_int_chars)
  show "new_filename t f \<noteq> []" by (simp add: new_filename_def)
  show "new_filename t f \<noteq> ''.''"
    using hd_fmt_int_not_dot [of t] by (cases "fmt_int t") (auto simp: new_filename_def)
qed

section \<open>Properties of the naming scheme\<close>

text \<open>C16: every stored name passes the traversal check of the read and delete paths.\<close>

theorem new_filename_safe: "\<not> unsafe_name (new_filename timestamp filename)"
proof -
  have "\<not> sublist ''..'' (new_filename timestamp filename)"
    unfolding new_filename_def by (rule no_double_dot) (simp_all add: fmt_int_chars)
  with new_filename_parts(1) show ?thesis by (simp add: unsafe_name_iff)
qed

text \<open>The second and the extension can be read back from a stored name.\<close>

theorem split_new_filename: "split_stored_name (new_filename timestamp filename) = (timestamp, Ext filename)"
  using split_append_ext [OF fmt_int_chars(1) ext_form_Ext]
  by (simp add: split_stored_name_def new_filename_def read_fmt_int)

text \<open>
  C20: two uploads get the same stored name exactly when they happen in the same second
  and their original names have the same extension (the collision surface of the
  naming scheme, and nothing more).
\<close>

theorem new_filename_eq_iff:
  "new_filename t f = new_filename t' f' \<longleftrightarrow> t = t' \<and> Ext f = Ext f'"
proof
  assume eq: "new_filename t f = new_filename t' f'"
  have "takeWhile (\<lambda>c. c \<noteq> CHR ''.'') (fmt_int t @ Ext f) = fmt_int t
      \<and> dropWhile (\<lambda>c. c \<noteq> CHR ''.'') (fmt_int t @ Ext f) = Ext f"
    by (rule split_append_ext [OF fmt_int_chars(1) ext_form_Ext])
  moreover have "takeWhile (\<lambda>c. c \<noteq> CHR ''.'') (fmt_int t' @ Ext f') = fmt_int t'
      \<and> dropWhile (\<lambda>c. c \<noteq> CHR ''.'') (fmt_int t' @ Ext f') = Ext f'"
    by (rule split_append_ext [OF fmt_int_chars(1) ext_form_Ext])
  ultimately have "fmt_int t = fmt_int t' \<and> Ext f = Ext f'"
    using eq by (metis new_filename_def)
  then show "t = t' \<and> Ext f = Ext f'" using fmt_int_inj by blast
next
  assume "t = t' \<and> Ext f = Ext f'"
  then show "new_filename t f = new_filename t' f'" by (simp add: new_filename_def)
qed

text \<open>
  \<open>Ext\<close> is the suffix of the last path element that starts at its last dot, or empty
  when that element has no dot.
\<close>

lemma Ext_closed:
  "Ext path =
     (case dropWhile (\<lambda>x. x \<noteq> CHR ''/'' \<and> x \<noteq> CHR ''.'') (rev path) of
        c # _ \<Rightarrow> if c = CHR ''.'' then c # rev (takeWhile (\<lambda>x. x \<noteq> CHR ''/'' \<and> x \<noteq> CHR ''.'') (rev path))
                 else []
      | [] \<Rightarrow> [])"
  by (cases "dropWhile (\<lambda>x. x \<noteq> CHR ''/'' \<and> x \<noteq> CHR ''.'') (rev path)")
     (simp_all add: Ext_def ext_scan_closed del: dropWhile_eq_Nil_conv)

lemma Ext_suffix: "suffix (Ext path) path"
  using ext_scan_suffix [of "rev path" "[]"] by (simp add: Ext_def)

text \<open>
  A stored name is the decimal second followed by the original name's extension:
  the suffix of its last path element from the last dot (empty when that element has
  no dot), so the stored name keeps nothing of the original name but that suffix.
\<close>

theorem new_filename_closed:
  "new_filename t f =
     fmt_int t @
       (case dropWhile (\<lambda>x. x \<noteq> CHR ''/'' \<and> x \<noteq> CHR ''.'') (rev f) of
          c # _ \<Rightarrow> if c = CHR ''.'' then c # rev (takeWhile (\<lambda>x. x \<noteq> CHR ''/'' \<and> x \<noteq> CHR ''.'') (rev f))
                   else []
        | [] \<Rightarrow> [])
   \<and> suffix (drop (length (fmt_int t)) (new_filename t f)) f"
  using Ext_suffix [of f] by (simp add: new_filename_def Ext_closed)

end
