(* ===== verification/ByteStore.thy ===== *)
theory ByteStore
  imports Naming "HOL-Library.Mapping" "HOL-Library.AList_Mapping"
begin

text \<open>
  The byte store: the data directory \<open>cfg.DataDir\<close> that the handlers reach
  through \<open>filepath.Join(h.config.DataDir, name)\<close> and the \<open>os\<close> calls
  \<open>os.Stat\<close>, \<open>os.Create\<close>, \<open>(*File).Write\<close> and \<open>os.Remove\<close>
  (\<open>src/internal/handlers/handlers.go\<close>). The operating system is not part of
  the repository; its calls are modelled from their documented POSIX behaviour
  (spec section 4.3), each with a \<open>fault\<close> argument by which the environment makes
  the call fail with an I/O error, so that every error branch of the handlers is
  reachable in the model.

  The state is the directory (whether it exists, the size \<open>stat\<close> reports for it) and
  its flat set of regular files, a finite map from name to content. A name that passed
  the traversal check has no slash and no \<open>..\<close>, so \<open>filepath.Join\<close> yields either
  the directory itself (names \<open>""\<close> and \<open>"."\<close>) or one of its entries.
\<close>

section \<open>State and paths\<close>

record byte_store =
  dir_exists :: bool
  dir_size :: nat
  files :: "(string, bytes) mapping"

datatype fs_path = DirPath | Entry string

text \<open>
  \<open>filepath.Join(h.config.DataDir, name)\<close> (handlers.go lines 93, 171, 214, 263):
  \<open>Join\<close> cleans its result, so the empty name and \<open>"."\<close> denote the data
  directory itself. Every call site passes a name without slash and without
  \<open>..\<close> (checked, or generated by \<open>new_filename\<close>), on which this is Join's result.
\<close>

definition data_path :: "string \<Rightarrow> fs_path" where
  "data_path name = (if name = [] \<or> name = ''.'' then DirPath else Entry name)"

datatype fs_error = ENOENT | EISDIR | ENOTEMPTY | EIO

datatype file_info = FileInfo nat | DirInfo nat

primrec info_size :: "file_info \<Rightarrow> nat" where
  "info_size (FileInfo n) = n"
| "info_size (DirInfo n) = n"

primrec is_not_exist :: "fs_error \<Rightarrow> bool" where
  "is_not_exist ENOENT = True"
| "is_not_exist EISDIR = False"
| "is_not_exist ENOTEMPTY = False"
| "is_not_exist EIO = False"

section \<open>The os calls\<close>

definition os_stat :: "bool \<Rightarrow> byte_store \<Rightarrow> fs_path \<Rightarrow> fs_error + file_info" where
  "os_stat fault bs p =
     (if fault then Inl EIO
      else if \<not> dir_exists bs then Inl ENOENT
      else case p of
        DirPath \<Rightarrow> Inr (DirInfo (dir_size bs))
      | Entry n \<Rightarrow> (case Mapping.lookup (files bs) n of
                     None \<Rightarrow> Inl ENOENT
                   | Some c \<Rightarrow> Inr (FileInfo (length c))))"

text \<open>\<open>os.Create\<close>: open with \<open>O_RDWR|O_CREATE|O_TRUNC\<close>; an existing file is truncated.\<close>

definition os_create :: "bool \<Rightarrow> byte_store \<Rightarrow> fs_path \<Rightarrow> fs_error + byte_store" where
  "os_create fault bs p =
     (if fault then Inl EIO
      else case p of
        DirPath \<Rightarrow> Inl EISDIR
      | Entry n \<Rightarrow> if \<not> dir_exists bs then Inl ENOENT
                   else Inr (bs\<lparr>files := Mapping.update n [] (files bs)\<rparr>))"

text \<open>
  \<open>dst.Write(fileBytes)\<close> on the descriptor \<open>os.Create\<close> returned, at offset 0 of the
  truncated file: the file then holds the bytes. If the name was unlinked meanwhile the
  bytes go to the unlinked file and the directory is unchanged. A failed write leaves
  the file as it was.
\<close>

definition file_write :: "bool \<Rightarrow> byte_store \<Rightarrow> string \<Rightarrow> bytes \<Rightarrow> fs_error + byte_store" where
  "file_write fault bs n content =
     (if fault then Inl EIO
      else case Mapping.lookup (files bs) n of
        None \<Rightarrow> Inr bs
      | Some _ \<Rightarrow> Inr (bs\<lparr>files := Mapping.update n content (files bs)\<rparr>))"

text \<open>\<open>os.Remove\<close>: unlink a file, or remove the directory if it is empty.\<close>

definition os_remove :: "bool \<Rightarrow> byte_store \<Rightarrow> fs_path \<Rightarrow> fs_error + byte_store" where
  "os_remove fault bs p =
     (if fault then Inl EIO
      else if \<not> dir_exists bs then Inl ENOENT
      else case p of
        DirPath \<Rightarrow> if Mapping.is_empty (files bs) then Inr (bs\<lparr>dir_exists := False\<rparr>)
                   else Inl ENOTEMPTY
      | Entry n \<Rightarrow> (case Mapping.lookup (files bs) n of
                     None \<Rightarrow> Inl ENOENT
                   | Some _ \<Rightarrow> Inr (bs\<lparr>files := Mapping.delete n (files bs)\<rparr>)))"

text \<open>Reading a regular file's content (what \<open>http.ServeFile\<close> streams).\<close>

definition read_file :: "byte_store \<Rightarrow> string \<Rightarrow> bytes option" where
  "read_file bs n = (if dir_exists bs then Mapping.lookup (files bs) n else None)"

section \<open>Well-formedness: no file outlives its directory\<close>

definition store_wf :: "byte_store \<Rightarrow> bool" where
  "store_wf bs \<longleftrightarrow> (\<not> dir_exists bs \<longrightarrow> Mapping.is_empty (files bs))"

lemma os_create_wf: "os_create f bs p = Inr bs' \<Longrightarrow> store_wf bs \<Longrightarrow> store_wf bs'"
  by (auto simp: os_create_def store_wf_def split: if_splits fs_path.splits)

lemma file_write_wf: "file_write f bs n c = Inr bs' \<Longrightarrow> store_wf bs \<Longrightarrow> store_wf bs'"
  by (auto simp: file_write_def store_wf_def Mapping.is_empty_def keys_dom_lookup
      split: if_splits option.splits)

lemma os_remove_wf: "os_remove f bs p = Inr bs' \<Longrightarrow> store_wf bs \<Longrightarrow> store_wf bs'"
  by (auto simp: os_remove_def store_wf_def split: if_splits fs_path.splits option.splits)

lemmas store_wf_preserved = os_create_wf file_write_wf os_remove_wf

section \<open>Paths of stored names\<close>

lemma data_path_new_filename [simp]: "data_path (new_filename t f) = Entry (new_filename t f)"
  using new_filename_parts by (simp add: data_path_def)

lemma data_path_Entry: "data_path n = Entry m \<Longrightarrow> m = n"
  by (auto simp: data_path_def split: if_splits)

section \<open>Effects of the calls on the directory\<close>

lemma os_stat_Entry [store_simps]:
  "os_stat False bs (Entry n) =
     (case read_file bs n of None \<Rightarrow> Inl ENOENT | Some c \<Rightarrow> Inr (FileInfo (length c)))"
  by (simp add: os_stat_def read_file_def split: option.splits)

lemma os_create_Entry [store_simps]:
  "os_create False bs (Entry n) =
     (if dir_exists bs then Inr (bs\<lparr>files := Mapping.update n [] (files bs)\<rparr>) else Inl ENOENT)"
  by (simp add: os_create_def)

lemma file_write_created [store_simps]:
  "Mapping.lookup (files bs) n = Some c \<Longrightarrow>
   file_write False bs n content = Inr (bs\<lparr>files := Mapping.update n content (files bs)\<rparr>)"
  by (simp add: file_write_def)

lemma os_remove_Entry [store_simps]:
  "os_remove False bs (Entry n) =
     (case read_file bs n of None \<Rightarrow> Inl ENOENT
      | Some _ \<Rightarrow> Inr (bs\<lparr>files := Mapping.delete n (files bs)\<rparr>))"
  by (simp add: os_remove_def read_file_def split: option.splits)

lemma read_file_update [store_simps]:
  "read_file (bs\<lparr>files := Mapping.update n c (files bs)\<rparr>) m =
     (if dir_exists bs then (if m = n then Some c else read_file bs m) else None)"
  by (simp add: read_file_def lookup_update')

lemma read_file_delete [store_simps]:
  "read_file (bs\<lparr>files := Mapping.delete n (files bs)\<rparr>) m =
     (if m = n then None else read_file bs m)"
  by (simp add: read_file_def)

text \<open>Every failing call leaves the state as it was (the sum's \<open>Inl\<close> carries no state).\<close>

lemma os_remove_Inr_file:
  "os_remove f bs (Entry n) = Inr bs' \<Longrightarrow>
     read_file bs n \<noteq> None \<and> bs' = bs\<lparr>files := Mapping.delete n (files bs)\<rparr>"
  by (auto simp: os_remove_def read_file_def split: if_splits option.splits)

lemma os_remove_Inr_dir:
  "os_remove f bs DirPath = Inr bs' \<Longrightarrow>
     dir_exists bs \<and> Mapping.is_empty (files bs) \<and> bs' = bs\<lparr>dir_exists := False\<rparr>"
  by (auto simp: os_remove_def split: if_splits)

lemma os_create_Inr:
  "os_create f bs p = Inr bs' \<Longrightarrow>
     \<exists>n. p = Entry n \<and> dir_exists bs \<and> bs' = bs\<lparr>files := Mapping.update n [] (files bs)\<rparr>"
  by (auto simp: os_create_def split: if_splits fs_path.splits)

lemma file_write_Inr:
  "file_write f bs n c = Inr bs' \<Longrightarrow>
     bs' = bs \<and> Mapping.lookup (files bs) n = None
     \<or> bs' = bs\<lparr>files := Mapping.update n c (files bs)\<rparr> \<and> Mapping.lookup (files bs) n \<noteq> None"
  by (auto simp: file_write_def split: if_splits option.splits)

end
