(* ===== verification/Database.thy ===== *)
theory Database
  imports Prelude "HOL-Library.Multiset"
begin

text \<open>
  The metadata store, \<open>src/internal/database/database.go\<close>: the SQLite table
  \<^verbatim>\<open>files(id INTEGER PRIMARY KEY AUTOINCREMENT, original_name, stored_name UNIQUE,
        upload_time, file_size, upload_addr)\<close>
  and the methods \<open>NewDB\<close>/\<open>createTable\<close>, \<open>InsertFile\<close>, \<open>GetFileByStoredName\<close>,
  \<open>GetAllFiles\<close> and \<open>DeleteFile\<close>. The table is the list of its rows in rowid
  order (the order SQLite scans them in) together with the table's entry in
  \<open>sqlite_sequence\<close>, the high-water mark that \<open>AUTOINCREMENT\<close> keeps. Each method
  takes a \<open>fault\<close> argument for a failure of the driver or the engine (I/O, a
  locked database, a failed scan), which the Go code reports as an error.

  The theory proves the table invariant (unique stored names, strictly increasing ids
  bounded by the sequence) and that every method keeps it; that the methods implement
  the abstract store of spec section 4.2, a finite map from stored name to record
  (\<open>db_index\<close>); and that the listing is a permutation of the table in descending
  upload time.
\<close>

section \<open>Rows and table\<close>

record FileRecord =
  ID :: int
  OriginalName :: string
  StoredName :: string
  UploadTime :: timestamp
  FileSize :: int
  UploadAddr :: string

record DB =
  rows :: "FileRecord list"
  seq :: int

datatype db_error = ErrConstraintUnique | ErrNotFound | ErrEngine

text \<open>The empty table \<open>createTable\<close> creates.\<close>

definition empty_db :: DB where
  "empty_db = \<lparr>rows = [], seq = 0\<rparr>"

text \<open>
  \<open>NewDB\<close> (lines 24--39): open, then \<open>CREATE TABLE IF NOT EXISTS\<close>, which keeps a
  table already on disk (\<open>existing\<close>).
\<close>

definition NewDB :: "bool \<Rightarrow> DB option \<Rightarrow> db_error + DB" where
  "NewDB fault existing =
     (if fault then Inl ErrEngine
      else Inr (case existing of None \<Rightarrow> empty_db | Some d \<Rightarrow> d))"

section \<open>InsertFile\<close>

text \<open>
  The rowid \<open>AUTOINCREMENT\<close> chooses: one more than the largest of the sequence and
  every rowid in the table, so that no id is ever reused.
\<close>

definition max_rowid :: "FileRecord list \<Rightarrow> int" where
  "max_rowid rs = foldr (\<lambda>r m. max (ID r) m) rs 0"

definition next_rowid :: "DB \<Rightarrow> int" where
  "next_rowid db = max (seq db) (max_rowid (rows db)) + 1"

definition InsertFile ::
  "bool \<Rightarrow> timestamp \<Rightarrow> DB \<Rightarrow> string \<Rightarrow> string \<Rightarrow> int \<Rightarrow> string \<Rightarrow> db_error + DB" where
  "InsertFile fault now db originalName storedName fileSize uploadAddr =
     (if fault then Inl ErrEngine
      else if storedName \<in> set (map StoredName (rows db)) then Inl ErrConstraintUnique
      else let i = next_rowid db in
        Inr \<lparr>rows = rows db @ [\<lparr>ID = i, OriginalName = originalName, StoredName = storedName,
                                  UploadTime = now, FileSize = fileSize, UploadAddr = uploadAddr\<rparr>],
             seq = i\<rparr>)"

section \<open>GetFileByStoredName, GetAllFiles, DeleteFile\<close>

definition GetFileByStoredName :: "bool \<Rightarrow> DB \<Rightarrow> string \<Rightarrow> db_error + FileRecord" where
  "GetFileByStoredName fault db storedName =
     (if fault then Inl ErrEngine
      else case find (\<lambda>r. StoredName r = storedName) (rows db) of
        None \<Rightarrow> Inl ErrNotFound
      | Some r \<Rightarrow> Inr r)"

text \<open>
  \<open>ORDER BY upload_time DESC\<close>, with rows of equal time in rowid order (SQLite leaves
  the order of ties unspecified; a stable sort of the rowid-ordered table is one of the
  orders it may return). The Go slice \<open>records\<close> stays \<open>nil\<close> when no row is
  appended: \<open>None\<close> is that nil slice.
\<close>

definition GetAllFiles :: "bool \<Rightarrow> DB \<Rightarrow> db_error + FileRecord list option" where
  "GetAllFiles fault db =
     (if fault then Inl ErrEngine
      else let rs = sort_key (\<lambda>r. - UploadTime r) (rows db) in
        Inr (if rs = [] then None else Some rs))"

definition DB_DeleteFile :: "bool \<Rightarrow> DB \<Rightarrow> string \<Rightarrow> db_error + DB" where
  "DB_DeleteFile fault db storedName =
     (let rs = filter (\<lambda>r. StoredName r \<noteq> storedName) (rows db);
          rowsAffected = length (rows db) - length rs in
      if fault then Inl ErrEngine
      else if rowsAffected = 0 then Inl ErrNotFound
      else Inr (db\<lparr>rows := rs\<rparr>))"

section \<open>The table invariant\<close>

definition db_wf :: "DB \<Rightarrow> bool" where
  "db_wf db \<longleftrightarrow>
     0 \<le> seq db \<and>
     distinct (map StoredName (rows db)) \<and>
     sorted_wrt (<) (map ID (rows db)) \<and>
     list_all (\<lambda>r. 0 < ID r \<and> ID r \<le> seq db) (rows db)"

text \<open>The abstract store of spec section 4.2: which record a stored name denotes.\<close>

definition db_index :: "DB \<Rightarrow> string \<rightharpoonup> FileRecord" where
  "db_index db = map_of (map (\<lambda>r. (StoredName r, r)) (rows db))"

section \<open>Helper lemmas\<close>

lemma max_rowid_ge: "r \<in> set rs \<Longrightarrow> ID r \<le> max_rowid rs"
  by (induction rs) (auto simp: max_rowid_def)

lemma max_rowid_bound: "list_all (\<lambda>r. ID r \<le> s) rs \<Longrightarrow> 0 \<le> s \<Longrightarrow> max_rowid rs \<le> s"
  by (induction rs) (auto simp: max_rowid_def)

lemma next_rowid_wf: "db_wf db \<Longrightarrow> next_rowid db = seq db + 1"
  using max_rowid_bound [of "seq db" "rows db"]
  by (auto simp: next_rowid_def db_wf_def list_all_iff)

lemma next_rowid_gt: "r \<in> set (rows db) \<Longrightarrow> ID r < next_rowid db"
  using max_rowid_ge [of r "rows db"] by (simp add: next_rowid_def)

lemma db_index_Some_iff:
  "distinct (map StoredName (rows db)) \<Longrightarrow>
     db_index db s = Some r \<longleftrightarrow> r \<in> set (rows db) \<and> StoredName r = s"
proof -
  assume d: "distinct (map StoredName (rows db))"
  have "distinct (map fst (map (\<lambda>r. (StoredName r, r)) (rows db)))"
    using d by (simp add: comp_def)
  then show ?thesis
    by (auto simp: db_index_def map_of_eq_Some_iff)
qed

lemma db_index_None_iff: "db_index db s = None \<longleftrightarrow> s \<notin> set (map StoredName (rows db))"
  by (auto simp: db_index_def map_of_eq_None_iff image_iff)

lemma dom_db_index: "dom (db_index db) = set (map StoredName (rows db))"
  by (simp add: db_index_def dom_map_of_conv_image_fst image_image)

lemma find_StoredName:
  "distinct (map StoredName rs) \<Longrightarrow>
     find (\<lambda>r. StoredName r = s) rs = map_of (map (\<lambda>r. (StoredName r, r)) rs) s"
  by (induction rs) (auto simp: find_None_iff map_of_eq_None_iff)

lemma map_of_filter_key:
  "map_of (map (\<lambda>r. (k r, r)) (filter (\<lambda>r. k r \<noteq> s) rs)) = (map_of (map (\<lambda>r. (k r, r)) rs))(s := None)"
  by (induction rs) (auto simp: fun_eq_iff)

lemma length_filter_StoredName:
  "length (filter (\<lambda>r. StoredName r \<noteq> s) rs) = length rs \<longleftrightarrow> s \<notin> set (map StoredName rs)"
proof
  assume len: "length (filter (\<lambda>r. StoredName r \<noteq> s) rs) = length rs"
  show "s \<notin> set (map StoredName rs)"
  proof
    assume "s \<in> set (map StoredName rs)"
    then obtain r where "r \<in> set rs" "StoredName r = s" by auto
    then have "length (filter (\<lambda>r. StoredName r \<noteq> s) rs) < length rs"
      by (intro length_filter_less) auto
    with len show False by simp
  qed
next
  assume "s \<notin> set (map StoredName rs)"
  then show "length (filter (\<lambda>r. StoredName r \<noteq> s) rs) = length rs"
    by (subst filter_True) auto
qed

lemma map_of_snoc_fresh:
  "s \<notin> set (map fst xs) \<Longrightarrow> map_of (xs @ [(s, r)]) = (map_of xs)(s \<mapsto> r)"
  using map_add_upd_left [of s "map_of xs" Map.empty r]
  by (simp add: dom_map_of_conv_image_fst)

lemma db_empty_wf [simp]: "db_wf empty_db"
  by (simp add: db_wf_def empty_db_def)

section \<open>Each method keeps the invariant\<close>

lemma InsertFile_Inr:
  "InsertFile f now db o' s sz a = Inr db' \<Longrightarrow>
     \<not> f \<and> s \<notin> set (map StoredName (rows db)) \<and>
     db' = \<lparr>rows = rows db @ [\<lparr>ID = next_rowid db, OriginalName = o', StoredName = s,
                                 UploadTime = now, FileSize = sz, UploadAddr = a\<rparr>],
           seq = next_rowid db\<rparr>"
  by (auto simp: InsertFile_def Let_def split: if_splits)

lemma DB_DeleteFile_Inr:
  "DB_DeleteFile f db s = Inr db' \<Longrightarrow>
     \<not> f \<and> s \<in> set (map StoredName (rows db)) \<and> db' = db\<lparr>rows := filter (\<lambda>r. StoredName r \<noteq> s) (rows db)\<rparr>"
proof -
  assume h: "DB_DeleteFile f db s = Inr db'"
  have "s \<in> set (map StoredName (rows db))"
  proof (rule ccontr)
    assume "s \<notin> set (map StoredName (rows db))"
    then have "length (filter (\<lambda>r. StoredName r \<noteq> s) (rows db)) = length (rows db)"
      by (rule length_filter_StoredName [THEN iffD2])
    with h show False by (simp add: DB_DeleteFile_def Let_def split: if_splits)
  qed
  with h show ?thesis by (auto simp: DB_DeleteFile_def Let_def split: if_splits)
qed

lemma InsertFile_wf: "db_wf db \<Longrightarrow> InsertFile f now db o' s sz a = Inr db' \<Longrightarrow> db_wf db'"
  by (drule InsertFile_Inr)
     (auto simp: db_wf_def next_rowid_wf sorted_wrt_append list_all_iff)

lemma DB_DeleteFile_wf: "db_wf db \<Longrightarrow> DB_DeleteFile f db s = Inr db' \<Longrightarrow> db_wf db'"
  by (drule DB_DeleteFile_Inr)
     (auto simp: db_wf_def distinct_map_filter sorted_wrt_map sorted_wrt_filter list_all_iff)

section \<open>The methods implement the abstract store\<close>

text \<open>
  a successful insert adds exactly one entry to the abstract store, under the
  stored name, with the next id of the sequence and the insert's clock reading.
\<close>

lemma InsertFile_refines:
  assumes "db_wf db"
    and "InsertFile False now db originalName storedName fileSize uploadAddr = Inr db'"
  shows "db_index db' = (db_index db)(storedName \<mapsto>
           \<lparr>ID = seq db + 1, OriginalName = originalName, StoredName = storedName,
            UploadTime = now, FileSize = fileSize, UploadAddr = uploadAddr\<rparr>)"
proof -
  from InsertFile_Inr [OF assms(2)] have fresh: "storedName \<notin> set (map StoredName (rows db))"
    and db': "db' = \<lparr>rows = rows db @ [\<lparr>ID = next_rowid db, OriginalName = originalName,
        StoredName = storedName, UploadTime = now, FileSize = fileSize, UploadAddr = uploadAddr\<rparr>],
        seq = next_rowid db\<rparr>"
    by auto
  from fresh have "storedName \<notin> set (map fst (map (\<lambda>r. (StoredName r, r)) (rows db)))"
    by (simp add: comp_def)
  with db' next_rowid_wf [OF assms(1)] show ?thesis
    by (simp add: db_index_def map_of_snoc_fresh del: map_of_append)
qed

text \<open>a fault-free point lookup answers what the abstract store holds.\<close>

lemma GetFileByStoredName_refines:
  "db_wf db \<Longrightarrow>
     GetFileByStoredName False db storedName =
       (case db_index db storedName of None \<Rightarrow> Inl ErrNotFound | Some r \<Rightarrow> Inr r)"
  by (simp add: GetFileByStoredName_def db_index_def db_wf_def find_StoredName)

text \<open>
  a fault-free delete fails with \<open>ErrNotFound\<close> exactly when the name is not
  recorded, and otherwise removes exactly that entry from the abstract store.
\<close>

lemma DB_DeleteFile_refines:
  "DB_DeleteFile False db storedName =
     (if storedName \<in> dom (db_index db) then Inr (db\<lparr>rows := filter (\<lambda>r. StoredName r \<noteq> storedName) (rows db)\<rparr>)
      else Inl ErrNotFound)
   \<and> db_index (db\<lparr>rows := filter (\<lambda>r. StoredName r \<noteq> storedName) (rows db)\<rparr>) = (db_index db)(storedName := None)"
proof
  have le: "length (filter (\<lambda>r. StoredName r \<noteq> storedName) (rows db)) \<le> length (rows db)"
    by (rule length_filter_le)
  show "DB_DeleteFile False db storedName =
     (if storedName \<in> dom (db_index db) then Inr (db\<lparr>rows := filter (\<lambda>r. StoredName r \<noteq> storedName) (rows db)\<rparr>)
      else Inl ErrNotFound)"
  proof (cases "storedName \<in> set (map StoredName (rows db))")
    case True
    then have "length (filter (\<lambda>r. StoredName r \<noteq> storedName) (rows db)) \<noteq> length (rows db)"
      using length_filter_StoredName by blast
    with le have "length (rows db) - length (filter (\<lambda>r. StoredName r \<noteq> storedName) (rows db)) \<noteq> 0"
      by linarith
    with True show ?thesis by (simp add: DB_DeleteFile_def Let_def dom_db_index)
  next
    case False
    then have "length (filter (\<lambda>r. StoredName r \<noteq> storedName) (rows db)) = length (rows db)"
      using length_filter_StoredName by blast
    with False show ?thesis by (simp add: DB_DeleteFile_def Let_def dom_db_index)
  qed
  show "db_index (db\<lparr>rows := filter (\<lambda>r. StoredName r \<noteq> storedName) (rows db)\<rparr>) = (db_index db)(storedName := None)"
    by (simp add: db_index_def map_of_filter_key)
qed

text \<open>
  a fault-free listing returns every row once, in descending upload time, and
  returns the nil slice exactly when the table is empty.
\<close>

lemma GetAllFiles_listing:
  "\<exists>rs. GetAllFiles False db = Inr (if rows db = [] then None else Some rs) \<and>
        mset rs = mset (rows db) \<and> sorted_wrt (\<lambda>a b. UploadTime b \<le> UploadTime a) rs"
proof -
  let ?rs = "sort_key (\<lambda>r. - UploadTime r) (rows db)"
  have "sorted (map (\<lambda>r. - UploadTime r) ?rs)" by (rule sorted_sort_key)
  then have "sorted_wrt (\<lambda>a b. UploadTime b \<le> UploadTime a) ?rs" by (simp add: sorted_map)
  moreover have "(?rs = []) = (rows db = [])"
    by (metis length_0_conv length_sort)
  ultimately show ?thesis
    by (intro exI [of _ ?rs]) (simp add: GetAllFiles_def)
qed

section \<open>The metadata store as a whole\<close>

text \<open>
  C18: the table invariant holds for the table \<open>createTable\<close> creates and every
  successful \<open>InsertFile\<close> and \<open>DeleteFile\<close> keeps it, with or without faults.
\<close>

theorem metadata_store_invariant:
  "db_wf empty_db
   \<and> (db_wf db \<longrightarrow> InsertFile f now db originalName storedName fileSize uploadAddr = Inr db' \<longrightarrow> db_wf db')
   \<and> (db_wf db \<longrightarrow> DB_DeleteFile f db storedName = Inr db'' \<longrightarrow> db_wf db'')"
proof (intro conjI impI)
  show "db_wf empty_db" by simp
next
  assume "db_wf db" "InsertFile f now db originalName storedName fileSize uploadAddr = Inr db'"
  then show "db_wf db'" by (rule InsertFile_wf)
next
  assume "db_wf db" "DB_DeleteFile f db storedName = Inr db''"
  then show "db_wf db''" by (rule DB_DeleteFile_wf)
qed

text \<open>
  C17: on a well-formed table the fault-free methods implement the abstract store of
  spec section 4.2, the finite map \<open>db_index\<close>: insert adds one entry under the
  stored name with the next id, lookup reads the map, delete removes the entry.
\<close>

theorem metadata_store_refinement:
  assumes "db_wf db"
  shows "(InsertFile False now db originalName storedName fileSize uploadAddr = Inr db' \<longrightarrow>
            db_index db' = (db_index db)(storedName \<mapsto>
              \<lparr>ID = seq db + 1, OriginalName = originalName, StoredName = storedName,
               UploadTime = now, FileSize = fileSize, UploadAddr = uploadAddr\<rparr>))
       \<and> GetFileByStoredName False db storedName =
            (case db_index db storedName of None \<Rightarrow> Inl ErrNotFound | Some r \<Rightarrow> Inr r)
       \<and> (DB_DeleteFile False db storedName = Inr db'' \<longrightarrow> db_index db'' = (db_index db)(storedName := None))"
proof (intro conjI impI)
  assume "InsertFile False now db originalName storedName fileSize uploadAddr = Inr db'"
  then show "db_index db' = (db_index db)(storedName \<mapsto>
              \<lparr>ID = seq db + 1, OriginalName = originalName, StoredName = storedName,
               UploadTime = now, FileSize = fileSize, UploadAddr = uploadAddr\<rparr>)"
    by (rule InsertFile_refines [OF assms])
next
  show "GetFileByStoredName False db storedName =
          (case db_index db storedName of None \<Rightarrow> Inl ErrNotFound | Some r \<Rightarrow> Inr r)"
    by (rule GetFileByStoredName_refines [OF assms])
next
  assume del: "DB_DeleteFile False db storedName = Inr db''"
  have "storedName \<in> dom (db_index db)"
    using del DB_DeleteFile_refines [of db storedName] by (cases "storedName \<in> dom (db_index db)") simp_all
  then have "db'' = db\<lparr>rows := filter (\<lambda>r. StoredName r \<noteq> storedName) (rows db)\<rparr>"
    using del DB_DeleteFile_refines [of db storedName] by simp
  then show "db_index db'' = (db_index db)(storedName := None)"
    using DB_DeleteFile_refines [of db storedName] by simp
qed

end
