(* ===== verification/Handlers.thy ===== *)
theory Handlers
  imports ByteStore Database
begin

text \<open>
  The storage coordinator: the handlers of \<open>src/internal/handlers/handlers.go\<close>
  that move data between the byte store and the metadata store, \<open>UploadFile\<close>,
  \<open>ListFiles\<close>, \<open>DownloadFile\<close>, \<open>PublicFileAccess\<close> and \<open>DeleteFile\<close>, each the
  whole Go function with every guard and early return, and \<open>http.ServeFile\<close>
  (the library call that streams a file, modelled from its documented behaviour).
  A handler maps an environment (clock readings and which I/O calls fail), the request
  and the server state (the data directory and the table) to the response and the
  next state. Each \<open>http.Error\<close> is a response with its status and fixed message;
  the \<open>err.Error()\<close> text some messages append is not modelled.
\<close>

section \<open>Requests, responses, environment\<close>

datatype http_method = GET | HEAD | POST | PUT | DELETE | OPTIONS | OtherMethod string

text \<open>
  The parts of \<open>*http.Request\<close> the handlers read: \<open>r.Method\<close>, \<open>r.URL.Path\<close>,
  \<open>r.URL.Query().Get("name")\<close> (empty when absent), the result of
  \<open>r.FormFile("file")\<close> (an error text or the header's file name and the part's
  bytes), the JSON bodies of delete and login (\<open>None\<close> when decoding fails; a missing
  field decodes to \<open>""\<close>), \<open>r.RemoteAddr\<close>, \<open>r.Host\<close> and the
  \<open>X-API-Key\<close> header.
\<close>

record request =
  Method :: http_method
  url_path :: string
  query_name :: string
  form_file :: "string + (string \<times> bytes)"
  json_filename :: "string option"
  json_creds :: "(string \<times> string) option"
  remote_addr :: string
  host :: string
  api_key_header :: string

text \<open>Response bodies. \<open>ListJson None\<close> is the JSON \<open>null\<close> a nil slice encodes to.\<close>

datatype body =
    TextBody string
  | UploadJson string string string
  | ListJson "FileRecord list option"
  | LoginJson string string
  | FileContent bytes
  | NoBody

record response =
  status :: nat
  headers :: "(string \<times> string) list"
  body :: body

text \<open>The I/O calls of the handlers, by call site, for fault injection.\<close>

datatype io_call =
    ReadBody | CreateCall | WriteCall | InsertCall | RollbackRemove
  | QueryAll | StatCall | StatHeadCall | ServeOpen | RemoveCall | DeleteRowCall

record env =
  clock :: unix_time
  db_clock :: timestamp
  fault :: "io_call \<Rightarrow> bool"

text \<open>
  The server state: the data directory and the table. (The Go \<open>Handler\<close> struct holds
  the configuration and the database handle; the directory is reached through the
  configured path.)
\<close>

record server_state =
  fsys :: byte_store
  dbase :: DB

section \<open>http.Error and http.ServeFile\<close>

definition http_error :: "nat \<Rightarrow> string \<Rightarrow> response" where
  "http_error code msg =
     \<lparr>status = code,
      headers = [(''Content-Type'', ''text/plain; charset=utf-8''), (''X-Content-Type-Options'', ''nosniff'')],
      body = TextBody msg\<rparr>"

definition local_redirect :: "string \<Rightarrow> response" where
  "local_redirect target = \<lparr>status = 301, headers = [(''Location'', target)], body = NoBody\<rparr>"

text \<open>\<open>path.Base\<close> of a URL path without trailing slash: its last element.\<close>

definition url_base :: "string \<Rightarrow> string" where
  "url_base p = rev (takeWhile (\<lambda>c. c \<noteq> CHR ''/'') (rev p))"

text \<open>
  \<open>http.ServeFile(w, r, filePath)\<close>: a request path ending in \<open>/index.html\<close> is
  redirected to \<open>./\<close>; a failed open answers 404 (not found) or 500; a directory is
  redirected to its path with a trailing slash; a regular file is sent whole with status
  200 (range and conditional requests are not modelled).
\<close>

definition ServeFile :: "bool \<Rightarrow> string \<Rightarrow> byte_store \<Rightarrow> fs_path \<Rightarrow> response" where
  "ServeFile openFault urlPath bs p =
     (if suffix ''/index.html'' urlPath then local_redirect ''./''
      else if openFault then http_error 500 ''500 Internal Server Error''
      else case p of
        DirPath \<Rightarrow> if dir_exists bs then local_redirect (url_base urlPath @ ''/'')
                   else http_error 404 ''404 page not found''
      | Entry n \<Rightarrow> (case read_file bs n of
                     None \<Rightarrow> http_error 404 ''404 page not found''
                   | Some c \<Rightarrow> \<lparr>status = 200, headers = [(''Content-Length'', fmt_int (int (length c)))],
                                body = FileContent c\<rparr>))"

definition add_header :: "string \<times> string \<Rightarrow> response \<Rightarrow> response" where
  "add_header h resp = resp\<lparr>headers := h # headers resp\<rparr>"

section \<open>UploadFile (lines 63--126)\<close>

definition UploadFile :: "env \<Rightarrow> request \<Rightarrow> server_state \<Rightarrow> response \<times> server_state" where
  "UploadFile e r st =
     (if Method r \<noteq> POST then (http_error 405 ''Method not allowed'', st)
      else case form_file r of
        Inl err \<Rightarrow> (http_error 400 (''Failed to get file: '' @ err), st)
      | Inr (filename, fileBytes) \<Rightarrow>
          let newFilename = new_filename (clock e) filename in
          if fault e ReadBody then (http_error 500 ''Failed to read file: '', st)
          else let filePath = data_path newFilename in
          (case os_create (fault e CreateCall) (fsys st) filePath of
            Inl _ \<Rightarrow> (http_error 500 ''Failed to create file on server: '', st)
          | Inr bs1 \<Rightarrow>
            (case file_write (fault e WriteCall) bs1 newFilename fileBytes of
              Inl _ \<Rightarrow> (http_error 500 ''Failed to save file: '', st\<lparr>fsys := bs1\<rparr>)
            | Inr bs2 \<Rightarrow>
              let fileSize = int (length fileBytes) in
              (case InsertFile (fault e InsertCall) (db_clock e) (dbase st) filename newFilename fileSize (remote_addr r) of
                Inl _ \<Rightarrow>
                  (http_error 500 ''Failed to save file record to database: '',
                   st\<lparr>fsys := (case os_remove (fault e RollbackRemove) bs2 filePath of Inl _ \<Rightarrow> bs2 | Inr bs3 \<Rightarrow> bs3)\<rparr>)
              | Inr db' \<Rightarrow>
                  (\<lparr>status = 201, headers = [],
                    body = UploadJson (''File '' @ [CHR 0x27] @ newFilename @ [CHR 0x27] @ '' successfully uploaded.'')
                             newFilename (''https://'' @ host r @ ''/file/'' @ newFilename)\<rparr>,
                   \<lparr>fsys = bs2, dbase = db'\<rparr>)))))"

section \<open>ListFiles (lines 128--150)\<close>

definition ListFiles :: "env \<Rightarrow> request \<Rightarrow> server_state \<Rightarrow> response \<times> server_state" where
  "ListFiles e r st =
     (if Method r \<noteq> GET then (http_error 405 ''Method not allowed'', st)
      else case GetAllFiles (fault e QueryAll) (dbase st) of
        Inl _ \<Rightarrow> (http_error 500 ''Failed to read file records from database: '', st)
      | Inr fileRecords \<Rightarrow>
          let fileRecords' = (if fileRecords = None then Some [] else fileRecords) in
          (\<lparr>status = 200, headers = [(''Content-Type'', ''application/json'')], body = ListJson fileRecords'\<rparr>, st))"

section \<open>DownloadFile (lines 152--196) and PublicFileAccess (lines 198--239)\<close>

text \<open>
  The tail both read paths share once the file is known to exist (lines 179--195 and
  222--238, which differ only in the disposition): for \<open>HEAD\<close> a second
  \<open>os.Stat\<close> and the headers, otherwise \<open>ServeFile\<close> under a
  \<open>Content-Disposition\<close> header.
\<close>

definition head_or_serve ::
  "env \<Rightarrow> request \<Rightarrow> byte_store \<Rightarrow> string \<Rightarrow> string \<Rightarrow> fs_path \<Rightarrow> response" where
  "head_or_serve e r bs disposition filename filePath =
     (if Method r = HEAD then
        (case os_stat (fault e StatHeadCall) bs filePath of
           Inl _ \<Rightarrow> http_error 500 ''Failed to get file info''
         | Inr fileInfo \<Rightarrow>
             \<lparr>status = 200,
              headers = [(''Content-Length'', fmt_int (int (info_size fileInfo))),
                         (''Content-Disposition'', disposition @ ''; filename='' @ filename)],
              body = NoBody\<rparr>)
      else add_header (''Content-Disposition'', disposition @ ''; filename='' @ filename)
             (ServeFile (fault e ServeOpen) (url_path r) bs filePath))"

definition DownloadFile :: "env \<Rightarrow> request \<Rightarrow> server_state \<Rightarrow> response \<times> server_state" where
  "DownloadFile e r st =
     (if Method r \<noteq> GET \<and> Method r \<noteq> HEAD then (http_error 405 ''Method not allowed'', st)
      else let filename = query_name r in
      if filename = [] then (http_error 400 ''Missing 'name' parameter'', st)
      else if unsafe_name filename then (http_error 400 ''Invalid filename'', st)
      else let filePath = data_path filename in
      case os_stat (fault e StatCall) (fsys st) filePath of
        Inl err \<Rightarrow> if is_not_exist err then (http_error 404 ''File not found'', st)
                   else (head_or_serve e r (fsys st) ''attachment'' filename filePath, st)
      | Inr _ \<Rightarrow> (head_or_serve e r (fsys st) ''attachment'' filename filePath, st))"

definition PublicFileAccess :: "env \<Rightarrow> request \<Rightarrow> server_state \<Rightarrow> response \<times> server_state" where
  "PublicFileAccess e r st =
     (let filename = trim_prefix (url_path r) ''/file/'' in
      if filename = [] then (http_error 400 ''Filename not specified'', st)
      else if unsafe_name filename then (http_error 400 ''Invalid filename'', st)
      else let filePath = data_path filename in
      case os_stat (fault e StatCall) (fsys st) filePath of
        Inl err \<Rightarrow> if is_not_exist err then (http_error 404 ''File not found'', st)
                   else (head_or_serve e r (fsys st) ''inline'' filename filePath, st)
      | Inr _ \<Rightarrow> (head_or_serve e r (fsys st) ''inline'' filename filePath, st))"

section \<open>DeleteFile (lines 241--286)\<close>

text \<open>
  The metadata delete's error is only logged (\<open>fmt.Printf\<close>, not modelled): the
  table is left as it was and the request still succeeds.
\<close>

definition DeleteFile :: "env \<Rightarrow> request \<Rightarrow> server_state \<Rightarrow> response \<times> server_state" where
  "DeleteFile e r st =
     (if Method r \<noteq> DELETE then (http_error 405 ''Method not allowed'', st)
      else case json_filename r of
        None \<Rightarrow> (http_error 400 ''Invalid request'', st)
      | Some filename \<Rightarrow>
          if unsafe_name filename then (http_error 400 ''Invalid filename'', st)
          else let filePath = data_path filename;
                   removeAndForget = (\<lambda>bs'.
                     (\<lparr>status = 200, headers = [],
                       body = TextBody (''File '' @ [CHR 0x27] @ filename @ [CHR 0x27] @ '' successfully deleted.'')\<rparr>,
                      \<lparr>fsys = bs',
                       dbase = (case DB_DeleteFile (fault e DeleteRowCall) (dbase st) filename of
                                  Inl _ \<Rightarrow> dbase st | Inr db' \<Rightarrow> db')\<rparr>));
                   removeStep = (case os_remove (fault e RemoveCall) (fsys st) filePath of
                                   Inl _ \<Rightarrow> (http_error 500 ''Failed to delete file: '', st)
                                 | Inr bs' \<Rightarrow> removeAndForget bs') in
          (case os_stat (fault e StatCall) (fsys st) filePath of
             Inl err \<Rightarrow> if is_not_exist err then (http_error 404 ''File not found'', st) else removeStep
           | Inr _ \<Rightarrow> removeStep))"

section \<open>The twin-existence invariant\<close>

text \<open>
  Spec I2: every record has its bytes in the store, of exactly the recorded size. The
  state invariant adds the well-formedness of each store.
\<close>

definition twin_inv :: "server_state \<Rightarrow> bool" where
  "twin_inv st \<longleftrightarrow>
     list_all (\<lambda>r. case read_file (fsys st) (StoredName r) of
                     None \<Rightarrow> False
                   | Some c \<Rightarrow> FileSize r = int (length c)) (rows (dbase st))"

definition state_wf :: "server_state \<Rightarrow> bool" where
  "state_wf st \<longleftrightarrow> store_wf (fsys st) \<and> db_wf (dbase st) \<and> twin_inv st"

text \<open>The table after \<open>DeleteFile\<close>'s metadata step, whose error is ignored.\<close>

definition delete_db :: "env \<Rightarrow> DB \<Rightarrow> string \<Rightarrow> DB" where
  "delete_db e d n = (case DB_DeleteFile (fault e DeleteRowCall) d n of Inl _ \<Rightarrow> d | Inr d' \<Rightarrow> d')"

section \<open>Frame lemmas\<close>

lemma twin_inv_frame:
  "twin_inv st \<Longrightarrow>
   (\<And>m. m \<in> set (map StoredName (rows (dbase st))) \<Longrightarrow> read_file bs' m = read_file (fsys st) m) \<Longrightarrow>
   twin_inv (st\<lparr>fsys := bs'\<rparr>)"
  by (auto simp: twin_inv_def list_all_iff)

lemma read_file_other_update:
  "m \<noteq> n \<Longrightarrow> read_file (bs\<lparr>files := Mapping.update n c (files bs)\<rparr>) m = read_file bs m"
  by (simp add: read_file_def)

lemma read_file_other_delete:
  "m \<noteq> n \<Longrightarrow> read_file (bs\<lparr>files := Mapping.delete n (files bs)\<rparr>) m = read_file bs m"
  by (simp add: read_file_def)

text \<open>The byte-store effect of an upload on names other than the stored name.\<close>

lemma os_remove_other:
  "os_remove f bs (Entry n) = Inr bs' \<Longrightarrow> m \<noteq> n \<Longrightarrow> read_file bs' m = read_file bs m"
  by (auto dest!: os_remove_Inr_file simp: read_file_other_delete)

lemma os_create_other:
  "os_create f bs (Entry n) = Inr bs' \<Longrightarrow> m \<noteq> n \<Longrightarrow> read_file bs' m = read_file bs m"
  by (auto dest!: os_create_Inr simp: read_file_other_update)

lemma file_write_other:
  "file_write f bs n c = Inr bs' \<Longrightarrow> m \<noteq> n \<Longrightarrow> read_file bs' m = read_file bs m"
  by (auto dest!: file_write_Inr simp: read_file_other_update)

lemma os_create_then_write:
  "os_create f bs (Entry n) = Inr bs1 \<Longrightarrow> file_write f' bs1 n c = Inr bs2 \<Longrightarrow>
     read_file bs2 n = Some c"
  by (auto dest!: os_create_Inr simp: file_write_def read_file_def split: if_splits)

lemma twin_inv_unrecorded:
  "twin_inv st \<Longrightarrow> n \<notin> set (map StoredName (rows (dbase st))) \<Longrightarrow>
   (\<And>m. m \<noteq> n \<Longrightarrow> read_file bs' m = read_file (fsys st) m) \<Longrightarrow> twin_inv (st\<lparr>fsys := bs'\<rparr>)"
proof (rule twin_inv_frame)
  fix m assume "twin_inv st" "m \<in> set (map StoredName (rows (dbase st)))"
    "n \<notin> set (map StoredName (rows (dbase st)))"
    "\<And>m. m \<noteq> n \<Longrightarrow> read_file bs' m = read_file (fsys st) m"
  then show "read_file bs' m = read_file (fsys st) m" by metis
qed

lemma twin_inv_insert:
  "twin_inv (st\<lparr>fsys := bs\<rparr>) \<Longrightarrow> InsertFile f now (dbase st) o' n (int (length c)) a = Inr d' \<Longrightarrow>
   read_file bs n = Some c \<Longrightarrow> twin_inv \<lparr>fsys = bs, dbase = d'\<rparr>"
  by (drule InsertFile_Inr) (auto simp: twin_inv_def)

lemma state_wf_unrecorded:
  "state_wf st \<Longrightarrow> n \<notin> set (map StoredName (rows (dbase st))) \<Longrightarrow> store_wf bs' \<Longrightarrow>
   (\<And>m. m \<noteq> n \<Longrightarrow> read_file bs' m = read_file (fsys st) m) \<Longrightarrow> state_wf (st\<lparr>fsys := bs'\<rparr>)"
  by (simp add: state_wf_def twin_inv_unrecorded)

lemma UploadFile_wf_step:
  assumes wf: "state_wf st"
    and ff: "form_file r = Inr (filename, content)"
    and fresh: "new_filename (clock e) filename \<notin> set (map StoredName (rows (dbase st)))"
  shows "state_wf (snd (UploadFile e r st))"
proof (cases "Method r = POST \<and> \<not> fault e ReadBody")
  case False
  then have "snd (UploadFile e r st) = st" using ff by (auto simp: UploadFile_def)
  with wf show ?thesis by simp
next
  case go: True
  let ?n = "new_filename (clock e) filename"
  from wf have swf: "store_wf (fsys st)" by (simp add: state_wf_def)
  show ?thesis
  proof (cases "os_create (fault e CreateCall) (fsys st) (Entry ?n)")
    case (Inl err)
    with wf show ?thesis using go ff by (simp add: UploadFile_def Let_def)
  next
    case (Inr bs1)
    have swf1: "store_wf bs1" using os_create_wf [OF Inr swf] .
    have wf1: "state_wf (st\<lparr>fsys := bs1\<rparr>)"
      using state_wf_unrecorded [OF wf fresh swf1] os_create_other [OF Inr] by blast
    show ?thesis
    proof (cases "file_write (fault e WriteCall) bs1 ?n content")
      case Inl
      with Inr wf1 show ?thesis using go ff by (simp add: UploadFile_def Let_def)
    next
      case (Inr bs2)
      note w = this
      have swf2: "store_wf bs2" using file_write_wf [OF w swf1] .
      have other2: "\<And>m. m \<noteq> ?n \<Longrightarrow> read_file bs2 m = read_file (fsys st) m"
        using file_write_other [OF w] os_create_other [OF \<open>os_create _ _ _ = Inr bs1\<close>] by simp
      have wf2: "state_wf (st\<lparr>fsys := bs2\<rparr>)"
        using state_wf_unrecorded [OF wf fresh swf2] other2 by blast
      show ?thesis
      proof (cases "InsertFile (fault e InsertCall) (db_clock e) (dbase st) filename ?n (int (length content)) (remote_addr r)")
        case Inl
        show ?thesis
        proof (cases "os_remove (fault e RollbackRemove) bs2 (Entry ?n)")
          case Inl
          with \<open>os_create _ _ _ = Inr bs1\<close> w \<open>InsertFile _ _ _ _ _ _ _ = Inl _\<close> wf2
          show ?thesis using go ff by (simp add: UploadFile_def Let_def)
        next
          case (Inr bs3)
          have "state_wf (st\<lparr>fsys := bs3\<rparr>)"
            using state_wf_unrecorded [OF wf fresh os_remove_wf [OF Inr swf2]]
              os_remove_other [OF Inr] other2 by simp
          with \<open>os_create _ _ _ = Inr bs1\<close> w \<open>InsertFile _ _ _ _ _ _ _ = Inl _\<close> Inr
          show ?thesis using go ff by (simp add: UploadFile_def Let_def)
        qed
      next
        case (Inr db')
        have "read_file bs2 ?n = Some content"
          using os_create_then_write [OF \<open>os_create _ _ _ = Inr bs1\<close> w] .
        then have "twin_inv \<lparr>fsys = bs2, dbase = db'\<rparr>"
          using twin_inv_insert [OF _ Inr] wf2 by (simp add: state_wf_def)
        moreover have "db_wf db'" using InsertFile_wf [OF _ Inr] wf by (simp add: state_wf_def)
        ultimately have "state_wf \<lparr>fsys = bs2, dbase = db'\<rparr>" using swf2 by (simp add: state_wf_def)
        with \<open>os_create _ _ _ = Inr bs1\<close> w Inr show ?thesis using go ff by (simp add: UploadFile_def Let_def)
      qed
    qed
  qed
qed

text \<open>
  C2: every upload keeps the state well formed (the data directory invariant, the table
  invariant and spec I2: every record has its bytes, of the recorded size) whenever its
  generated name is not yet recorded, under any combination of I/O faults.
\<close>

theorem UploadFile_preserves_wf:
  assumes "state_wf st"
    and "form_file r = Inr (filename, content)"
    and "new_filename (clock e) filename \<notin> set (map StoredName (rows (dbase st)))"
  shows "state_wf (snd (UploadFile e r st))"
  using assms by (rule UploadFile_wf_step)

lemma twin_inv_recorded:
  "twin_inv st \<Longrightarrow> r \<in> set (rows (dbase st)) \<Longrightarrow>
     \<exists>c. read_file (fsys st) (StoredName r) = Some c \<and> FileSize r = int (length c)"
  by (auto simp: twin_inv_def list_all_iff split: option.splits)

lemma read_file_dir: "read_file bs n = Some c \<Longrightarrow> dir_exists bs"
  by (simp add: read_file_def split: if_splits)

text \<open>
  C1: the collision of two uploads is destructive even without concurrency: an upload in
  the same second as an earlier one, with the same extension, overwrites the earlier
  upload's bytes, fails on the uniqueness constraint, and its rollback deletes the file.
  The earlier record survives with no bytes behind it: the twin-existence invariant
  (spec I2) is broken.
\<close>

theorem UploadFile_collision:
  assumes wf: "state_wf st"
    and old: "old \<in> set (rows (dbase st))"
    and same: "StoredName old = new_filename (clock e) filename"
    and post: "Method r = POST" and ff: "form_file r = Inr (filename, content)"
    and nofault: "fault e = (\<lambda>_. False)"
  shows "fst (UploadFile e r st) = http_error 500 ''Failed to save file record to database: ''
         \<and> db_index (dbase (snd (UploadFile e r st))) (StoredName old) = Some old
         \<and> read_file (fsys (snd (UploadFile e r st))) (StoredName old) = None
         \<and> \<not> twin_inv (snd (UploadFile e r st))"
proof -
  let ?n = "new_filename (clock e) filename"
  from wf old obtain c where c: "read_file (fsys st) ?n = Some c"
    using twin_inv_recorded same by (fastforce simp: state_wf_def)
  then have dir: "dir_exists (fsys st)" by (rule read_file_dir)
  let ?bs1 = "fsys st\<lparr>files := Mapping.update ?n [] (files (fsys st))\<rparr>"
  let ?bs2 = "?bs1\<lparr>files := Mapping.update ?n content (files ?bs1)\<rparr>"
  have create: "os_create False (fsys st) (Entry ?n) = Inr ?bs1" using dir by (simp add: os_create_def)
  have wr: "file_write False ?bs1 ?n content = Inr ?bs2" by (simp add: file_write_def)
  have dup: "InsertFile False (db_clock e) (dbase st) filename ?n (int (length content)) (remote_addr r)
      = Inl ErrConstraintUnique"
  proof -
    have "?n \<in> set (map StoredName (rows (dbase st)))" using old same by (metis image_eqI list.set_map)
    then show ?thesis by (simp add: InsertFile_def)
  qed
  have rm: "os_remove False ?bs2 (Entry ?n) = Inr (?bs2\<lparr>files := Mapping.delete ?n (files ?bs2)\<rparr>)"
    using dir by (simp add: os_remove_def)
  have run: "UploadFile e r st = (http_error 500 ''Failed to save file record to database: '',
      st\<lparr>fsys := ?bs2\<lparr>files := Mapping.delete ?n (files ?bs2)\<rparr>\<rparr>)"
    using post ff nofault create wr dup rm by (simp add: UploadFile_def Let_def)
  have idx: "db_index (dbase st) ?n = Some old"
    using wf old same by (simp add: state_wf_def db_wf_def db_index_Some_iff)
  have gone: "read_file (fsys (snd (UploadFile e r st))) ?n = None"
    using run by (simp add: read_file_def)
  have "\<not> twin_inv (snd (UploadFile e r st))"
  proof
    assume "twin_inv (snd (UploadFile e r st))"
    moreover have "old \<in> set (rows (dbase (snd (UploadFile e r st))))" using old run by simp
    ultimately obtain c' where "read_file (fsys (snd (UploadFile e r st))) (StoredName old) = Some c'"
      using twin_inv_recorded by blast
    with gone same show False by simp
  qed
  with run idx gone same show ?thesis by simp
qed

section \<open>Fault-free behaviour of each handler\<close>

lemma unsafe_name_nonempty: "unsafe_name n \<Longrightarrow> n \<noteq> []"
  by (auto simp: unsafe_name_iff)

lemma entry_name_nonempty: "data_path n = Entry n \<Longrightarrow> n \<noteq> []"
  by (simp add: data_path_def split: if_splits)

lemma index_html_stored:
  "\<not> suffix ''/index.html'' (''/file/'' @ new_filename t f)"
proof
  assume "suffix ''/index.html'' (''/file/'' @ new_filename t f)"
  then have "CHR ''/'' \<in> set (new_filename t f) \<or> new_filename t f = ''index.html''"
    by (auto simp: suffix_def append_eq_append_conv2 Cons_eq_append_conv)
  moreover have "new_filename t f \<noteq> ''index.html''"
  proof
    assume eq: "new_filename t f = ''index.html''"
    have "hd (new_filename t f) = hd (fmt_int t)" by (simp add: new_filename_def)
    with eq have "hd (fmt_int t) = CHR ''i''" by simp
    moreover have "hd (fmt_int t) = CHR ''-'' \<or> is_digit (hd (fmt_int t))"
      using fmt_nat_digits [OF hd_in_set [OF fmt_nat_nonempty]] by (simp add: fmt_int_def)
    ultimately show False by (simp add: is_digit_def)
  qed
  ultimately show False using new_filename_parts(1) by blast
qed

lemma UploadFile_success:
  assumes nofault: "fault e = (\<lambda>_. False)" and post: "Method r = POST"
    and ff: "form_file r = Inr (filename, content)" and dir: "dir_exists (fsys st)"
    and wf: "db_wf (dbase st)"
    and fresh: "new_filename (clock e) filename \<notin> dom (db_index (dbase st))"
  defines "n \<equiv> new_filename (clock e) filename"
  shows "status (fst (UploadFile e r st)) = 201
       \<and> body (fst (UploadFile e r st)) =
           UploadJson (''File '' @ [CHR 0x27] @ n @ [CHR 0x27] @ '' successfully uploaded.'') n
                      (''https://'' @ host r @ ''/file/'' @ n)
       \<and> read_file (fsys (snd (UploadFile e r st))) n = Some content
       \<and> (\<forall>m. m \<noteq> n \<longrightarrow> read_file (fsys (snd (UploadFile e r st))) m = read_file (fsys st) m)
       \<and> db_index (dbase (snd (UploadFile e r st))) = (db_index (dbase st))(n \<mapsto>
           \<lparr>ID = seq (dbase st) + 1, OriginalName = filename, StoredName = n,
            UploadTime = db_clock e, FileSize = int (length content), UploadAddr = remote_addr r\<rparr>)"
proof -
  let ?bs1 = "fsys st\<lparr>files := Mapping.update n [] (files (fsys st))\<rparr>"
  let ?bs2 = "?bs1\<lparr>files := Mapping.update n content (files ?bs1)\<rparr>"
  have fresh': "n \<notin> set (map StoredName (rows (dbase st)))"
    using fresh by (simp add: n_def dom_db_index)
  obtain db' where ins: "InsertFile False (db_clock e) (dbase st) filename n (int (length content)) (remote_addr r) = Inr db'"
    using fresh' by (simp add: InsertFile_def Let_def)
  have run: "UploadFile e r st =
      (\<lparr>status = 201, headers = [],
        body = UploadJson (''File '' @ [CHR 0x27] @ n @ [CHR 0x27] @ '' successfully uploaded.'') n
                 (''https://'' @ host r @ ''/file/'' @ n)\<rparr>, \<lparr>fsys = ?bs2, dbase = db'\<rparr>)"
    using nofault post ff dir ins by (simp add: UploadFile_def Let_def n_def os_create_def file_write_def)
  have "db_index db' = (db_index (dbase st))(n \<mapsto>
           \<lparr>ID = seq (dbase st) + 1, OriginalName = filename, StoredName = n,
            UploadTime = db_clock e, FileSize = int (length content), UploadAddr = remote_addr r\<rparr>)"
    by (rule InsertFile_refines [OF wf ins])
  with run dir show ?thesis by (simp add: read_file_def lookup_update')
qed

lemma head_or_serve_file:
  assumes "fault e = (\<lambda>_. False)" and "read_file bs n = Some c"
    and "\<not> suffix ''/index.html'' (url_path r)"
  shows "head_or_serve e r bs disp n (Entry n) =
    (if Method r = HEAD then
       \<lparr>status = 200, headers = [(''Content-Length'', fmt_int (int (length c))),
                                 (''Content-Disposition'', disp @ ''; filename='' @ n)], body = NoBody\<rparr>
     else \<lparr>status = 200, headers = [(''Content-Disposition'', disp @ ''; filename='' @ n),
                                   (''Content-Length'', fmt_int (int (length c)))], body = FileContent c\<rparr>)"
  using assms by (simp add: head_or_serve_def os_stat_def ServeFile_def add_header_def read_file_def
      split: if_splits)

lemma DownloadFile_stored:
  assumes "fault e = (\<lambda>_. False)" and "Method r = GET \<or> Method r = HEAD"
    and "query_name r = n" and "\<not> unsafe_name n" and "data_path n = Entry n"
    and "read_file (fsys st) n = Some c" and "\<not> suffix ''/index.html'' (url_path r)"
  shows "DownloadFile e r st = (head_or_serve e r (fsys st) ''attachment'' n (Entry n), st)"
  using assms entry_name_nonempty [OF assms(5)]
  by (auto simp: DownloadFile_def Let_def os_stat_def read_file_def)

lemma PublicFileAccess_stored:
  assumes "fault e = (\<lambda>_. False)" and "trim_prefix (url_path r) ''/file/'' = n"
    and "\<not> unsafe_name n" and "data_path n = Entry n" and "read_file (fsys st) n = Some c"
  shows "PublicFileAccess e r st = (head_or_serve e r (fsys st) ''inline'' n (Entry n), st)"
  using assms entry_name_nonempty [OF assms(4)]
  by (auto simp: PublicFileAccess_def Let_def os_stat_def read_file_def)

section \<open>DeleteFile\<close>

lemma DeleteFile_cases:
  "(status (fst (DeleteFile e r st)) \<noteq> 200 \<and> snd (DeleteFile e r st) = st)
   \<or> (\<exists>n bs'. Method r = DELETE \<and> json_filename r = Some n \<and> \<not> unsafe_name n
        \<and> os_remove (fault e RemoveCall) (fsys st) (data_path n) = Inr bs'
        \<and> DeleteFile e r st =
             (\<lparr>status = 200, headers = [],
               body = TextBody (''File '' @ [CHR 0x27] @ n @ [CHR 0x27] @ '' successfully deleted.'')\<rparr>,
              \<lparr>fsys = bs', dbase = delete_db e (dbase st) n\<rparr>))"
  by (auto simp: DeleteFile_def Let_def http_error_def delete_db_def split: option.splits sum.splits if_splits)

lemma twin_inv_sub:
  "twin_inv st \<Longrightarrow> set (rows d') \<subseteq> set (rows (dbase st)) \<Longrightarrow>
   (\<And>r. r \<in> set (rows d') \<Longrightarrow> read_file bs' (StoredName r) = read_file (fsys st) (StoredName r)) \<Longrightarrow>
   twin_inv \<lparr>fsys = bs', dbase = d'\<rparr>"
  by (auto simp: twin_inv_def list_all_iff)

lemma twin_no_files:
  assumes "twin_inv st" and "Mapping.is_empty (files (fsys st))"
  shows "rows (dbase st) = []"
proof (rule ccontr)
  assume "rows (dbase st) \<noteq> []"
  then obtain r where "r \<in> set (rows (dbase st))" by (cases "rows (dbase st)") auto
  with assms(1) obtain c where "read_file (fsys st) (StoredName r) = Some c"
    using twin_inv_recorded by blast
  with assms(2) show False
    by (auto simp: read_file_def Mapping.is_empty_def keys_dom_lookup split: if_splits)
qed

lemma delete_db_fault_free:
  "\<not> fault e DeleteRowCall \<Longrightarrow>
   delete_db e d n = d\<lparr>rows := filter (\<lambda>r. StoredName r \<noteq> n) (rows d)\<rparr>"
proof (cases "n \<in> set (map StoredName (rows d))")
  case True
  assume nf: "\<not> fault e DeleteRowCall"
  with True DB_DeleteFile_refines [of d n] show ?thesis by (simp add: delete_db_def dom_db_index)
next
  case False
  assume nf: "\<not> fault e DeleteRowCall"
  from False have "filter (\<lambda>r. StoredName r \<noteq> n) (rows d) = rows d" by (force intro: filter_True)
  with nf False DB_DeleteFile_refines [of d n] show ?thesis by (simp add: delete_db_def dom_db_index)
qed

lemma delete_db_sub: "set (rows (delete_db e d n)) \<subseteq> set (rows d)"
  by (auto simp: delete_db_def dest!: DB_DeleteFile_Inr split: sum.splits)

lemma delete_db_wf: "db_wf d \<Longrightarrow> db_wf (delete_db e d n)"
  by (auto simp: delete_db_def intro: DB_DeleteFile_wf split: sum.splits)

lemma state_wf_after_remove:
  assumes wf: "state_wf st" and nf: "\<not> fault e DeleteRowCall"
    and rm: "os_remove f (fsys st) (data_path n) = Inr bs'"
  shows "state_wf \<lparr>fsys = bs', dbase = delete_db e (dbase st) n\<rparr>"
proof -
  have swf: "store_wf bs'" using os_remove_wf [OF rm] wf by (simp add: state_wf_def)
  have dwf: "db_wf (delete_db e (dbase st) n)" using wf delete_db_wf by (simp add: state_wf_def)
  have twin: "twin_inv st" using wf by (simp add: state_wf_def)
  have "twin_inv \<lparr>fsys = bs', dbase = delete_db e (dbase st) n\<rparr>"
  proof (cases "data_path n")
    case DirPath
    with rm have "Mapping.is_empty (files (fsys st))" by (auto dest: os_remove_Inr_dir)
    with twin have "rows (dbase st) = []" by (rule twin_no_files)
    with delete_db_sub [of e "dbase st" n] show ?thesis by (simp add: twin_inv_def)
  next
    case (Entry m)
    then have m: "m = n" by (rule data_path_Entry)
    show ?thesis
    proof (rule twin_inv_sub [OF twin delete_db_sub])
      fix r assume "r \<in> set (rows (delete_db e (dbase st) n))"
      then have "StoredName r \<noteq> n" using delete_db_fault_free [OF nf] by auto
      then show "read_file bs' (StoredName r) = read_file (fsys st) (StoredName r)"
        using os_remove_other rm Entry m by metis
    qed
  qed
  with swf dwf show ?thesis by (simp add: state_wf_def)
qed

lemma DeleteFile_wf_step:
  assumes "state_wf st" and "\<not> fault e DeleteRowCall"
  shows "state_wf (snd (DeleteFile e r st))"
proof -
  consider (same) "snd (DeleteFile e r st) = st"
    | (rm) n bs' where "os_remove (fault e RemoveCall) (fsys st) (data_path n) = Inr bs'"
        "snd (DeleteFile e r st) = \<lparr>fsys = bs', dbase = delete_db e (dbase st) n\<rparr>"
    using DeleteFile_cases [of e r st] by fastforce
  then show ?thesis
  proof cases
    case same
    with assms(1) show ?thesis by simp
  next
    case (rm n bs')
    with state_wf_after_remove [OF assms rm(1)] show ?thesis by simp
  qed
qed

text \<open>
  C4: every delete keeps the state well formed, under any I/O faults except a failure of
  the metadata delete (which the handler ignores).
\<close>

theorem DeleteFile_preserves_wf:
  assumes "state_wf st" and "\<not> fault e DeleteRowCall"
  shows "state_wf (snd (DeleteFile e r st))"
  using assms by (rule DeleteFile_wf_step)

lemma read_file_removed:
  "os_remove f bs (data_path n) = Inr bs' \<Longrightarrow> read_file bs' n = None"
proof (cases "data_path n")
  case DirPath
  assume "os_remove f bs (data_path n) = Inr bs'"
  with DirPath show ?thesis by (auto dest: os_remove_Inr_dir simp: read_file_def)
next
  case (Entry m)
  assume "os_remove f bs (data_path n) = Inr bs'"
  with Entry data_path_Entry [OF Entry] show ?thesis by (auto dest: os_remove_Inr_file simp: read_file_def)
qed

text \<open>C5: a successful delete leaves neither bytes nor a record under the name.\<close>

theorem DeleteFile_removes_both:
  assumes "fault e = (\<lambda>_. False)" and "json_filename r = Some n"
    and "status (fst (DeleteFile e r st)) = 200"
  shows "read_file (fsys (snd (DeleteFile e r st))) n = None
       \<and> db_index (dbase (snd (DeleteFile e r st))) n = None"
proof -
  obtain bs' where rm: "os_remove False (fsys st) (data_path n) = Inr bs'"
    and run: "snd (DeleteFile e r st) = \<lparr>fsys = bs', dbase = delete_db e (dbase st) n\<rparr>"
    using DeleteFile_cases [of e r st] assms by fastforce
  have "db_index (delete_db e (dbase st) n) = (db_index (dbase st))(n := None)"
    using assms(1) delete_db_fault_free DB_DeleteFile_refines by simp
  with run read_file_removed [OF rm] show ?thesis by simp
qed

text \<open>
  C22: when only the metadata delete fails, the request still succeeds: the bytes are
  gone and the record stays, an orphan record (spec section 4.4, delete step 4).
\<close>

theorem DeleteFile_orphan_record:
  assumes "fault e = (\<lambda>c. c = DeleteRowCall)" and "state_wf st"
    and old: "old \<in> set (rows (dbase st))"
    and "Method r = DELETE" and "json_filename r = Some (StoredName old)"
    and "\<not> unsafe_name (StoredName old)" and "data_path (StoredName old) = Entry (StoredName old)"
  shows "status (fst (DeleteFile e r st)) = 200
       \<and> db_index (dbase (snd (DeleteFile e r st))) (StoredName old) = Some old
       \<and> read_file (fsys (snd (DeleteFile e r st))) (StoredName old) = None"
proof -
  let ?n = "StoredName old"
  obtain c where c: "read_file (fsys st) ?n = Some c"
    using assms(2) old twin_inv_recorded by (fastforce simp: state_wf_def)
  have run: "DeleteFile e r st =
      (\<lparr>status = 200, headers = [],
        body = TextBody (''File '' @ [CHR 0x27] @ ?n @ [CHR 0x27] @ '' successfully deleted.'')\<rparr>,
       \<lparr>fsys = fsys st\<lparr>files := Mapping.delete ?n (files (fsys st))\<rparr>, dbase = dbase st\<rparr>)"
    using assms c by (simp add: DeleteFile_def Let_def DB_DeleteFile_def os_stat_Entry os_remove_Entry)
  have "db_index (dbase st) ?n = Some old"
    using assms(2) old by (simp add: state_wf_def db_wf_def db_index_Some_iff)
  with run show ?thesis by (simp add: read_file_def)
qed

text \<open>
  C23: the delete route accepts the empty name (its only check is the traversal check),
  which \<open>filepath.Join\<close> maps to the data directory itself: on an empty store the
  request succeeds by removing the data directory, and from then on every upload fails.
\<close>

theorem DeleteFile_empty_name_removes_dir:
  assumes "fault e = (\<lambda>_. False)" and "dir_exists (fsys st)" and "Mapping.is_empty (files (fsys st))"
    and "Method r = DELETE" and "json_filename r = Some ''''"
  shows "status (fst (DeleteFile e r st)) = 200
       \<and> \<not> dir_exists (fsys (snd (DeleteFile e r st)))
       \<and> (\<forall>e' u f c. Method u = POST \<longrightarrow> form_file u = Inr (f, c) \<longrightarrow> \<not> fault e' ReadBody \<longrightarrow>
            status (fst (UploadFile e' u (snd (DeleteFile e r st)))) = 500)"
proof -
  have run: "DeleteFile e r st =
      (\<lparr>status = 200, headers = [],
        body = TextBody (''File '' @ [CHR 0x27] @ [CHR 0x27] @ '' successfully deleted.'')\<rparr>,
       \<lparr>fsys = fsys st\<lparr>dir_exists := False\<rparr>, dbase = delete_db e (dbase st) ''''\<rparr>)"
    using assms by (simp add: DeleteFile_def Let_def delete_db_def os_stat_def os_remove_def
        data_path_def unsafe_name_iff)
  have "status (fst (UploadFile e' u (snd (DeleteFile e r st)))) = 500"
    if "Method u = POST" "form_file u = Inr (f, c)" "\<not> fault e' ReadBody" for e' u f c
    using that run by (simp add: UploadFile_def Let_def os_create_def http_error_def)
  with run show ?thesis by simp
qed

text \<open>
  C6: a name with a parent-directory segment or a slash is answered 400 by all three
  routes that take a name from the client, before any file-system or table access.
\<close>

theorem unsafe_name_rejected:
  assumes "sublist ''..'' n \<or> CHR ''/'' \<in> set n"
  shows "((Method r1 = GET \<or> Method r1 = HEAD) \<and> query_name r1 = n
            \<longrightarrow> DownloadFile e r1 st = (http_error 400 ''Invalid filename'', st))
       \<and> (trim_prefix (url_path r2) ''/file/'' = n
            \<longrightarrow> PublicFileAccess e r2 st = (http_error 400 ''Invalid filename'', st))
       \<and> (Method r3 = DELETE \<and> json_filename r3 = Some n
            \<longrightarrow> DeleteFile e r3 st = (http_error 400 ''Invalid filename'', st))"
proof -
  have u: "unsafe_name n" using assms by (simp add: unsafe_name_iff)
  show ?thesis using u unsafe_name_nonempty [OF u]
    by (auto simp: DownloadFile_def PublicFileAccess_def DeleteFile_def Let_def)
qed

text \<open>
  C21: a fault-free listing answers a JSON array (never \<open>null\<close>, also for an empty
  table) holding every record once, newest first.
\<close>

theorem ListFiles_array:
  assumes "Method r = GET" and "\<not> fault e QueryAll"
  shows "\<exists>rs. ListFiles e r st =
            (\<lparr>status = 200, headers = [(''Content-Type'', ''application/json'')], body = ListJson (Some rs)\<rparr>, st)
          \<and> mset rs = mset (rows (dbase st))
          \<and> sorted_wrt (\<lambda>a b. UploadTime b \<le> UploadTime a) rs"
proof -
  obtain rs where rs: "GetAllFiles False (dbase st) = Inr (if rows (dbase st) = [] then None else Some rs)"
    "mset rs = mset (rows (dbase st))" "sorted_wrt (\<lambda>a b. UploadTime b \<le> UploadTime a) rs"
    using GetAllFiles_listing by blast
  show ?thesis
  proof (cases "rows (dbase st) = []")
    case True
    with rs assms show ?thesis by (intro exI [of _ "[]"]) (simp add: ListFiles_def)
  next
    case False
    with rs assms show ?thesis by (intro exI [of _ rs]) (simp add: ListFiles_def)
  qed
qed

end
