(* ===== verification/Middleware.thy ===== *)
theory Middleware
  imports Handlers
begin

text \<open>
  The access gate, \<open>src/internal/middleware/middleware.go\<close>: \<open>APIKeyMiddleware\<close>
  and \<open>CORSMiddleware\<close>. A Go \<open>http.HandlerFunc\<close> is a \<open>handler\<close> here, the
  shape every handler of \<open>Handlers\<close> has: a function of the environment, the request
  and the server state to the response and the next state. A middleware is a function
  from handler to handler. \<open>r.Header.Get("X-API-Key")\<close> is the request field
  \<open>api_key_header\<close> (the empty string when the header is absent).
\<close>

type_synonym handler = "env \<Rightarrow> request \<Rightarrow> server_state \<Rightarrow> response \<times> server_state"

text \<open>\<open>APIKeyMiddleware\<close> (lines 7--16).\<close>

definition APIKeyMiddleware :: "string \<Rightarrow> handler \<Rightarrow> handler" where
  "APIKeyMiddleware apiKey next e r st =
     (let key = api_key_header r in
      if key \<noteq> apiKey \<or> key = [] then (http_error 401 ''Access denied. Invalid or missing API Key.'', st)
      else next e r st)"

definition cors_headers :: "(string \<times> string) list" where
  "cors_headers =
     [(''Access-Control-Allow-Origin'', ''*''),
      (''Access-Control-Allow-Methods'', ''GET, POST, PUT, DELETE, OPTIONS''),
      (''Access-Control-Allow-Headers'', ''Content-Type, X-API-Key'')]"

text \<open>
  \<open>CORSMiddleware\<close> (lines 18--31): the three headers are set before the wrapped
  handler runs, so they are part of every response it writes (\<open>http.Error\<close> keeps
  them); a preflight \<open>OPTIONS\<close> is answered 200 with no body.
\<close>

definition CORSMiddleware :: "handler \<Rightarrow> handler" where
  "CORSMiddleware next e r st =
     (if Method r = OPTIONS then (\<lparr>status = 200, headers = cors_headers, body = NoBody\<rparr>, st)
      else let (resp, st') = next e r st in (resp\<lparr>headers := cors_headers @ headers resp\<rparr>, st'))"

section \<open>Effects on the state\<close>

text \<open>A handler is read-only when it never changes the state.\<close>

definition read_only :: "handler \<Rightarrow> bool" where
  "read_only h \<longleftrightarrow> (\<forall>e r st. snd (h e r st) = st)"

lemma APIKeyMiddleware_state:
  "snd (APIKeyMiddleware k h e r st) = st \<or> snd (APIKeyMiddleware k h e r st) = snd (h e r st)"
  by (simp add: APIKeyMiddleware_def Let_def)

lemma CORSMiddleware_state:
  "snd (CORSMiddleware h e r st) = st \<or> snd (CORSMiddleware h e r st) = snd (h e r st)"
  by (simp add: CORSMiddleware_def split: prod.splits)

lemma gate_state:
  "snd (CORSMiddleware (APIKeyMiddleware k h) e r st) = st
   \<or> snd (CORSMiddleware (APIKeyMiddleware k h) e r st) = snd (h e r st)"
  using CORSMiddleware_state [of "APIKeyMiddleware k h" e r st] APIKeyMiddleware_state [of k h e r st]
  by auto

lemma ListFiles_read_only: "read_only ListFiles"
  by (auto simp: read_only_def ListFiles_def Let_def split: sum.splits)

lemma DownloadFile_read_only: "read_only DownloadFile"
  by (auto simp: read_only_def DownloadFile_def Let_def split: sum.splits)

lemma PublicFileAccess_read_only: "read_only PublicFileAccess"
  by (auto simp: read_only_def PublicFileAccess_def Let_def split: sum.splits)

lemma read_only_gate: "read_only h \<Longrightarrow> read_only (CORSMiddleware h)"
  "read_only h \<Longrightarrow> read_only (APIKeyMiddleware k h)"
  by (auto simp: read_only_def CORSMiddleware_def APIKeyMiddleware_def Let_def split: prod.splits)
     (metis snd_conv)

section \<open>What the gate answers\<close>

lemma gate_denied:
  "Method r \<noteq> OPTIONS \<Longrightarrow> api_key_header r \<noteq> k \<or> api_key_header r = [] \<Longrightarrow>
   CORSMiddleware (APIKeyMiddleware k h) e r st =
     ((http_error 401 ''Access denied. Invalid or missing API Key.'')\<lparr>headers :=
        cors_headers @ headers (http_error 401 ''Access denied. Invalid or missing API Key.'')\<rparr>, st)"
  by (auto simp: CORSMiddleware_def APIKeyMiddleware_def)

lemma gate_admitted:
  "Method r \<noteq> OPTIONS \<Longrightarrow> api_key_header r = k \<Longrightarrow> k \<noteq> [] \<Longrightarrow>
   CORSMiddleware (APIKeyMiddleware k h) e r st =
     (let (resp, st') = h e r st in (resp\<lparr>headers := cors_headers @ headers resp\<rparr>, st'))"
  by (simp add: CORSMiddleware_def APIKeyMiddleware_def)

lemma CORS_preflight:
  "Method r = OPTIONS \<Longrightarrow> CORSMiddleware h e r st = (\<lparr>status = 200, headers = cors_headers, body = NoBody\<rparr>, st)"
  by (simp add: CORSMiddleware_def)

end
