(* ===== verification/Config.thy ===== *)
theory Config
  imports Naming
begin

text \<open>
  The configuration, \<open>src/internal/config/config.go\<close>: the \<open>Config\<close> struct, its
  \<open>ServerAddr\<close> method and \<open>LoadConfig\<close>. Reading the file (\<open>os.ReadFile\<close>) and
  decoding it (\<open>json.Unmarshal\<close> into the zero \<open>Config\<close>) are library calls: the
  first is an input (\<open>None\<close> when the read fails), the second a parameter
  \<open>unmarshal\<close> giving the decoded struct or \<open>None\<close> on a syntax or type error.
  What the repository's code adds, the defaults of spec section 6, is modelled as written.
  Go's \<open>int\<close> port is an unbounded \<open>int\<close> here: \<open>LoadConfig\<close> does no
  arithmetic on it.
\<close>

record Config =
  APIKey :: string
  UIUsername :: string
  UIPasswordHash :: string
  DataDir :: string
  DBPath :: string
  Port :: int

datatype config_error = ErrReadConfig | ErrParseConfig

text \<open>\<open>ServerAddr\<close> (lines 18--20): \<open>fmt.Sprintf(":%d", c.Port)\<close>.\<close>

definition ServerAddr :: "Config \<Rightarrow> string" where
  "ServerAddr c = CHR '':'' # fmt_int (Port c)"

text \<open>The three default assignments of \<open>LoadConfig\<close> (lines 33--42), in their order.\<close>

definition with_defaults :: "Config \<Rightarrow> Config" where
  "with_defaults config =
     (let config = (if DataDir config = [] then config\<lparr>DataDir := ''data''\<rparr> else config);
          config = (if DBPath config = [] then config\<lparr>DBPath := ''uploads.db''\<rparr> else config) in
      if Port config = 0 then config\<lparr>Port := 8080\<rparr> else config)"

definition LoadConfig :: "bytes option \<Rightarrow> (bytes \<Rightarrow> Config option) \<Rightarrow> config_error + Config" where
  "LoadConfig readResult unmarshal =
     (case readResult of
        None \<Rightarrow> Inl ErrReadConfig
      | Some data \<Rightarrow>
          (case unmarshal data of
             None \<Rightarrow> Inl ErrParseConfig
           | Some config \<Rightarrow> Inr (with_defaults config)))"

section \<open>Properties\<close>

lemma with_defaults_fields [simp]:
  "APIKey (with_defaults c) = APIKey c"
  "UIUsername (with_defaults c) = UIUsername c"
  "UIPasswordHash (with_defaults c) = UIPasswordHash c"
  "DataDir (with_defaults c) = (if DataDir c = [] then ''data'' else DataDir c)"
  "DBPath (with_defaults c) = (if DBPath c = [] then ''uploads.db'' else DBPath c)"
  "Port (with_defaults c) = (if Port c = 0 then 8080 else Port c)"
  by (simp_all add: with_defaults_def Let_def)

lemma with_defaults_ext: "Config.more (with_defaults c) = Config.more c"
  by (simp add: with_defaults_def Let_def)

lemma LoadConfig_Inr:
  "LoadConfig rd u = Inr c \<longleftrightarrow> (\<exists>data c0. rd = Some data \<and> u data = Some c0 \<and> c = with_defaults c0)"
  by (auto simp: LoadConfig_def split: option.splits)

text \<open>
  C29: a configuration that loads always names a data directory and a database file
  and a fixed port (never the ephemeral port 0); loading again changes nothing, and
  every field the file sets is kept.
\<close>

theorem LoadConfig_defaults:
  assumes "u data = Some c0" and "LoadConfig (Some data) u = Inr c"
  shows "DataDir c \<noteq> [] \<and> DBPath c \<noteq> [] \<and> Port c \<noteq> 0 \<and> with_defaults c = c
       \<and> APIKey c = APIKey c0 \<and> UIUsername c = UIUsername c0 \<and> UIPasswordHash c = UIPasswordHash c0
       \<and> (DataDir c0 \<noteq> [] \<longrightarrow> DataDir c = DataDir c0) \<and> (DBPath c0 \<noteq> [] \<longrightarrow> DBPath c = DBPath c0)
       \<and> (Port c0 \<noteq> 0 \<longrightarrow> Port c = Port c0)"
proof -
  from assms have c: "c = with_defaults c0" by (simp add: LoadConfig_Inr)
  have "with_defaults (with_defaults c0) = with_defaults c0"
    by (rule Config.equality) (simp_all add: with_defaults_ext)
  with c show ?thesis by simp
qed

text \<open>The listen address is a colon and the port in decimal, from which the port reads back.\<close>

theorem ServerAddr_roundtrip:
  "hd (ServerAddr c) = CHR '':'' \<and> read_int (tl (ServerAddr c)) = Port c"
  by (simp add: ServerAddr_def read_fmt_int)

text \<open>Loading fails exactly when the file cannot be read or does not decode, with that error.\<close>

theorem LoadConfig_errors:
  "LoadConfig None u = Inl ErrReadConfig
   \<and> (u data = None \<longleftrightarrow> LoadConfig (Some data) u = Inl ErrParseConfig)
   \<and> (\<forall>e. LoadConfig rd u = Inl e \<longleftrightarrow> rd = None \<and> e = ErrReadConfig
                                     \<or> (\<exists>data. rd = Some data \<and> u data = None \<and> e = ErrParseConfig))"
  by (auto simp: LoadConfig_def split: option.splits)

end
