(* ===== verification/Login.thy ===== *)
theory Login
  imports Handlers Config
begin

unbundle bit_operations_syntax

text \<open>
  The login handler, \<open>Handler.Login\<close> (\<open>src/internal/handlers/handlers.go\<close> lines
  28--61): the submitted password is hashed with MD5, hex-encoded with
  \<open>hex.EncodeToString\<close> and compared as a string with the configured hash. MD5
  (\<open>crypto/md5\<close>) is a library function and a parameter \<open>md5\<close> of the model;
  \<open>hex.EncodeToString\<close> is modelled from the library's table algorithm on bytes
  (\<open>8 word\<close>), and \<open>hex_decode\<close> (Go's \<open>hex.DecodeString\<close>, which also accepts
  upper-case digits) states its round trip. The theorems characterise when a login
  returns the API key.
\<close>

section \<open>hex.EncodeToString\<close>

definition hextable :: string where
  "hextable = ''0123456789abcdef''"

text \<open>\<open>dst[j] = hextable[v>>4]; dst[j+1] = hextable[v&0x0f]\<close> for every byte \<open>v\<close>.\<close>

definition hex_encode :: "bytes \<Rightarrow> string" where
  "hex_encode src = concat (map (\<lambda>v. [hextable ! unat (drop_bit 4 v), hextable ! unat (v AND 0x0F)]) src)"

definition from_hex_char :: "char \<Rightarrow> nat option" where
  "from_hex_char c =
     (let n = of_char c :: nat in
      if 48 \<le> n \<and> n \<le> 57 then Some (n - 48)
      else if 97 \<le> n \<and> n \<le> 102 then Some (n - 87)
      else if 65 \<le> n \<and> n \<le> 70 then Some (n - 55)
      else None)"

fun hex_decode :: "string \<Rightarrow> bytes option" where
  "hex_decode [] = Some []"
| "hex_decode [_] = None"
| "hex_decode (a # b # s) =
     (case (from_hex_char a, from_hex_char b, hex_decode s) of
        (Some x, Some y, Some r) \<Rightarrow> Some (word_of_nat (16 * x + y) # r)
      | _ \<Rightarrow> None)"

text \<open>\<open>[]byte(s)\<close>: a Go string is its sequence of bytes.\<close>

definition string_bytes :: "string \<Rightarrow> bytes" where
  "string_bytes s = map (\<lambda>c. of_nat (of_char c)) s"

section \<open>The handler\<close>

definition Login :: "(bytes \<Rightarrow> bytes) \<Rightarrow> Config \<Rightarrow> env \<Rightarrow> request \<Rightarrow> server_state \<Rightarrow> response \<times> server_state" where
  "Login md5 config e r st =
     (if Method r \<noteq> POST then (http_error 405 ''Method not allowed'', st)
      else case json_creds r of
        None \<Rightarrow> (http_error 400 ''Invalid request'', st)
      | Some (username, password) \<Rightarrow>
          let submittedHash = hex_encode (md5 (string_bytes password)) in
          if username = UIUsername config \<and> submittedHash = UIPasswordHash config then
            (\<lparr>status = 200, headers = [(''Content-Type'', ''application/json'')],
              body = LoginJson ''success'' (APIKey config)\<rparr>, st)
          else (http_error 401 ''Invalid credentials'', st))"

section \<open>Nibbles\<close>

lemma unat_hi: "unat (drop_bit 4 (v :: 8 word)) = unat v div 16"
  by (simp add: unat_drop_bit_eq drop_bit_eq_div unat_div)

lemma and_0F_mod: "(v :: 8 word) AND 0x0F = v mod 16"
proof -
  have "v AND 0x0F = take_bit 4 v" by (simp add: take_bit_eq_mask mask_eq_exp_minus_1)
  then show ?thesis by (simp add: take_bit_eq_mod)
qed

lemma unat_lo: "unat ((v :: 8 word) AND 0x0F) = unat v mod 16"
  unfolding and_0F_mod by (simp add: unat_mod)

lemma unat_byte_lt: "unat (v :: 8 word) < 256"
  using unsigned_less [of v] by simp

lemma less_16_cases: "(n :: nat) < 16 \<Longrightarrow> n \<in> {0,1,2,3,4,5,6,7,8,9,10,11,12,13,14,15}"
  by (simp add: less_Suc_eq numeral_eq_Suc)

lemma from_hex_hextable: "n < 16 \<Longrightarrow> from_hex_char (hextable ! n) = Some n"
  by (drule less_16_cases) (auto simp: from_hex_char_def hextable_def)

lemma hextable_from_hex:
  "c \<in> set hextable \<Longrightarrow> from_hex_char c = Some n \<Longrightarrow> n < 16 \<and> hextable ! n = c"
  by (auto simp: hextable_def from_hex_char_def)

section \<open>Round trips of the encoding\<close>

lemma hex_encode_Cons:
  "hex_encode (v # bs) = hextable ! (unat v div 16) # hextable ! (unat v mod 16) # hex_encode bs"
  by (simp add: hex_encode_def unat_hi unat_lo)

lemma hextable_nth: "n < 16 \<Longrightarrow> hextable ! n \<in> set hextable"
  by (rule nth_mem) (simp add: hextable_def)

lemma hex_encode_chars: "set (hex_encode bs) \<subseteq> set hextable"
proof (induction bs)
  case (Cons v bs)
  have "unat v div 16 < 16" using unat_byte_lt [of v] by simp
  then show ?case using Cons by (simp add: hex_encode_Cons hextable_nth)
qed (simp add: hex_encode_def)

lemma hex_decode_encode: "hex_decode (hex_encode bs) = Some bs"
proof (induction bs)
  case (Cons v bs)
  have "unat v div 16 < 16" using unat_byte_lt [of v] by simp
  then show ?case using Cons by (simp add: hex_encode_Cons from_hex_hextable del: of_nat_add)
qed (simp add: hex_encode_def)

lemma hex_encode_decode:
  "set h \<subseteq> set hextable \<Longrightarrow> hex_decode h = Some d \<Longrightarrow> hex_encode d = h"
proof (induction h arbitrary: d rule: hex_decode.induct)
  case (3 a b s)
  then obtain x y r where xy: "from_hex_char a = Some x" "from_hex_char b = Some y" "hex_decode s = Some r"
    and d: "d = word_of_nat (16 * x + y) # r"
    by (auto split: option.splits)
  from hextable_from_hex [OF _ xy(1)] hextable_from_hex [OF _ xy(2)] 3(2)
  have x: "x < 16" "hextable ! x = a" and y: "y < 16" "hextable ! y = b" by auto
  then have "unat (word_of_nat (16 * x + y) :: 8 word) = 16 * x + y"
    by (simp only: unat_of_nat) simp
  with x y 3 xy d show ?case by (simp add: hex_encode_Cons del: of_nat_add of_nat_mult)
qed (simp_all add: hex_encode_def)

lemma hash_compare:
  assumes "set h \<subseteq> set hextable" and "hex_decode h = Some d"
  shows "hex_encode x = h \<longleftrightarrow> x = d"
proof
  assume "hex_encode x = h"
  then have "hex_decode h = Some x" by (metis hex_decode_encode)
  with assms(2) show "x = d" by simp
next
  assume "x = d"
  with hex_encode_decode [OF assms] show "hex_encode x = h" by simp
qed

lemma Login_state: "snd (Login md5 config e r st) = st"
  by (cases "json_creds r") (auto simp: Login_def Let_def)

lemma Login_ok:
  "status (fst (Login md5 config e r st)) = 200 \<longleftrightarrow>
     Method r = POST \<and> (\<exists>p. json_creds r = Some (UIUsername config, p)
                              \<and> hex_encode (md5 (string_bytes p)) = UIPasswordHash config)"
  by (auto simp: Login_def Let_def http_error_def split: option.splits prod.splits)

lemma Login_body:
  "status (fst (Login md5 config e r st)) = 200 \<Longrightarrow>
     body (fst (Login md5 config e r st)) = LoginJson ''success'' (APIKey config)"
  by (auto simp: Login_def Let_def http_error_def split: option.splits prod.splits if_splits)

section \<open>Properties\<close>

text \<open>
  C26: with a configured hash in lower-case hex, a login answers 200, and then with the
  API key, exactly for a \<open>POST\<close> that names the configured user with a password whose
  MD5 digest is the digest the configured hash encodes; a login never changes the state.
\<close>

theorem Login_grants_key:
  assumes "set (UIPasswordHash config) \<subseteq> set hextable" and "hex_decode (UIPasswordHash config) = Some d"
  shows "(status (fst (Login md5 config e r st)) = 200 \<longleftrightarrow>
            Method r = POST \<and> (\<exists>p. json_creds r = Some (UIUsername config, p) \<and> md5 (string_bytes p) = d))
       \<and> (status (fst (Login md5 config e r st)) = 200 \<longrightarrow>
            body (fst (Login md5 config e r st)) = LoginJson ''success'' (APIKey config))
       \<and> snd (Login md5 config e r st) = st"
  using hash_compare [OF assms] by (simp add: Login_ok Login_body Login_state)

text \<open>
  C27: the comparison is of hex strings, not of digests: a configured hash with any
  character outside the lower-case table (for instance the upper-case hex some tools
  print, which \<open>hex.DecodeString\<close> accepts) admits no login at all.
\<close>

theorem Login_case_sensitive_hash:
  assumes "\<not> set (UIPasswordHash config) \<subseteq> set hextable"
  shows "status (fst (Login md5 config e r st)) \<noteq> 200"
proof
  assume "status (fst (Login md5 config e r st)) = 200"
  then obtain p where "hex_encode (md5 (string_bytes p)) = UIPasswordHash config"
    by (auto simp: Login_ok)
  with hex_encode_chars [of "md5 (string_bytes p)"] assms show False by simp
qed

end
