(* ===== verification/Router.thy ===== *)
theory Router
  imports Middleware Login Config
begin

text \<open>
  The server, \<open>src/cmd/server/main.go\<close>: start-up (\<open>LoadConfig\<close>, \<open>NewDB\<close>,
  \<open>os.MkdirAll\<close> of the data directory) and the route table registered on the
  default \<open>http.ServeMux\<close>, each protected route wrapped in
  \<open>CORSMiddleware(APIKeyMiddleware(cfg.APIKey, \<dots>))\<close>. The mux itself is library
  code, modelled from \<open>net/http\<close>: it cleans the request path (\<open>cleanPath\<close>,
  \<open>path.Clean\<close>) and redirects when cleaning changes it, redirects \<open>/file\<close> to the
  registered subtree \<open>/file/\<close>, and otherwise picks the longest matching pattern.
  The static file server of \<open>/\<close> is a parameter \<open>static\<close> (the assets are not part of
  the model), as is MD5.

  A server step is one request handled to completion (\<open>ServeHTTP\<close>); \<open>reach\<close> is the
  set of states a server started on a fresh data directory and database can reach by a
  sequence of steps, and the theorems show which of them keep the twin-existence
  invariant.
\<close>

section \<open>Path cleaning (net/http and path)\<close>

text \<open>The elements of a slash-separated path (\<open>strings.Split(p, "/")\<close>).\<close>

definition split_path :: "string \<Rightarrow> string list" where
  "split_path s = foldr (\<lambda>c acc. if c = CHR ''/'' then [] # acc else (c # hd acc) # tl acc) s [[]]"

text \<open>
  \<open>path.Clean\<close> on a rooted path: empty and \<open>.\<close> elements are dropped, \<open>..\<close>
  removes the element before it and is dropped at the root.
\<close>

fun clean_segs :: "string list \<Rightarrow> string list \<Rightarrow> string list" where
  "clean_segs [] st = rev st"
| "clean_segs (s # ss) st =
     (if s = [] \<or> s = ''.'' then clean_segs ss st
      else if s = ''..'' then clean_segs ss (tl st)
      else clean_segs ss (s # st))"

text \<open>\<open>strings.Join(elems, "/")\<close>.\<close>

fun join_path :: "string list \<Rightarrow> string" where
  "join_path [] = []"
| "join_path [s] = s"
| "join_path (s # ss) = s @ CHR ''/'' # join_path ss"

definition path_Clean :: "string \<Rightarrow> string" where
  "path_Clean p = CHR ''/'' # join_path (clean_segs (split_path p) [])"

text \<open>\<open>cleanPath\<close> of \<open>net/http\<close>: a trailing slash is kept.\<close>

definition cleanPath :: "string \<Rightarrow> string" where
  "cleanPath p =
     (if p = [] then ''/''
      else let p = (if hd p \<noteq> CHR ''/'' then CHR ''/'' # p else p);
               np = path_Clean p in
           if last p = CHR ''/'' \<and> np \<noteq> ''/'' then np @ ''/'' else np)"

section \<open>The route table (main.go lines 33--43)\<close>

datatype route = RUpload | RList | RDownload | RDelete | RLogin | RPublic | RStatic

text \<open>The longest registered pattern that matches a clean path.\<close>

definition mux_match :: "string \<Rightarrow> route" where
  "mux_match p =
     (if p = ''/api/upload'' then RUpload
      else if p = ''/api/list'' then RList
      else if p = ''/api/download'' then RDownload
      else if p = ''/api/delete'' then RDelete
      else if p = ''/api/login'' then RLogin
      else if prefix ''/file/'' p then RPublic
      else RStatic)"

definition ServeHTTP ::
  "(bytes \<Rightarrow> bytes) \<Rightarrow> Config \<Rightarrow> (http_method \<Rightarrow> string \<Rightarrow> response) \<Rightarrow> handler" where
  "ServeHTTP md5 cfg static e r st =
     (let path = cleanPath (url_path r) in
      if path = ''/file'' then (local_redirect ''/file/'', st)
      else if path \<noteq> url_path r then (local_redirect path, st)
      else case mux_match path of
        RUpload \<Rightarrow> CORSMiddleware (APIKeyMiddleware (APIKey cfg) UploadFile) e r st
      | RList \<Rightarrow> CORSMiddleware (APIKeyMiddleware (APIKey cfg) ListFiles) e r st
      | RDownload \<Rightarrow> CORSMiddleware (APIKeyMiddleware (APIKey cfg) DownloadFile) e r st
      | RDelete \<Rightarrow> CORSMiddleware (APIKeyMiddleware (APIKey cfg) DeleteFile) e r st
      | RLogin \<Rightarrow> CORSMiddleware (Login md5 cfg) e r st
      | RPublic \<Rightarrow> PublicFileAccess e r st
      | RStatic \<Rightarrow> (static (Method r) path, st))"

section \<open>Start-up (main.go lines 15--53)\<close>

text \<open>\<open>os.MkdirAll\<close> of the data directory: nothing to do when it exists.\<close>

definition os_mkdir_all :: "bool \<Rightarrow> byte_store \<Rightarrow> fs_error + byte_store" where
  "os_mkdir_all mkdirFault bs =
     (if mkdirFault then Inl EIO else if dir_exists bs then Inr bs else Inr (bs\<lparr>dir_exists := True\<rparr>))"

text \<open>
  \<open>main\<close> up to \<open>ListenAndServe\<close>: each \<open>log.Fatalf\<close> is an \<open>Inl\<close> with its message;
  the routes are the fixed function \<open>ServeHTTP\<close> of the configuration.
\<close>

definition main_startup ::
  "bytes option \<Rightarrow> (bytes \<Rightarrow> Config option) \<Rightarrow> bool \<Rightarrow> DB option \<Rightarrow> bool \<Rightarrow> byte_store
   \<Rightarrow> string + Config \<times> server_state" where
  "main_startup cfgFile unmarshal dbFault existingDb mkdirFault disk =
     (case LoadConfig cfgFile unmarshal of
        Inl _ \<Rightarrow> Inl ''Failed to load config''
      | Inr cfg \<Rightarrow>
          (case NewDB dbFault existingDb of
             Inl _ \<Rightarrow> Inl ''Failed to initialize database''
           | Inr db \<Rightarrow>
               (case os_mkdir_all mkdirFault disk of
                  Inl _ \<Rightarrow> Inl ''Failed to create data directory''
                | Inr disk' \<Rightarrow> Inr (cfg, \<lparr>fsys = disk', dbase = db\<rparr>))))"

section \<open>Runs of the server\<close>

text \<open>
  A step is benign when its metadata delete does not fail and an upload it carries
  gets a name not yet recorded (the two hypotheses of the handler invariants).
\<close>

definition benign :: "env \<Rightarrow> request \<Rightarrow> server_state \<Rightarrow> bool" where
  "benign e r st \<longleftrightarrow> \<not> fault e DeleteRowCall \<and>
     (case form_file r of Inl _ \<Rightarrow> True
      | Inr (f, c) \<Rightarrow> new_filename (clock e) f \<notin> set (map StoredName (rows (dbase st))))"

inductive reach :: "(bytes \<Rightarrow> bytes) \<Rightarrow> (http_method \<Rightarrow> string \<Rightarrow> response) \<Rightarrow> Config \<Rightarrow> server_state \<Rightarrow> bool"
  for md5 static where
  boot: "main_startup cfgFile unmarshal False None False disk = Inr (cfg, st) \<Longrightarrow>
         store_wf disk \<Longrightarrow> Mapping.is_empty (files disk) \<Longrightarrow> reach md5 static cfg st"
| step: "reach md5 static cfg st \<Longrightarrow> benign e r st \<Longrightarrow>
         reach md5 static cfg (snd (ServeHTTP md5 cfg static e r st))"

inductive_cases reach_cases: "reach md5 static cfg st"


section \<open>Lemmas\<close>

lemma UploadFile_no_file: "form_file r = Inl err \<Longrightarrow> snd (UploadFile e r st) = st"
  by (simp add: UploadFile_def)

lemma ServeHTTP_state:
  "snd (ServeHTTP md5 cfg static e r st) = st
   \<or> snd (ServeHTTP md5 cfg static e r st) = snd (UploadFile e r st)
   \<or> snd (ServeHTTP md5 cfg static e r st) = snd (DeleteFile e r st)"
proof -
  have ro: "snd (h e r st) = st" if "read_only h" for h :: handler
    using that by (simp add: read_only_def)
  have login: "snd (CORSMiddleware (Login md5 cfg) e r st) = st"
    using CORSMiddleware_state [of "Login md5 cfg" e r st] by (auto simp: Login_state)
  show ?thesis
    using gate_state [of "APIKey cfg" UploadFile e r st] gate_state [of "APIKey cfg" DeleteFile e r st]
      ro [OF read_only_gate(1) [OF read_only_gate(2) [OF ListFiles_read_only]]]
      ro [OF read_only_gate(1) [OF read_only_gate(2) [OF DownloadFile_read_only]]]
      ro [OF PublicFileAccess_read_only] login
    by (auto simp: ServeHTTP_def Let_def split: route.splits)
qed

lemma main_startup_fresh:
  assumes "main_startup cfgFile unmarshal False None False disk = Inr (cfg, st)"
    and "store_wf disk" and "Mapping.is_empty (files disk)"
  shows "state_wf st \<and> dir_exists (fsys st) \<and> dbase st = empty_db"
  using assms
  by (auto simp: main_startup_def NewDB_def os_mkdir_all_def state_wf_def store_wf_def twin_inv_def empty_db_def db_wf_def
      split: sum.splits if_splits)

lemma benign_upload:
  "benign e r st \<Longrightarrow> state_wf st \<Longrightarrow> state_wf (snd (UploadFile e r st))"
  by (cases "form_file r")
     (auto simp: benign_def UploadFile_no_file intro: UploadFile_wf_step)

text \<open>
  C7: every state of a server started on an empty data directory and a new database,
  after any sequence of benign requests (no failing metadata delete, no upload whose
  generated name is already recorded), is well formed: spec I1 and I2 hold.
\<close>

theorem reach_state_wf: "reach md5 static cfg st \<Longrightarrow> state_wf st"
proof (induction rule: reach.induct)
  case (boot cfgFile unmarshal disk cfg st)
  then show ?case using main_startup_fresh by blast
next
  case (step cfg st e r)
  then have "\<not> fault e DeleteRowCall" by (simp add: benign_def)
  with step ServeHTTP_state [of md5 cfg static e r st] show ?case
    by (auto intro: DeleteFile_wf_step benign_upload)
qed

lemma cleanPath_api [simp]:
  "cleanPath ''/api/upload'' = ''/api/upload''" "cleanPath ''/api/list'' = ''/api/list''"
  "cleanPath ''/api/download'' = ''/api/download''" "cleanPath ''/api/delete'' = ''/api/delete''"
  "cleanPath ''/api/login'' = ''/api/login''"
  by (simp_all add: cleanPath_def path_Clean_def split_path_def)


section \<open>Properties of the route table\<close>

text \<open>
  C15: auth gating (spec section 8): a request to a protected route that is not a
  preflight and carries no key, or a key other than the configured one, is answered
  401 (with the CORS headers) and changes nothing.
\<close>

theorem auth_gating:
  assumes "url_path r \<in> {''/api/upload'', ''/api/list'', ''/api/download'', ''/api/delete''}"
    and "Method r \<noteq> OPTIONS" and "api_key_header r \<noteq> APIKey cfg \<or> api_key_header r = []"
  shows "ServeHTTP md5 cfg static e r st =
           ((http_error 401 ''Access denied. Invalid or missing API Key.'')\<lparr>headers :=
              cors_headers @ headers (http_error 401 ''Access denied. Invalid or missing API Key.'')\<rparr>, st)"
  using assms gate_denied [OF assms(2,3)] by (auto simp: ServeHTTP_def mux_match_def)

text \<open>
  C19: the login route, the public route and every other unprotected path never look at
  the key: the answer and the next state are the same whatever key the request carries.
\<close>

theorem keyless_routes:
  assumes "url_path r \<notin> {''/api/upload'', ''/api/list'', ''/api/download'', ''/api/delete''}"
  shows "ServeHTTP md5 cfg static e (r\<lparr>api_key_header := k\<rparr>) st = ServeHTTP md5 cfg static e r st"
  using assms
  by (auto simp: ServeHTTP_def mux_match_def Let_def CORSMiddleware_def Login_def PublicFileAccess_def
      head_or_serve_def split: option.splits prod.splits sum.splits)

text \<open>
  C28: a preflight \<open>OPTIONS\<close> on any route wrapped by the gate is answered 200 with the
  CORS headers and no body, without a key and without touching the state.
\<close>

theorem preflight:
  assumes "url_path r \<in> {''/api/upload'', ''/api/list'', ''/api/download'', ''/api/delete'', ''/api/login''}"
    and "Method r = OPTIONS"
  shows "ServeHTTP md5 cfg static e r st = (\<lparr>status = 200, headers = cors_headers, body = NoBody\<rparr>, st)"
  using assms CORS_preflight [OF assms(2)] by (auto simp: ServeHTTP_def mux_match_def)

text \<open>
  C24: the public route has no method check: any request under \<open>/file/\<close> other than
  \<open>HEAD\<close> (a \<open>POST\<close>, \<open>PUT\<close>, \<open>DELETE\<close> or \<open>OPTIONS\<close> included) is answered exactly
  as the same request with \<open>GET\<close>, while the spec lists only \<open>GET\<close> and \<open>HEAD\<close>.
\<close>

theorem public_any_method:
  assumes "prefix ''/file/'' (url_path r)" and "Method r \<noteq> HEAD"
  shows "ServeHTTP md5 cfg static e r st = ServeHTTP md5 cfg static e (r\<lparr>Method := GET\<rparr>) st"
proof -
  have "mux_match (url_path r) = RPublic" using assms(1) by (auto simp: mux_match_def)
  then show ?thesis using assms(2)
    by (auto simp: ServeHTTP_def Let_def PublicFileAccess_def head_or_serve_def split: sum.splits)
qed

end
