(* ===== verification/Concurrency.thy ===== *)
theory Concurrency
  imports Handlers
begin

text \<open>
  Concurrent uploads (spec section 5). Go's HTTP server runs every request on its own
  goroutine, so the I/O calls of two \<open>UploadFile\<close> requests interleave. Here an upload
  is a thread whose atomic steps are its calls on shared state: \<open>os.Create\<close>,
  \<open>dst.Write\<close>, \<open>InsertFile\<close> and the rollback \<open>os.Remove\<close>
  (\<open>src/internal/handlers/handlers.go\<close> lines 94--114); a program counter records
  where it stands. The database serialises its own statements, so each is one step.

  The directory needs a finer model than \<open>ByteStore\<close>: \<open>os.Create\<close> returns a
  descriptor of the file's inode, a second \<open>os.Create\<close> of the same name truncates that
  same inode, \<open>Write\<close> writes at offset 0 of its descriptor's inode, and \<open>os.Remove\<close>
  unlinks the name while open descriptors keep the inode. So the store maps names to
  inode numbers and inode numbers to contents, beside the directory's existence and the
  size \<open>os.Stat\<close> reports for it; \<open>ifile\<close> reads a name through both.
\<close>

section \<open>A directory with inodes\<close>

record istore =
  idir :: bool
  idir_size :: nat
  names :: "string \<rightharpoonup> nat"
  inodes :: "nat \<rightharpoonup> bytes"
  next_ino :: nat

definition ifile :: "istore \<Rightarrow> string \<Rightarrow> bytes option" where
  "ifile cs n = (if idir cs then (case names cs n of None \<Rightarrow> None | Some i \<Rightarrow> inodes cs i) else None)"

text \<open>\<open>os.Create\<close> (\<open>O_CREATE|O_TRUNC\<close>): truncate the name's inode, or link a new one.\<close>

definition i_create :: "bool \<Rightarrow> istore \<Rightarrow> string \<Rightarrow> fs_error + nat \<times> istore" where
  "i_create ioFault cs n =
     (if ioFault then Inl EIO
      else if \<not> idir cs then Inl ENOENT
      else case names cs n of
        Some i \<Rightarrow> Inr (i, cs\<lparr>inodes := (inodes cs)(i \<mapsto> [])\<rparr>)
      | None \<Rightarrow> let i = next_ino cs in
          Inr (i, cs\<lparr>names := (names cs)(n \<mapsto> i), inodes := (inodes cs)(i \<mapsto> []), next_ino := Suc i\<rparr>))"

text \<open>\<open>Write\<close> at offset 0 of the descriptor: the bytes replace a prefix of the inode.\<close>

definition i_write :: "bool \<Rightarrow> istore \<Rightarrow> nat \<Rightarrow> bytes \<Rightarrow> fs_error + istore" where
  "i_write ioFault cs fd content =
     (if ioFault then Inl EIO
      else case inodes cs fd of
        None \<Rightarrow> Inl EIO
      | Some old \<Rightarrow> Inr (cs\<lparr>inodes := (inodes cs)(fd \<mapsto> content @ drop (length content) old)\<rparr>))"

text \<open>\<open>os.Remove\<close> of a file: unlink the name; the inode lives on for open descriptors.\<close>

definition i_remove :: "bool \<Rightarrow> istore \<Rightarrow> string \<Rightarrow> fs_error + istore" where
  "i_remove ioFault cs n =
     (if ioFault then Inl EIO
      else if \<not> idir cs then Inl ENOENT
      else case names cs n of
        None \<Rightarrow> Inl ENOENT
      | Some _ \<Rightarrow> Inr (cs\<lparr>names := (names cs)(n := None)\<rparr>))"

text \<open>
  Well-formedness: every linked name has a live inode below the allocation counter,
  no inode at or above it is live, and no two names share an inode (the directory has
  no hard links).
\<close>

definition iwf :: "istore \<Rightarrow> bool" where
  "iwf cs \<longleftrightarrow>
     (\<forall>n i. names cs n = Some i \<longrightarrow> i < next_ino cs \<and> inodes cs i \<noteq> None)
     \<and> (\<forall>i. next_ino cs \<le> i \<longrightarrow> inodes cs i = None)
     \<and> (\<forall>n m i. names cs n = Some i \<longrightarrow> names cs m = Some i \<longrightarrow> n = m)"

section \<open>Upload threads\<close>

datatype upc = UStart | UCreated nat | UWritten nat | URollback | UDone response

record uthread =
  tenv :: env
  treq :: request
  tpc :: upc

record cstate =
  cfs :: istore
  cdb :: DB

definition tname :: "uthread \<Rightarrow> string" where
  "tname t = (case form_file (treq t) of Inl _ \<Rightarrow> [] | Inr (f, _) \<Rightarrow> new_filename (clock (tenv t)) f)"

definition tcontent :: "uthread \<Rightarrow> bytes" where
  "tcontent t = (case form_file (treq t) of Inl _ \<Rightarrow> [] | Inr (_, c) \<Rightarrow> c)"

definition torig :: "uthread \<Rightarrow> string" where
  "torig t = (case form_file (treq t) of Inl _ \<Rightarrow> [] | Inr (f, _) \<Rightarrow> f)"

definition upload_created :: "request \<Rightarrow> string \<Rightarrow> response" where
  "upload_created r newFilename =
     \<lparr>status = 201, headers = [],
      body = UploadJson (''File '' @ [CHR 0x27] @ newFilename @ [CHR 0x27] @ '' successfully uploaded.'')
               newFilename (''https://'' @ host r @ ''/file/'' @ newFilename)\<rparr>"

text \<open>
  One step of a thread: the code of \<open>UploadFile\<close> from its program counter up to and
  including the next call on shared state.
\<close>

definition ustep :: "uthread \<Rightarrow> cstate \<Rightarrow> uthread \<times> cstate" where
  "ustep t s =
     (let e = tenv t; r = treq t; finish = (\<lambda>resp. t\<lparr>tpc := UDone resp\<rparr>) in
      case tpc t of
        UStart \<Rightarrow>
          (if Method r \<noteq> POST then (finish (http_error 405 ''Method not allowed''), s)
           else case form_file r of
             Inl err \<Rightarrow> (finish (http_error 400 (''Failed to get file: '' @ err)), s)
           | Inr (filename, fileBytes) \<Rightarrow>
               if fault e ReadBody then (finish (http_error 500 ''Failed to read file: ''), s)
               else case i_create (fault e CreateCall) (cfs s) (new_filename (clock e) filename) of
                 Inl _ \<Rightarrow> (finish (http_error 500 ''Failed to create file on server: ''), s)
               | Inr (fd, fs1) \<Rightarrow> (t\<lparr>tpc := UCreated fd\<rparr>, s\<lparr>cfs := fs1\<rparr>))
      | UCreated fd \<Rightarrow>
          (case i_write (fault e WriteCall) (cfs s) fd (tcontent t) of
             Inl _ \<Rightarrow> (finish (http_error 500 ''Failed to save file: ''), s)
           | Inr fs2 \<Rightarrow> (t\<lparr>tpc := UWritten fd\<rparr>, s\<lparr>cfs := fs2\<rparr>))
      | UWritten fd \<Rightarrow>
          (case InsertFile (fault e InsertCall) (db_clock e) (cdb s) (torig t) (tname t)
                  (int (length (tcontent t))) (remote_addr r) of
             Inr db' \<Rightarrow> (finish (upload_created r (tname t)), s\<lparr>cdb := db'\<rparr>)
           | Inl _ \<Rightarrow> (t\<lparr>tpc := URollback\<rparr>, s))
      | URollback \<Rightarrow>
          (finish (http_error 500 ''Failed to save file record to database: ''),
           case i_remove (fault e RollbackRemove) (cfs s) (tname t) of
             Inl _ \<Rightarrow> s
           | Inr fs3 \<Rightarrow> s\<lparr>cfs := fs3\<rparr>)
      | UDone _ \<Rightarrow> (t, s))"

primrec is_done :: "upc \<Rightarrow> bool" where
  "is_done UStart = False"
| "is_done (UCreated _) = False"
| "is_done (UWritten _) = False"
| "is_done URollback = False"
| "is_done (UDone _) = True"

section \<open>Interleavings\<close>

text \<open>The scheduler picks any thread that has not finished and runs one step of it.\<close>

inductive cstep :: "cstate \<times> uthread list \<Rightarrow> cstate \<times> uthread list \<Rightarrow> bool" where
  "i < length ts \<Longrightarrow> \<not> is_done (tpc (ts ! i)) \<Longrightarrow> ustep (ts ! i) s = (t', s') \<Longrightarrow>
   cstep (s, ts) (s', ts[i := t'])"

inductive_cases cstep_cases: "cstep (s, ts) (s', ts')"

text \<open>Running one thread alone for at most \<open>k\<close> steps.\<close>

section \<open>Store lemmas\<close>

lemma iwf_lt: "iwf cs \<Longrightarrow> names cs m = Some i \<Longrightarrow> i < next_ino cs"
  by (simp add: iwf_def)
lemma iwf_live: "iwf cs \<Longrightarrow> names cs m = Some i \<Longrightarrow> inodes cs i \<noteq> None"
  by (simp add: iwf_def)
lemma iwf_free: "iwf cs \<Longrightarrow> next_ino cs \<le> i \<Longrightarrow> inodes cs i = None"
  by (simp add: iwf_def)
lemma iwf_inj: "iwf cs \<Longrightarrow> names cs n = Some i \<Longrightarrow> names cs m = Some i \<Longrightarrow> n = m"
  by (simp add: iwf_def)

lemma i_create_Inr_cases:
  "i_create f cs n = Inr (fd, cs1) \<Longrightarrow> \<not> f \<and> idir cs \<and>
     (names cs n = Some fd \<and> cs1 = cs\<lparr>inodes := (inodes cs)(fd \<mapsto> [])\<rparr>
      \<or> names cs n = None \<and> fd = next_ino cs \<and>
        cs1 = cs\<lparr>names := (names cs)(n \<mapsto> fd), inodes := (inodes cs)(fd \<mapsto> []), next_ino := Suc fd\<rparr>)"
  by (auto simp: i_create_def Let_def split: if_splits option.splits)

lemma i_create_Inr:
  assumes "i_create f cs n = Inr (fd, cs1)" and wf: "iwf cs"
  shows "\<not> f \<and> idir cs \<and> iwf cs1 \<and> idir cs1 = idir cs \<and> names cs1 n = Some fd \<and> inodes cs1 fd = Some []
         \<and> (\<forall>m. m \<noteq> n \<longrightarrow> names cs1 m = names cs m)
         \<and> (\<forall>m j. names cs m = Some j \<longrightarrow> m \<noteq> n \<longrightarrow> j \<noteq> fd \<and> inodes cs1 j = inodes cs j)"
  using i_create_Inr_cases [OF assms(1)]
proof (elim conjE disjE)
  assume c: "names cs n = Some fd" "cs1 = cs\<lparr>inodes := (inodes cs)(fd \<mapsto> [])\<rparr>" "\<not> f" "idir cs"
  have "j \<noteq> fd" if "names cs m = Some j" "m \<noteq> n" for m j
    using that c(1) iwf_inj [OF wf] by blast
  moreover have "iwf cs1"
  proof -
    have lt: "fd < next_ino cs" using iwf_lt [OF wf c(1)] .
    have "\<forall>i. next_ino cs \<le> i \<longrightarrow> inodes cs1 i = None" using c lt iwf_free [OF wf] by auto
    then show ?thesis using c wf by (auto simp: iwf_def)
  qed
  ultimately show ?thesis using c by auto
next
  assume c: "names cs n = None" "fd = next_ino cs" "\<not> f" "idir cs"
    "cs1 = cs\<lparr>names := (names cs)(n \<mapsto> fd), inodes := (inodes cs)(fd \<mapsto> []), next_ino := Suc fd\<rparr>"
  have lt: "j \<noteq> fd" if "names cs m = Some j" for m j
    using iwf_lt [OF wf that] c(2) by simp
  have a: "\<forall>m i. names cs1 m = Some i \<longrightarrow> i < next_ino cs1 \<and> inodes cs1 i \<noteq> None"
  proof (intro allI impI)
    fix m i assume h: "names cs1 m = Some i"
    show "i < next_ino cs1 \<and> inodes cs1 i \<noteq> None"
    proof (cases "m = n")
      case False
      with h c have old: "names cs m = Some i" by auto
      have "i < next_ino cs" "inodes cs i \<noteq> None" "i \<noteq> fd"
        using iwf_lt [OF wf old] iwf_live [OF wf old] lt [OF old] by auto
      with c show ?thesis by auto
    qed (use h c in auto)
  qed
  have b: "\<forall>i. next_ino cs1 \<le> i \<longrightarrow> inodes cs1 i = None"
    using c iwf_free [OF wf] by auto
  have d: "\<forall>m m' i. names cs1 m = Some i \<longrightarrow> names cs1 m' = Some i \<longrightarrow> m = m'"
    using c lt iwf_inj [OF wf] by (auto split: if_splits)
  from a b d have "iwf cs1" by (simp add: iwf_def)
  then show ?thesis using c lt by auto
qed

lemma i_write_Inr:
  "i_write f cs fd c = Inr cs2 \<Longrightarrow>
     \<not> f \<and> (\<exists>old. inodes cs fd = Some old \<and> cs2 = cs\<lparr>inodes := (inodes cs)(fd \<mapsto> c @ drop (length c) old)\<rparr>)"
  by (auto simp: i_write_def split: if_splits option.splits)

lemma i_write_wf: "i_write f cs fd c = Inr cs2 \<Longrightarrow> iwf cs \<Longrightarrow> iwf cs2"
  by (drule i_write_Inr) (auto simp: iwf_def)

lemma i_remove_Inr:
  "i_remove f cs n = Inr cs3 \<Longrightarrow> \<not> f \<and> idir cs \<and> names cs n \<noteq> None \<and> cs3 = cs\<lparr>names := (names cs)(n := None)\<rparr>"
  by (auto simp: i_remove_def split: if_splits option.splits)

lemma i_remove_wf: "i_remove f cs n = Inr cs3 \<Longrightarrow> iwf cs \<Longrightarrow> iwf cs3"
  by (drule i_remove_Inr) (auto simp: iwf_def)

section \<open>Each call agrees with the name-to-bytes store\<close>

lemma thread_upd [simp]:
  "tname (t\<lparr>tpc := p\<rparr>) = tname t" "tcontent (t\<lparr>tpc := p\<rparr>) = tcontent t" "torig (t\<lparr>tpc := p\<rparr>) = torig t"
  by (simp_all add: tname_def tcontent_def torig_def split: sum.splits)

text \<open>
  The last two steps of an upload whose bytes are written: the insert, and on its failure
  the rollback, against the same part of \<open>UploadFile\<close>.
\<close>

text \<open>An upload whose file was created, against \<open>UploadFile\<close> from its write on.\<close>

end
