(* ===== verification/Interleaving.thy ===== *)
theory Interleaving
  imports Concurrency
begin

text \<open>
  Interleaved uploads: what holds of every run of \<open>cstep\<close>. The invariant \<open>cinv\<close>
  couples the shared state (inode store well formed, table well formed, every record
  naming a file of its size) with what each thread owns at its program counter. One
  step of any thread preserves it as long as the threads' stored names are distinct, so
  uploads with distinct names never break the twin invariant however they interleave.
  \<open>run_sched\<close> runs an explicit schedule of thread indices.
\<close>

section \<open>Invariants of interleaved runs\<close>

definition recorded :: "cstate \<Rightarrow> string set" where
  "recorded s = set (map StoredName (rows (cdb s)))"

text \<open>
  Spec I2 read through the inode store: every record names a file of the recorded size,
  except the records whose names are in \<open>X\<close> (names whose file a delete has removed
  and whose record it has yet to remove).
\<close>

definition itwin_but :: "string set \<Rightarrow> cstate \<Rightarrow> bool" where
  "itwin_but X s \<longleftrightarrow> list_all (\<lambda>r. StoredName r \<in> X \<or> (case ifile (cfs s) (StoredName r) of None \<Rightarrow> False
                                | Some c \<Rightarrow> FileSize r = int (length c))) (rows (cdb s))"

definition itwin :: "cstate \<Rightarrow> bool" where
  "itwin s \<longleftrightarrow> itwin_but {} s"

text \<open>
  What a thread owns at each program counter: its name is not recorded before its
  insert, and after its create the name is linked to its descriptor's inode, which holds
  nothing before the write and exactly the uploaded bytes after it.
\<close>

definition thread_ok :: "cstate \<Rightarrow> uthread \<Rightarrow> bool" where
  "thread_ok s t =
     (case tpc t of
        UStart \<Rightarrow> tname t \<notin> recorded s
      | UCreated fd \<Rightarrow> tname t \<notin> recorded s \<and> idir (cfs s) \<and> names (cfs s) (tname t) = Some fd
                       \<and> inodes (cfs s) fd = Some []
      | UWritten fd \<Rightarrow> tname t \<notin> recorded s \<and> idir (cfs s) \<and> names (cfs s) (tname t) = Some fd
                       \<and> inodes (cfs s) fd = Some (tcontent t)
      | URollback \<Rightarrow> tname t \<notin> recorded s
      | UDone _ \<Rightarrow> True)"

definition cinv :: "cstate \<times> uthread list \<Rightarrow> bool" where
  "cinv st \<longleftrightarrow> (case st of (s, ts) \<Rightarrow>
     iwf (cfs s) \<and> db_wf (cdb s) \<and> itwin s \<and> distinct (map tname ts) \<and> list_all (thread_ok s) ts)"

text \<open>The calls a thread has left to make.\<close>


text \<open>An explicit schedule: the indices of the threads to step, in order; a finished or absent
  thread is skipped.\<close>

fun run_sched :: "nat list \<Rightarrow> cstate \<times> uthread list \<Rightarrow> cstate \<times> uthread list" where
  "run_sched [] c = c"
| "run_sched (i # is) (s, ts) =
     (if i < length ts \<and> \<not> is_done (tpc (ts ! i))
      then case ustep (ts ! i) s of (t', s') \<Rightarrow> run_sched is (s', ts[i := t'])
      else run_sched is (s, ts))"

definition all_done :: "uthread list \<Rightarrow> bool" where
  "all_done ts \<longleftrightarrow> list_all (\<lambda>t. is_done (tpc t)) ts"

section \<open>Frames of a step\<close>

lemma ifile_create_other:
  "i_create f cs n = Inr (fd, cs1) \<Longrightarrow> iwf cs \<Longrightarrow> m \<noteq> n \<Longrightarrow> ifile cs1 m = ifile cs m"
  using i_create_Inr [of f cs n fd cs1] by (cases "names cs m") (auto simp: ifile_def)

lemma ifile_write_other:
  "i_write f cs fd c = Inr cs2 \<Longrightarrow> iwf cs \<Longrightarrow> names cs n = Some fd \<Longrightarrow> m \<noteq> n \<Longrightarrow> ifile cs2 m = ifile cs m"
  using iwf_inj [of cs m _ n] by (cases "names cs m") (auto simp: ifile_def dest!: i_write_Inr)

lemma ifile_remove_other:
  "i_remove f cs n = Inr cs3 \<Longrightarrow> m \<noteq> n \<Longrightarrow> ifile cs3 m = ifile cs m"
  by (cases "names cs m") (auto simp: ifile_def dest!: i_remove_Inr)

lemma itwin_but_frame:
  assumes tw: "itwin_but X s" and rs: "rows (cdb s') = rows (cdb s)"
    and fr: "\<And>m. m \<in> recorded s \<Longrightarrow> m \<notin> X \<Longrightarrow> ifile (cfs s') m = ifile (cfs s) m"
  shows "itwin_but X s'"
  unfolding itwin_but_def list_all_iff
proof
  fix r assume "r \<in> set (rows (cdb s'))"
  with rs have r: "r \<in> set (rows (cdb s))" by simp
  show "StoredName r \<in> X \<or> (case ifile (cfs s') (StoredName r) of None \<Rightarrow> False
                                | Some c \<Rightarrow> FileSize r = int (length c))"
  proof (cases "StoredName r \<in> X")
    case False
    with r fr [of "StoredName r"] have "ifile (cfs s') (StoredName r) = ifile (cfs s) (StoredName r)"
      by (simp add: recorded_def)
    with r tw show ?thesis by (auto simp: itwin_but_def list_all_iff)
  qed simp
qed

lemma thread_ok_frame:
  assumes "thread_ok s u" "tname u \<notin> recorded s \<Longrightarrow> tname u \<notin> recorded s'"
    and "\<And>fd. tpc u = UCreated fd \<or> tpc u = UWritten fd \<Longrightarrow> idir (cfs s') = idir (cfs s) \<and>
           names (cfs s') (tname u) = names (cfs s) (tname u) \<and> inodes (cfs s') fd = inodes (cfs s) fd"
  shows "thread_ok s' u"
  using assms by (auto simp: thread_ok_def split: upc.splits)

lemma step_start:
  "tpc u = UStart \<Longrightarrow> ustep u s = (u', s') \<Longrightarrow>
     (s' = s \<and> is_done (tpc u'))
   \<or> (\<exists>f fd cs1. i_create f (cfs s) (tname u) = Inr (fd, cs1) \<and> s' = s\<lparr>cfs := cs1\<rparr> \<and> u' = u\<lparr>tpc := UCreated fd\<rparr>)"
  by (auto simp: ustep_def Let_def tname_def split: if_splits sum.splits prod.splits)

lemma step_created:
  "tpc u = UCreated fd \<Longrightarrow> ustep u s = (u', s') \<Longrightarrow>
     (s' = s \<and> is_done (tpc u'))
   \<or> (\<exists>f cs2. i_write f (cfs s) fd (tcontent u) = Inr cs2 \<and> s' = s\<lparr>cfs := cs2\<rparr> \<and> u' = u\<lparr>tpc := UWritten fd\<rparr>)"
  by (auto simp: ustep_def Let_def split: sum.splits)

lemma step_written:
  "tpc u = UWritten fd \<Longrightarrow> ustep u s = (u', s') \<Longrightarrow>
     (\<exists>db'. InsertFile (fault (tenv u) InsertCall) (db_clock (tenv u)) (cdb s) (torig u) (tname u)
                 (int (length (tcontent u))) (remote_addr (treq u)) = Inr db'
        \<and> s' = s\<lparr>cdb := db'\<rparr> \<and> is_done (tpc u'))
   \<or> (s' = s \<and> u' = u\<lparr>tpc := URollback\<rparr>)"
  by (auto simp: ustep_def Let_def split: sum.splits)

lemma step_rollback:
  "tpc u = URollback \<Longrightarrow> ustep u s = (u', s') \<Longrightarrow>
     is_done (tpc u') \<and> (s' = s \<or> (\<exists>f cs3. i_remove f (cfs s) (tname u) = Inr cs3 \<and> s' = s\<lparr>cfs := cs3\<rparr>))"
  by (auto simp: ustep_def Let_def split: sum.splits)

lemma step_done: "tpc u = UDone resp \<Longrightarrow> ustep u s = (u', s') \<Longrightarrow> s' = s \<and> u' = u"
  by (simp add: ustep_def)

lemma ustep_tname: "ustep u s = (u', s') \<Longrightarrow> tname u' = tname u \<and> tcontent u' = tcontent u"
  by (auto simp: ustep_def Let_def split: upc.splits if_splits sum.splits prod.splits)

lemma distinct_names:
  "distinct (map tname ts) \<Longrightarrow> i < length ts \<Longrightarrow> j < length ts \<Longrightarrow> j \<noteq> i \<Longrightarrow> tname (ts ! j) \<noteq> tname (ts ! i)"
  by (metis distinct_map nth_eq_iff_index_eq inj_on_contraD nth_mem)

lemma recorded_insert:
  "InsertFile f now (cdb s) o' n sz a = Inr db' \<Longrightarrow> recorded (s\<lparr>cdb := db'\<rparr>) = insert n (recorded s)"
  by (drule InsertFile_Inr) (auto simp: recorded_def)

section \<open>One step preserves the invariant\<close>

lemma state_ok_start:
  assumes wf: "iwf (cfs s)" "db_wf (cdb s)" "itwin_but X s" and ok: "thread_ok s u"
    and pc: "tpc u = UStart" and st: "ustep u s = (u', s')"
  shows "iwf (cfs s') \<and> db_wf (cdb s') \<and> itwin_but X s'"
  using step_start [OF pc st]
proof (elim disjE exE conjE)
  fix f fd cs1 assume cr: "i_create f (cfs s) (tname u) = Inr (fd, cs1)" and s': "s' = s\<lparr>cfs := cs1\<rparr>"
  have nr: "tname u \<notin> recorded s" using ok pc by (simp add: thread_ok_def)
  have "itwin_but X s'"
  proof (rule itwin_but_frame [OF wf(3)])
    show "rows (cdb s') = rows (cdb s)" using s' by simp
    fix m assume "m \<in> recorded s" "m \<notin> X"
    with nr have "m \<noteq> tname u" by blast
    then show "ifile (cfs s') m = ifile (cfs s) m" using ifile_create_other [OF cr wf(1)] s' by simp
  qed
  with i_create_Inr [OF cr wf(1)] wf s' show ?thesis by simp
qed (use wf in simp)

lemma state_ok_created:
  assumes wf: "iwf (cfs s)" "db_wf (cdb s)" "itwin_but X s" and ok: "thread_ok s u"
    and pc: "tpc u = UCreated fd" and st: "ustep u s = (u', s')"
  shows "iwf (cfs s') \<and> db_wf (cdb s') \<and> itwin_but X s'"
  using step_created [OF pc st]
proof (elim disjE exE conjE)
  fix f cs2 assume w: "i_write f (cfs s) fd (tcontent u) = Inr cs2" and s': "s' = s\<lparr>cfs := cs2\<rparr>"
  have nm: "names (cfs s) (tname u) = Some fd" and nr: "tname u \<notin> recorded s"
    using ok pc by (simp_all add: thread_ok_def)
  have "itwin_but X s'"
  proof (rule itwin_but_frame [OF wf(3)])
    show "rows (cdb s') = rows (cdb s)" using s' by simp
    fix m assume "m \<in> recorded s" "m \<notin> X"
    with nr have "m \<noteq> tname u" by blast
    then show "ifile (cfs s') m = ifile (cfs s) m" using ifile_write_other [OF w wf(1) nm] s' by simp
  qed
  with i_write_wf [OF w wf(1)] wf s' show ?thesis by simp
qed (use wf in simp)

lemma state_ok_written:
  assumes wf: "iwf (cfs s)" "db_wf (cdb s)" "itwin_but X s" and ok: "thread_ok s u"
    and pc: "tpc u = UWritten fd" and st: "ustep u s = (u', s')"
  shows "iwf (cfs s') \<and> db_wf (cdb s') \<and> itwin_but X s'"
  using step_written [OF pc st]
proof (elim disjE exE conjE)
  fix db' assume ins: "InsertFile (fault (tenv u) InsertCall) (db_clock (tenv u)) (cdb s) (torig u) (tname u)
                 (int (length (tcontent u))) (remote_addr (treq u)) = Inr db'" and s': "s' = s\<lparr>cdb := db'\<rparr>"
  have own: "ifile (cfs s) (tname u) = Some (tcontent u)"
    using ok pc by (simp add: thread_ok_def ifile_def)
  have "itwin_but X s'"
    using wf(3) own InsertFile_Inr [OF ins] s' by (simp add: itwin_but_def)
  with InsertFile_wf [OF wf(2) ins] wf s' show ?thesis by simp
qed (use wf in simp)

lemma state_ok_rollback:
  assumes wf: "iwf (cfs s)" "db_wf (cdb s)" "itwin_but X s" and ok: "thread_ok s u"
    and pc: "tpc u = URollback" and st: "ustep u s = (u', s')"
  shows "iwf (cfs s') \<and> db_wf (cdb s') \<and> itwin_but X s'"
  using step_rollback [OF pc st]
proof (elim disjE exE conjE)
  fix f cs3 assume rm: "i_remove f (cfs s) (tname u) = Inr cs3" and s': "s' = s\<lparr>cfs := cs3\<rparr>"
  have nr: "tname u \<notin> recorded s" using ok pc by (simp add: thread_ok_def)
  have "itwin_but X s'"
  proof (rule itwin_but_frame [OF wf(3)])
    show "rows (cdb s') = rows (cdb s)" using s' by simp
    fix m assume "m \<in> recorded s" "m \<notin> X"
    with nr have "m \<noteq> tname u" by blast
    then show "ifile (cfs s') m = ifile (cfs s) m" using ifile_remove_other [OF rm] s' by simp
  qed
  with i_remove_wf [OF rm wf(1)] wf s' show ?thesis by simp
qed (use wf in simp)

text \<open>What one step of a thread leaves alone: the directory, every other name and its inode.\<close>

lemma ustep_frame:
  assumes wf: "iwf (cfs s)" and ok: "thread_ok s u" and st: "ustep u s = (u', s')"
  shows "idir (cfs s') = idir (cfs s) \<and> recorded s' \<subseteq> insert (tname u) (recorded s)
         \<and> (\<forall>m j. m \<noteq> tname u \<longrightarrow> names (cfs s) m = Some j \<longrightarrow>
                  names (cfs s') m = Some j \<and> inodes (cfs s') j = inodes (cfs s) j)"
proof (cases "tpc u")
  case UStart
  from step_start [OF this st] show ?thesis
  proof (elim disjE exE conjE)
    fix f fd cs1 assume cr: "i_create f (cfs s) (tname u) = Inr (fd, cs1)" and "s' = s\<lparr>cfs := cs1\<rparr>"
    with i_create_Inr [OF cr wf] show ?thesis by (auto simp: recorded_def)
  qed auto
next
  case (UCreated fd)
  have nm: "names (cfs s) (tname u) = Some fd" using ok UCreated by (simp add: thread_ok_def)
  from step_created [OF UCreated st] show ?thesis
  proof (elim disjE exE conjE)
    fix f cs2 assume w: "i_write f (cfs s) fd (tcontent u) = Inr cs2" and "s' = s\<lparr>cfs := cs2\<rparr>"
    with i_write_Inr [OF w] iwf_inj [OF wf _ nm] show ?thesis by (auto simp: recorded_def)
  qed auto
next
  case (UWritten fd)
  from step_written [OF this st] show ?thesis
  proof (elim disjE exE conjE)
    fix db' assume ins: "InsertFile (fault (tenv u) InsertCall) (db_clock (tenv u)) (cdb s) (torig u) (tname u)
                 (int (length (tcontent u))) (remote_addr (treq u)) = Inr db'" and "s' = s\<lparr>cdb := db'\<rparr>"
    with recorded_insert [OF ins] show ?thesis by simp
  qed auto
next
  case URollback
  from step_rollback [OF this st] show ?thesis
  proof (elim disjE exE conjE)
    fix f cs3 assume rm: "i_remove f (cfs s) (tname u) = Inr cs3" and "s' = s\<lparr>cfs := cs3\<rparr>"
    with i_remove_Inr [OF rm] show ?thesis by (auto simp: recorded_def)
  qed auto
next
  case (UDone resp)
  with step_done [OF this st] show ?thesis by auto
qed

lemma thread_ok_done: "is_done (tpc u) \<Longrightarrow> thread_ok s u"
  by (cases "tpc u") (simp_all add: thread_ok_def)

lemma thread_ok_self:
  assumes wf: "iwf (cfs s)" and ok: "thread_ok s u" and st: "ustep u s = (u', s')"
  shows "thread_ok s' u'"
proof (cases "tpc u")
  case UStart
  from step_start [OF this st] show ?thesis
  proof (elim disjE exE conjE)
    fix f fd cs1 assume cr: "i_create f (cfs s) (tname u) = Inr (fd, cs1)" and "s' = s\<lparr>cfs := cs1\<rparr>"
      and "u' = u\<lparr>tpc := UCreated fd\<rparr>"
    with i_create_Inr [OF cr wf] ok UStart show ?thesis
      by (simp add: thread_ok_def recorded_def)
  qed (simp add: thread_ok_done)
next
  case (UCreated fd)
  from step_created [OF this st] show ?thesis
  proof (elim disjE exE conjE)
    fix f cs2 assume w: "i_write f (cfs s) fd (tcontent u) = Inr cs2" and "s' = s\<lparr>cfs := cs2\<rparr>"
      and "u' = u\<lparr>tpc := UWritten fd\<rparr>"
    with i_write_Inr [OF w] ok UCreated show ?thesis
      by (auto simp: thread_ok_def recorded_def)
  qed (simp add: thread_ok_done)
next
  case (UWritten fd)
  from step_written [OF this st] show ?thesis
  proof (elim disjE exE conjE)
    assume "s' = s" "u' = u\<lparr>tpc := URollback\<rparr>"
    with ok UWritten show ?thesis by (simp add: thread_ok_def)
  qed (simp add: thread_ok_done)
next
  case URollback
  from step_rollback [OF this st] show ?thesis by (simp add: thread_ok_done)
next
  case (UDone resp)
  with step_done [OF this st] ok show ?thesis by simp
qed

lemma thread_ok_other:
  assumes wf: "iwf (cfs s)" and ok: "thread_ok s u" and st: "ustep u s = (u', s')"
    and okv: "thread_ok s v" and ne: "tname v \<noteq> tname u"
  shows "thread_ok s' v"
  using ustep_frame [OF wf ok st] okv ne
  by (intro thread_ok_frame [OF okv]) (auto simp: thread_ok_def)

lemma ustep_state_ok:
  assumes "iwf (cfs s)" "db_wf (cdb s)" "itwin_but X s" "thread_ok s u" "ustep u s = (u', s')"
  shows "iwf (cfs s') \<and> db_wf (cdb s') \<and> itwin_but X s'"
proof (cases "tpc u")
  case (UDone resp)
  with step_done [OF this assms(5)] assms show ?thesis by simp
next
  case UStart
  from state_ok_start [OF assms(1-4) this assms(5)] show ?thesis .
next
  case (UCreated fd)
  from state_ok_created [OF assms(1-4) this assms(5)] show ?thesis .
next
  case (UWritten fd)
  from state_ok_written [OF assms(1-4) this assms(5)] show ?thesis .
next
  case URollback
  from state_ok_rollback [OF assms(1-4) this assms(5)] show ?thesis .
qed

lemma cstep_cinv: "cstep c c' \<Longrightarrow> cinv c \<Longrightarrow> cinv c'"
proof (induction rule: cstep.induct)
  case (1 i ts s t' s')
  let ?u = "ts ! i"
  from "1.prems" have wf: "iwf (cfs s)" "db_wf (cdb s)" "itwin s" and dn: "distinct (map tname ts)"
    and all: "\<forall>j < length ts. thread_ok s (ts ! j)"
    by (simp_all add: cinv_def list_all_length)
  have ok: "thread_ok s ?u" using all "1.hyps"(1) by simp
  have names: "map tname (ts[i := t']) = map tname ts"
    using ustep_tname [OF "1.hyps"(3)] "1.hyps"(1) by (simp add: map_update list_update_same_conv)
  have "thread_ok s' (ts[i := t'] ! j)" if j: "j < length ts" for j
  proof (cases "j = i")
    case True
    with thread_ok_self [OF wf(1) ok "1.hyps"(3)] j show ?thesis by simp
  next
    case False
    with thread_ok_other [OF wf(1) ok "1.hyps"(3)] all distinct_names [OF dn "1.hyps"(1) j] j
    show ?thesis by simp
  qed
  with ustep_state_ok [OF wf(1,2) wf(3) [unfolded itwin_def] ok "1.hyps"(3)] names dn show ?case
    by (simp add: cinv_def list_all_length itwin_def)
qed

lemma reach_cinv: "cstep\<^sup>*\<^sup>* c c' \<Longrightarrow> cinv c \<Longrightarrow> cinv c'"
  by (induction rule: rtranclp_induct) (auto intro: cstep_cinv)

section \<open>Runs\<close>

lemma run_sched_reach: "cstep\<^sup>*\<^sup>* c (run_sched is c)"
proof (induction "is" c rule: run_sched.induct)
  case (2 i "is" s ts)
  show ?case
  proof (cases "i < length ts \<and> \<not> is_done (tpc (ts ! i))")
    case True
    obtain t' s' where st: "ustep (ts ! i) s = (t', s')" by fastforce
    with True have "cstep (s, ts) (s', ts[i := t'])" by (blast intro: cstep.intros)
    with "2.IH"(1) [OF True st [symmetric]] True st show ?thesis
      by (simp add: converse_rtranclp_into_rtranclp)
  next
    case False
    with "2.IH"(2) [OF False] show ?thesis by (simp only: run_sched.simps if_not_P if_False)
  qed
qed simp

lemma cinv_start:
  "iwf (cfs s) \<Longrightarrow> db_wf (cdb s) \<Longrightarrow> itwin s \<Longrightarrow> distinct (map tname ts) \<Longrightarrow>
   list_all (\<lambda>t. tpc t = UStart \<and> tname t \<notin> recorded s) ts \<Longrightarrow> cinv (s, ts)"
  by (auto simp: cinv_def list_all_iff thread_ok_def)

text \<open>
  C8: uploads whose stored names are distinct and not yet recorded, started on a well
  formed store and table that satisfy the twin invariant, keep the store and the table well
  formed and every record naming a file of its recorded size, in every interleaving of
  their calls.
\<close>

theorem distinct_uploads_keep_twin:
  assumes "iwf (cfs s)" "db_wf (cdb s)" "itwin s" "distinct (map tname ts)"
    and "list_all (\<lambda>t. tpc t = UStart \<and> tname t \<notin> recorded s) ts"
    and "cstep\<^sup>*\<^sup>* (s, ts) (s', ts')"
  shows "itwin s' \<and> db_wf (cdb s') \<and> iwf (cfs s')"
  using reach_cinv [OF assms(6) cinv_start [OF assms(1-5)]] by (simp add: cinv_def)

end
