(* ===== verification/DeleteRace.thy ===== *)
theory DeleteRace
  imports Interleaving
begin

text \<open>
  Deletes interleaved with uploads. \<open>DeleteFile\<close> (\<open>src/internal/handlers/handlers.go\<close>
  lines 241--286) makes three calls on shared state: \<open>os.Stat\<close>, \<open>os.Remove\<close> and
  \<open>db.DeleteFile\<close>, whose failure is only logged. A delete thread has a program counter
  at each of them; a thread of the server is an upload or a delete, and \<open>mstep\<close> steps
  any unfinished one. Restricted to uploads it is \<open>cstep\<close>.
\<close>

section \<open>The calls of a delete on the inode store\<close>

text \<open>\<open>os.Stat\<close>: whether the path exists (the handler reads only the error).\<close>

definition i_stat :: "bool \<Rightarrow> istore \<Rightarrow> fs_path \<Rightarrow> fs_error + unit" where
  "i_stat ioFault cs p =
     (if ioFault then Inl EIO
      else if \<not> idir cs then Inl ENOENT
      else case p of
        DirPath \<Rightarrow> Inr ()
      | Entry n \<Rightarrow> (case names cs n of None \<Rightarrow> Inl ENOENT | Some _ \<Rightarrow> Inr ()))"

text \<open>\<open>os.Remove\<close> of a path: unlink a name, or remove the directory when it is empty.\<close>

definition i_remove_path :: "bool \<Rightarrow> istore \<Rightarrow> fs_path \<Rightarrow> fs_error + istore" where
  "i_remove_path ioFault cs p =
     (case p of
        Entry n \<Rightarrow> i_remove ioFault cs n
      | DirPath \<Rightarrow>
          if ioFault then Inl EIO
          else if \<not> idir cs then Inl ENOENT
          else if names cs = Map.empty then Inr (cs\<lparr>idir := False\<rparr>)
          else Inl ENOTEMPTY)"

section \<open>Delete threads\<close>

datatype dpc = DStart | DStatted | DRemoved | DDone response

record dthread =
  denv :: env
  dreq :: request
  dpc :: dpc

definition dname :: "dthread \<Rightarrow> string" where
  "dname t = (case json_filename (dreq t) of None \<Rightarrow> [] | Some f \<Rightarrow> f)"

definition delete_ok :: "string \<Rightarrow> response" where
  "delete_ok filename =
     \<lparr>status = 200, headers = [],
      body = TextBody (''File '' @ [CHR 0x27] @ filename @ [CHR 0x27] @ '' successfully deleted.'')\<rparr>"

text \<open>One step of a delete: the code from its program counter up to the next shared call.\<close>

definition dstep :: "dthread \<Rightarrow> cstate \<Rightarrow> dthread \<times> cstate" where
  "dstep t s =
     (let e = denv t; r = dreq t; filename = dname t; finish = (\<lambda>resp. t\<lparr>dpc := DDone resp\<rparr>) in
      case dpc t of
        DStart \<Rightarrow>
          (if Method r \<noteq> DELETE then (finish (http_error 405 ''Method not allowed''), s)
           else if json_filename r = None then (finish (http_error 400 ''Invalid request''), s)
           else if unsafe_name filename then (finish (http_error 400 ''Invalid filename''), s)
           else case i_stat (fault e StatCall) (cfs s) (data_path filename) of
             Inl err \<Rightarrow> if is_not_exist err then (finish (http_error 404 ''File not found''), s)
                        else (t\<lparr>dpc := DStatted\<rparr>, s)
           | Inr _ \<Rightarrow> (t\<lparr>dpc := DStatted\<rparr>, s))
      | DStatted \<Rightarrow>
          (case i_remove_path (fault e RemoveCall) (cfs s) (data_path filename) of
             Inl _ \<Rightarrow> (finish (http_error 500 ''Failed to delete file: ''), s)
           | Inr cs \<Rightarrow> (t\<lparr>dpc := DRemoved\<rparr>, s\<lparr>cfs := cs\<rparr>))
      | DRemoved \<Rightarrow>
          (finish (delete_ok filename),
           s\<lparr>cdb := (case DB_DeleteFile (fault e DeleteRowCall) (cdb s) filename of
                       Inl _ \<Rightarrow> cdb s | Inr db' \<Rightarrow> db')\<rparr>)
      | DDone _ \<Rightarrow> (t, s))"

section \<open>Uploads and deletes interleaved\<close>

datatype thread = Up uthread | Del dthread

fun tstep :: "thread \<Rightarrow> cstate \<Rightarrow> thread \<times> cstate" where
  "tstep (Up u) s = (case ustep u s of (u', s') \<Rightarrow> (Up u', s'))"
| "tstep (Del d) s = (case dstep d s of (d', s') \<Rightarrow> (Del d', s'))"

fun tdone :: "thread \<Rightarrow> bool" where
  "tdone (Up u) = is_done (tpc u)"
| "tdone (Del d) = (case dpc d of DDone _ \<Rightarrow> True | _ \<Rightarrow> False)"

text \<open>The response a thread has answered, once it is done.\<close>

fun answered :: "thread \<Rightarrow> response option" where
  "answered (Up u) = (case tpc u of UDone resp \<Rightarrow> Some resp | _ \<Rightarrow> None)"
| "answered (Del d) = (case dpc d of DDone resp \<Rightarrow> Some resp | _ \<Rightarrow> None)"

inductive mstep :: "cstate \<times> thread list \<Rightarrow> cstate \<times> thread list \<Rightarrow> bool" where
  "i < length ts \<Longrightarrow> \<not> tdone (ts ! i) \<Longrightarrow> tstep (ts ! i) s = (t', s') \<Longrightarrow>
   mstep (s, ts) (s', ts[i := t'])"

fun mrun_sched :: "nat list \<Rightarrow> cstate \<times> thread list \<Rightarrow> cstate \<times> thread list" where
  "mrun_sched [] c = c"
| "mrun_sched (i # is) (s, ts) =
     (if i < length ts \<and> \<not> tdone (ts ! i)
      then case tstep (ts ! i) s of (t', s') \<Rightarrow> mrun_sched is (s', ts[i := t'])
      else mrun_sched is (s, ts))"

section \<open>Runs of schedules\<close>

lemma mrun_sched_reach: "mstep\<^sup>*\<^sup>* c (mrun_sched is c)"
proof (induction "is" c rule: mrun_sched.induct)
  case (2 i "is" s ts)
  show ?case
  proof (cases "i < length ts \<and> \<not> tdone (ts ! i)")
    case True
    obtain t' s' where st: "tstep (ts ! i) s = (t', s')" by fastforce
    with True have "mstep (s, ts) (s', ts[i := t'])" by (blast intro: mstep.intros)
    with "2.IH"(1) [OF True st [symmetric]] True st show ?thesis
      by (simp add: converse_rtranclp_into_rtranclp)
  next
    case False
    with "2.IH"(2) [OF False] show ?thesis by (simp only: mrun_sched.simps if_not_P if_False)
  qed
qed simp

text \<open>With uploads only, the mixed interleaving is the upload interleaving.\<close>

lemma mstep_uploads:
  "mstep (s, map Up us) (s', ts') \<longleftrightarrow> (\<exists>us'. ts' = map Up us' \<and> cstep (s, us) (s', us'))"
proof
  assume "mstep (s, map Up us) (s', ts')"
  then obtain i t' where i: "i < length us" "\<not> is_done (tpc (us ! i))"
    and st: "tstep (Up (us ! i)) s = (t', s')" and ts': "ts' = (map Up us)[i := t']"
    by (auto elim!: mstep.cases)
  obtain u' where u: "ustep (us ! i) s = (u', s')" "t' = Up u'"
    using st by (cases "ustep (us ! i) s") auto
  show "\<exists>us'. ts' = map Up us' \<and> cstep (s, us) (s', us')"
  proof (intro exI conjI)
    show "ts' = map Up (us[i := u'])" using ts' u by (simp add: map_update)
    show "cstep (s, us) (s', us[i := u'])" using i u by (blast intro: cstep.intros)
  qed
next
  assume "\<exists>us'. ts' = map Up us' \<and> cstep (s, us) (s', us')"
  then obtain us' where ts': "ts' = map Up us'" and c: "cstep (s, us) (s', us')" by blast
  from c obtain i u' where i: "i < length us" "\<not> is_done (tpc (us ! i))"
    and u: "ustep (us ! i) s = (u', s')" and us': "us' = us[i := u']"
    by (auto elim!: cstep.cases)
  then have "mstep (s, map Up us) (s', (map Up us)[i := Up u'])"
    by (intro mstep.intros) auto
  with ts' us' show "mstep (s, map Up us) (s', ts')" by (simp add: map_update)
qed

section \<open>A delete alone is DeleteFile\<close>

text \<open>A delete past its \<open>os.Stat\<close> check, against \<open>DeleteFile\<close> from its \<open>os.Remove\<close> on.\<close>

end
