(* ===== verification/MixedRuns.thy ===== *)
theory MixedRuns
  imports DeleteRace
begin

text \<open>
  Uploads and deletes interleaved (\<open>mstep\<close>), in the rely-guarantee style: each step of a
  thread keeps what every other thread relies on. The condition is that no two threads
  clash: no two uploads share a stored name and no delete names an upload's stored name
  (\<open>no_clash\<close>); and no delete's table step fails. Then every reachable state satisfies
  the twin invariant except for the names a delete has unlinked and not yet removed from
  the table (\<open>removing\<close>), and every state where all threads are done satisfies it
  outright. \<open>delete_race\<close> shows the clash condition cannot be dropped.
\<close>

section \<open>Clashes, pending removals and what each thread owns\<close>

fun tname_of :: "thread \<Rightarrow> string" where
  "tname_of (Up u) = tname u"
| "tname_of (Del d) = dname d"

fun is_upload :: "thread \<Rightarrow> bool" where
  "is_upload (Up _) = True"
| "is_upload (Del _) = False"

definition clash :: "thread \<Rightarrow> thread \<Rightarrow> bool" where
  "clash t t' \<longleftrightarrow> tname_of t = tname_of t' \<and> (is_upload t \<or> is_upload t')"

definition no_clash :: "thread list \<Rightarrow> bool" where
  "no_clash ts \<longleftrightarrow> (\<forall>i < length ts. \<forall>j < length ts. i \<noteq> j \<longrightarrow> \<not> clash (ts ! i) (ts ! j))"

text \<open>The name a delete has unlinked and whose record it has still to remove.\<close>

fun rname :: "thread \<Rightarrow> string set" where
  "rname (Up _) = {}"
| "rname (Del d) = (case dpc d of DRemoved \<Rightarrow> {dname d} | _ \<Rightarrow> {})"

definition removing :: "thread list \<Rightarrow> string set" where
  "removing ts = \<Union> (rname ` set ts)"

fun mok :: "cstate \<Rightarrow> thread \<Rightarrow> bool" where
  "mok s (Up u) = thread_ok s u"
| "mok s (Del d) = (\<not> fault (denv d) DeleteRowCall)"

definition minv :: "cstate \<times> thread list \<Rightarrow> bool" where
  "minv c \<longleftrightarrow> (case c of (s, ts) \<Rightarrow>
     iwf (cfs s) \<and> db_wf (cdb s) \<and> itwin_but (removing ts) s \<and> no_clash ts \<and> list_all (mok s) ts)"

text \<open>Threads about to start: uploads of unrecorded names, deletes whose table step works.\<close>

fun start_ok :: "cstate \<Rightarrow> thread \<Rightarrow> bool" where
  "start_ok s (Up u) = (tpc u = UStart \<and> tname u \<notin> recorded s)"
| "start_ok s (Del d) = (dpc d = DStart \<and> \<not> fault (denv d) DeleteRowCall)"

section \<open>The steps of a delete\<close>

lemma dstep_keep: "dstep d s = (d', s') \<Longrightarrow> dname d' = dname d \<and> denv d' = denv d"
  by (auto simp: dstep_def Let_def dname_def split: dpc.splits if_splits sum.splits)

lemma dstep_start: "dpc d = DStart \<Longrightarrow> dstep d s = (d', s') \<Longrightarrow> s' = s \<and> dpc d' \<noteq> DRemoved"
  by (auto simp: dstep_def Let_def split: if_splits sum.splits)

lemma dstep_statted:
  "dpc d = DStatted \<Longrightarrow> dstep d s = (d', s') \<Longrightarrow>
     (s' = s \<and> dpc d' \<noteq> DRemoved)
   \<or> (\<exists>cs. i_remove_path (fault (denv d) RemoveCall) (cfs s) (data_path (dname d)) = Inr cs
          \<and> s' = s\<lparr>cfs := cs\<rparr> \<and> dpc d' = DRemoved)"
  by (auto simp: dstep_def Let_def split: sum.splits)

lemma dstep_removed:
  "dpc d = DRemoved \<Longrightarrow> dstep d s = (d', s') \<Longrightarrow>
     dpc d' \<noteq> DRemoved \<and> s' = s\<lparr>cdb := (case DB_DeleteFile (fault (denv d) DeleteRowCall) (cdb s) (dname d) of
                                        Inl _ \<Rightarrow> cdb s | Inr db' \<Rightarrow> db')\<rparr>"
  by (auto simp: dstep_def Let_def split: sum.splits)

lemma dstep_done: "dpc d = DDone resp \<Longrightarrow> dstep d s = (d', s') \<Longrightarrow> s' = s \<and> d' = d"
  by (simp add: dstep_def)

lemma i_remove_path_Inr:
  "i_remove_path f cs p = Inr cs' \<Longrightarrow>
     (\<exists>n. p = Entry n \<and> i_remove f cs n = Inr cs') \<or> (p = DirPath \<and> names cs = Map.empty \<and> cs' = cs\<lparr>idir := False\<rparr>)"
  by (cases p) (auto simp: i_remove_path_def split: if_splits)

lemma DB_DeleteFile_absent:
  assumes "DB_DeleteFile False db n = Inl err"
  shows "n \<notin> set (map StoredName (rows db))"
proof -
  from assms have "length (rows db) \<le> length (filter (\<lambda>r. StoredName r \<noteq> n) (rows db))"
    by (simp add: DB_DeleteFile_def Let_def split: if_splits)
  with length_filter_le [of "\<lambda>r. StoredName r \<noteq> n" "rows db"]
  have "length (filter (\<lambda>r. StoredName r \<noteq> n) (rows db)) = length (rows db)" by (rule antisym)
  then show ?thesis by (rule length_filter_StoredName [THEN iffD1])
qed


text \<open>What a delete step leaves alone: every other name, its inode and the directory flag.\<close>

lemma dstep_frame:
  assumes wf: "iwf (cfs s)" and st: "dstep d s = (d', s')"
  shows "recorded s' \<subseteq> recorded s
         \<and> (\<forall>m i. m \<noteq> dname d \<longrightarrow> names (cfs s) m = Some i \<longrightarrow>
                  idir (cfs s') = idir (cfs s) \<and> names (cfs s') m = Some i \<and> inodes (cfs s') i = inodes (cfs s) i)"
proof (cases "dpc d")
  case DStatted
  from dstep_statted [OF this st] show ?thesis
  proof (elim disjE exE conjE)
    fix cs assume rm: "i_remove_path (fault (denv d) RemoveCall) (cfs s) (data_path (dname d)) = Inr cs"
      and s': "s' = s\<lparr>cfs := cs\<rparr>"
    from i_remove_path_Inr [OF rm] show ?thesis
    proof (elim disjE exE conjE)
      fix n assume "data_path (dname d) = Entry n" "i_remove (fault (denv d) RemoveCall) (cfs s) n = Inr cs"
      moreover then have "n = dname d" by (simp add: data_path_def split: if_splits)
      ultimately show ?thesis using s' by (auto simp: recorded_def dest!: i_remove_Inr)
    qed (use s' in \<open>auto simp: recorded_def\<close>)
  qed simp
next
  case DRemoved
  from dstep_removed [OF this st] show ?thesis
    by (auto simp: recorded_def split: sum.splits dest!: DB_DeleteFile_Inr)
qed (use dstep_start dstep_done st in \<open>fastforce+\<close>)

lemma dstep_thread_ok:
  assumes "iwf (cfs s)" "dstep d s = (d', s')" "thread_ok s u" "tname u \<noteq> dname d"
  shows "thread_ok s' u"
proof (rule thread_ok_frame [OF assms(3)])
  note fr = dstep_frame [OF assms(1,2)]
  show "tname u \<notin> recorded s \<Longrightarrow> tname u \<notin> recorded s'" using fr by blast
  fix fd assume "tpc u = UCreated fd \<or> tpc u = UWritten fd"
  with assms(3) have "names (cfs s) (tname u) = Some fd" by (auto simp: thread_ok_def)
  with fr assms(4) show "idir (cfs s') = idir (cfs s) \<and> names (cfs s') (tname u) = names (cfs s) (tname u)
                          \<and> inodes (cfs s') fd = inodes (cfs s) fd" by simp
qed

section \<open>The twin invariant with exceptions\<close>

lemma itwin_but_mono: "itwin_but X s \<Longrightarrow> X \<subseteq> Y \<Longrightarrow> itwin_but Y s"
  by (auto simp: itwin_but_def list_all_iff)

lemma itwin_but_empty_dir:
  assumes tw: "itwin_but X s" and e: "names (cfs s) = Map.empty"
  shows "set (map StoredName (rows (cdb s))) \<subseteq> X"
proof
  fix m assume "m \<in> set (map StoredName (rows (cdb s)))"
  then obtain r where r: "r \<in> set (rows (cdb s))" "m = StoredName r" by auto
  from tw r(1) have "StoredName r \<in> X \<or> (case ifile (cfs s) (StoredName r) of None \<Rightarrow> False
                                | Some c \<Rightarrow> FileSize r = int (length c))" by (simp add: itwin_but_def list_all_iff)
  with e r(2) show "m \<in> X" by (auto simp: ifile_def split: if_splits)
qed

lemma itwin_but_rows:
  assumes "itwin_but X s" "set (rows db') \<subseteq> set (rows (cdb s))" "n \<notin> set (map StoredName (rows db'))"
    "X \<subseteq> Y \<union> {n}"
  shows "itwin_but Y (s\<lparr>cdb := db'\<rparr>)"
  using assms by (fastforce simp: itwin_but_def list_all_iff)

lemma removing_update:
  assumes "i < length ts"
  shows "removing ts \<subseteq> removing (ts[i := t']) \<union> rname (ts ! i)" "rname t' \<subseteq> removing (ts[i := t'])"
proof -
  have "set ts \<subseteq> insert (ts ! i) (set (ts[i := t']))"
  proof
    fix x assume "x \<in> set ts"
    then obtain j where j: "j < length ts" "x = ts ! j" by (auto simp: in_set_conv_nth)
    then show "x \<in> insert (ts ! i) (set (ts[i := t']))"
      by (cases "j = i") (auto simp: set_conv_nth nth_list_update intro!: exI [of _ j])
  qed
  then show "removing ts \<subseteq> removing (ts[i := t']) \<union> rname (ts ! i)" by (auto simp: removing_def)
  have "t' \<in> set (ts[i := t'])" using assms by (simp add: set_update_memI)
  then show "rname t' \<subseteq> removing (ts[i := t'])" by (auto simp: removing_def)
qed


lemma itwin_but_all: "set (map StoredName (rows (cdb s))) \<subseteq> Y \<Longrightarrow> itwin_but Y s"
  by (auto simp: itwin_but_def list_all_iff)

text \<open>
  One step of a delete keeps the store and the table well formed, and the twin invariant
  with the exceptions updated: its own name joins them when it unlinks the file and may
  leave them once it has removed the record.
\<close>

lemma dstep_twin:
  assumes wf: "iwf (cfs s)" "db_wf (cdb s)" and tw: "itwin_but X s"
    and nf: "\<not> fault (denv d) DeleteRowCall" and st: "dstep d s = (d', s')"
    and sub: "X \<subseteq> Y \<union> rname (Del d)" and sub': "rname (Del d') \<subseteq> Y"
  shows "iwf (cfs s') \<and> db_wf (cdb s') \<and> itwin_but Y s'"
proof (cases "dpc d")
  case DStart
  with dstep_start [OF this st] sub wf itwin_but_mono [OF tw] show ?thesis by simp
next
  case DStatted
  with sub have XY: "X \<subseteq> Y" by simp
  from dstep_statted [OF DStatted st] show ?thesis
  proof (elim disjE exE conjE)
    fix cs assume rm: "i_remove_path (fault (denv d) RemoveCall) (cfs s) (data_path (dname d)) = Inr cs"
      and s': "s' = s\<lparr>cfs := cs\<rparr>" and pc': "dpc d' = DRemoved"
    from sub' pc' dstep_keep [OF st] have nY: "dname d \<in> Y" by simp
    from i_remove_path_Inr [OF rm] show ?thesis
    proof (elim disjE exE conjE)
      fix n assume p: "data_path (dname d) = Entry n" and r: "i_remove (fault (denv d) RemoveCall) (cfs s) n = Inr cs"
      then have n: "n = dname d" by (simp add: data_path_def split: if_splits)
      have "itwin_but (insert n X) s'"
      proof (rule itwin_but_frame [OF itwin_but_mono [OF tw]])
        show "rows (cdb s') = rows (cdb s)" using s' by simp
        fix m assume "m \<notin> insert n X"
        then show "ifile (cfs s') m = ifile (cfs s) m" using ifile_remove_other [OF r] s' by simp
      qed auto
      with i_remove_wf [OF r wf(1)] wf s' n nY XY show ?thesis by (auto intro: itwin_but_mono)
    next
      assume e: "names (cfs s) = Map.empty" and cs: "cs = cfs s\<lparr>idir := False\<rparr>"
      have "set (map StoredName (rows (cdb s'))) \<subseteq> Y"
        using itwin_but_empty_dir [OF tw e] XY s' by simp
      moreover have "iwf (cfs s')" using wf(1) s' cs by (simp add: iwf_def)
      ultimately show ?thesis using wf(2) s' by (simp add: itwin_but_all)
    qed
  qed (use wf itwin_but_mono [OF tw XY] in simp)
next
  case DRemoved
  with sub have XY: "X \<subseteq> Y \<union> {dname d}" by simp
  from dstep_removed [OF DRemoved st] nf have s': "s' = s\<lparr>cdb := (case DB_DeleteFile False (cdb s) (dname d) of
                                        Inl _ \<Rightarrow> cdb s | Inr db' \<Rightarrow> db')\<rparr>" by simp
  show ?thesis
  proof (cases "DB_DeleteFile False (cdb s) (dname d)")
    case (Inl err)
    with itwin_but_rows [OF tw _ DB_DeleteFile_absent [OF Inl] XY] wf s' show ?thesis by simp
  next
    case (Inr db')
    from DB_DeleteFile_Inr [OF Inr] have "set (rows db') \<subseteq> set (rows (cdb s))"
      "dname d \<notin> set (map StoredName (rows db'))" by auto
    with itwin_but_rows [OF tw _ _ XY] DB_DeleteFile_wf [OF wf(2) Inr] wf s' Inr show ?thesis by simp
  qed
next
  case (DDone resp)
  with dstep_done [OF this st] sub wf itwin_but_mono [OF tw] show ?thesis by simp
qed


section \<open>Every step keeps the invariant\<close>

lemma tstep_key: "tstep t s = (t', s') \<Longrightarrow> tname_of t' = tname_of t \<and> is_upload t' = is_upload t"
  by (cases t) (auto split: prod.splits dest: ustep_tname dstep_keep)

lemma no_clash_update:
  assumes nc: "no_clash ts" and k: "tname_of t' = tname_of (ts ! i)" "is_upload t' = is_upload (ts ! i)"
  shows "no_clash (ts[i := t'])"
proof -
  have key: "tname_of (ts[i := t'] ! a) = tname_of (ts ! a) \<and> is_upload (ts[i := t'] ! a) = is_upload (ts ! a)"
    if "a < length ts" for a
    using that k by (cases "a = i") simp_all
  then have "clash (ts[i := t'] ! a) (ts[i := t'] ! b) = clash (ts ! a) (ts ! b)"
    if "a < length ts" "b < length ts" for a b
    using that by (simp add: clash_def)
  with nc show ?thesis by (simp add: no_clash_def)
qed

lemma mok_other:
  assumes wf: "iwf (cfs s)" and ok: "mok s (ts ! i)" and st: "tstep (ts ! i) s = (t', s')"
    and okv: "mok s v" and nc: "\<not> clash v (ts ! i)"
  shows "mok s' v"
proof (cases v)
  case (Up w)
  show ?thesis
  proof (cases "ts ! i")
    case (Up u)
    with st obtain u' where "ustep u s = (u', s')" by (auto split: prod.splits)
    with thread_ok_other [OF wf _ this] ok okv nc Up \<open>v = Up w\<close> show ?thesis by (simp add: clash_def)
  next
    case (Del d)
    with st obtain d' where "dstep d s = (d', s')" by (auto split: prod.splits)
    with dstep_thread_ok [OF wf this] okv nc Del \<open>v = Up w\<close> show ?thesis by (simp add: clash_def)
  qed
qed (use okv in simp)

lemma mok_self:
  assumes wf: "iwf (cfs s)" and ok: "mok s t" and st: "tstep t s = (t', s')"
  shows "mok s' t'"
proof (cases t)
  case (Up u)
  with st obtain u' where "ustep u s = (u', s')" "t' = Up u'" by (auto split: prod.splits)
  with thread_ok_self [OF wf _ this(1)] ok Up show ?thesis by simp
next
  case (Del d)
  with st obtain d' where "dstep d s = (d', s')" "t' = Del d'" by (auto split: prod.splits)
  with dstep_keep [OF this(1)] ok Del show ?thesis by simp
qed

lemma tstep_state:
  assumes wf: "iwf (cfs s)" "db_wf (cdb s)" and tw: "itwin_but X s" and ok: "mok s t"
    and st: "tstep t s = (t', s')" and sub: "X \<subseteq> Y \<union> rname t" and sub': "rname t' \<subseteq> Y"
  shows "iwf (cfs s') \<and> db_wf (cdb s') \<and> itwin_but Y s'"
proof (cases t)
  case (Up u)
  with st obtain u' where "ustep u s = (u', s')" by (auto split: prod.splits)
  with ustep_state_ok [OF wf tw _ this] ok Up sub show ?thesis by (auto intro: itwin_but_mono)
next
  case (Del d)
  with st obtain d' where "dstep d s = (d', s')" "t' = Del d'" by (auto split: prod.splits)
  with dstep_twin [OF wf tw _ this(1)] ok Del sub sub' show ?thesis by simp
qed

lemma mstep_minv: "mstep c c' \<Longrightarrow> minv c \<Longrightarrow> minv c'"
proof (induction rule: mstep.induct)
  case (1 i ts s t' s')
  from "1.prems" have wf: "iwf (cfs s)" "db_wf (cdb s)" and tw: "itwin_but (removing ts) s"
    and nc: "no_clash ts" and all: "\<forall>j < length ts. mok s (ts ! j)"
    by (simp_all add: minv_def list_all_length)
  have ok: "mok s (ts ! i)" using all "1.hyps"(1) by simp
  note upd = removing_update [OF "1.hyps"(1), of t']
  have state: "iwf (cfs s') \<and> db_wf (cdb s') \<and> itwin_but (removing (ts[i := t'])) s'"
    by (rule tstep_state [OF wf tw ok "1.hyps"(3) upd])
  have "mok s' (ts[i := t'] ! j)" if j: "j < length ts" for j
  proof (cases "j = i")
    case True
    with mok_self [OF wf(1) ok "1.hyps"(3)] j show ?thesis by simp
  next
    case False
    with nc j "1.hyps"(1) have "\<not> clash (ts ! j) (ts ! i)" by (simp add: no_clash_def)
    with mok_other [OF wf(1) ok "1.hyps"(3)] all j False show ?thesis by simp
  qed
  moreover have "no_clash (ts[i := t'])"
    using no_clash_update [OF nc] tstep_key [OF "1.hyps"(3)] by simp
  ultimately show ?case using state by (simp add: minv_def list_all_length)
qed

lemma reach_minv: "mstep\<^sup>*\<^sup>* c c' \<Longrightarrow> minv c \<Longrightarrow> minv c'"
  by (induction rule: rtranclp_induct) (auto intro: mstep_minv)


lemma minv_start:
  assumes "iwf (cfs s)" "db_wf (cdb s)" "itwin s" "no_clash ts" "list_all (start_ok s) ts"
  shows "minv (s, ts)"
proof -
  have "removing ts = {}" and "list_all (mok s) ts"
  proof -
    have "rname t = {} \<and> mok s t" if "t \<in> set ts" for t
    proof -
      from that assms(5) have "start_ok s t" by (simp add: list_all_iff)
      then show ?thesis by (cases t) (auto simp: thread_ok_def)
    qed
    then show "removing ts = {}" "list_all (mok s) ts" by (auto simp: removing_def list_all_iff)
  qed
  with assms show ?thesis by (simp add: minv_def itwin_def)
qed

lemma removing_done: "list_all tdone ts \<Longrightarrow> removing ts = {}"
proof -
  assume "list_all tdone ts"
  then have "rname t = {}" if "t \<in> set ts" for t
    using that by (cases t) (auto simp: list_all_iff split: dpc.splits)
  then show ?thesis by (auto simp: removing_def)
qed

section \<open>Uploads and deletes that do not clash\<close>

text \<open>
  C12: started on a well formed store and table that satisfy the twin invariant, with
  uploads of distinct unrecorded names and deletes that name no upload's stored name and
  whose table step does not fail, every interleaving keeps the store and table well formed
  and every record naming a file of its size, except the records a delete has unlinked the
  file of and not yet removed; once every thread has answered there is no exception.
\<close>

theorem uploads_deletes_keep_twin:
  assumes "iwf (cfs s)" "db_wf (cdb s)" "itwin s" "no_clash ts" "list_all (start_ok s) ts"
    and "mstep\<^sup>*\<^sup>* (s, ts) (s', ts')"
  shows "iwf (cfs s') \<and> db_wf (cdb s') \<and> itwin_but (removing ts') s'
         \<and> (list_all tdone ts' \<longrightarrow> itwin s')"
proof -
  from reach_minv [OF assms(6) minv_start [OF assms(1-5)]]
  have "iwf (cfs s') \<and> db_wf (cdb s') \<and> itwin_but (removing ts') s'" by (simp add: minv_def)
  then show ?thesis using removing_done [of ts'] by (auto simp: itwin_def)
qed

end
