(* ===== verification/Readers.thy ===== *)
theory Readers
  imports MixedRuns
begin

text \<open>
  Reads interleaved with uploads and deletes. \<open>DownloadFile\<close> and \<open>PublicFileAccess\<close>
  (\<open>src/internal/handlers/handlers.go\<close> lines 152--239) make two calls on the data
  directory: \<open>os.Stat\<close>, then \<open>http.ServeFile\<close> (or, for \<open>HEAD\<close>, a second
  \<open>os.Stat\<close>). A reader is a thread whose steps are these two calls; it changes no
  shared state. \<open>http.ServeFile\<close> opens and reads the file in one step here (the open
  decides found or not found and the read follows it). Readers see the inode store through
  \<open>bview\<close>, the byte store it denotes, so their steps are the handlers' own code on it.
  Proved: in every interleaving, a read of a name that no upload or delete names answers
  as it would alone on the state the run started from. (\<open>Spec2Isabelle\<close> shows that a
  download between an upload's create and write serves an empty file.)
\<close>

section \<open>Reader threads\<close>

definition bview :: "istore \<Rightarrow> byte_store" where
  "bview cs = \<lparr>dir_exists = idir cs, dir_size = idir_size cs,
               files = Mapping.Mapping (\<lambda>n. case names cs n of None \<Rightarrow> None | Some i \<Rightarrow> inodes cs i)\<rparr>"

datatype read_route = ViaDownload | ViaPublic

datatype rpc = RStart | RStatted | RDone response

record rthread =
  renv :: env
  rreq :: request
  rroute :: read_route
  rpc :: rpc

text \<open>\<open>DownloadFile\<close> (lines 152--196) from its program counter to its next call.\<close>

definition download_step :: "rthread \<Rightarrow> cstate \<Rightarrow> rthread" where
  "download_step t s =
     (let e = renv t; r = rreq t; filename = query_name r; finish = (\<lambda>resp. t\<lparr>rpc := RDone resp\<rparr>) in
      case rpc t of
        RStart \<Rightarrow>
          (if Method r \<noteq> GET \<and> Method r \<noteq> HEAD then finish (http_error 405 ''Method not allowed'')
           else if filename = [] then finish (http_error 400 ''Missing 'name' parameter'')
           else if unsafe_name filename then finish (http_error 400 ''Invalid filename'')
           else case os_stat (fault e StatCall) (bview (cfs s)) (data_path filename) of
             Inl err \<Rightarrow> if is_not_exist err then finish (http_error 404 ''File not found'')
                        else t\<lparr>rpc := RStatted\<rparr>
           | Inr _ \<Rightarrow> t\<lparr>rpc := RStatted\<rparr>)
      | RStatted \<Rightarrow> finish (head_or_serve e r (bview (cfs s)) ''attachment'' filename (data_path filename))
      | RDone _ \<Rightarrow> t)"

text \<open>\<open>PublicFileAccess\<close> (lines 198--239) from its program counter to its next call.\<close>

definition public_step :: "rthread \<Rightarrow> cstate \<Rightarrow> rthread" where
  "public_step t s =
     (let e = renv t; r = rreq t; filename = trim_prefix (url_path r) ''/file/'';
          finish = (\<lambda>resp. t\<lparr>rpc := RDone resp\<rparr>) in
      case rpc t of
        RStart \<Rightarrow>
          (if filename = [] then finish (http_error 400 ''Filename not specified'')
           else if unsafe_name filename then finish (http_error 400 ''Invalid filename'')
           else case os_stat (fault e StatCall) (bview (cfs s)) (data_path filename) of
             Inl err \<Rightarrow> if is_not_exist err then finish (http_error 404 ''File not found'')
                        else t\<lparr>rpc := RStatted\<rparr>
           | Inr _ \<Rightarrow> t\<lparr>rpc := RStatted\<rparr>)
      | RStatted \<Rightarrow> finish (head_or_serve e r (bview (cfs s)) ''inline'' filename (data_path filename))
      | RDone _ \<Rightarrow> t)"

primrec rstep_of :: "read_route \<Rightarrow> rthread \<Rightarrow> cstate \<Rightarrow> rthread" where
  "rstep_of ViaDownload = download_step"
| "rstep_of ViaPublic = public_step"

definition rstep :: "rthread \<Rightarrow> cstate \<Rightarrow> rthread" where
  "rstep t s = rstep_of (rroute t) t s"

primrec rname_of :: "read_route \<Rightarrow> request \<Rightarrow> string" where
  "rname_of ViaDownload r = query_name r"
| "rname_of ViaPublic r = trim_prefix (url_path r) ''/file/''"

definition read_name :: "rthread \<Rightarrow> string" where
  "read_name t = rname_of (rroute t) (rreq t)"

definition rdone :: "rthread \<Rightarrow> bool" where
  "rdone t \<longleftrightarrow> (case rpc t of RDone _ \<Rightarrow> True | _ \<Rightarrow> False)"

definition ranswer :: "rthread \<Rightarrow> response option" where
  "ranswer t = (case rpc t of RDone resp \<Rightarrow> Some resp | _ \<Rightarrow> None)"

text \<open>A reader run alone for at most \<open>k\<close> steps.\<close>

fun rrun :: "nat \<Rightarrow> rthread \<Rightarrow> cstate \<Rightarrow> rthread" where
  "rrun 0 t s = t"
| "rrun (Suc k) t s = (if rdone t then t else rrun k (rstep t s) s)"

section \<open>Readers interleaved with uploads and deletes\<close>

text \<open>
  A system step is a step of an upload or delete (\<open>mstep\<close>) or a step of a reader that
  has not answered; a reader's step leaves the shared state as it was.
\<close>

inductive sstep :: "(cstate \<times> thread list) \<times> rthread list \<Rightarrow> (cstate \<times> thread list) \<times> rthread list \<Rightarrow> bool" where
  writer: "mstep c c' \<Longrightarrow> sstep (c, rs) (c', rs)"
| reader: "i < length rs \<Longrightarrow> \<not> rdone (rs ! i) \<Longrightarrow> sstep ((s, ts), rs) ((s, ts), rs[i := rstep (rs ! i) s])"

datatype pick = W nat | R nat

fun srun_sched :: "pick list \<Rightarrow> (cstate \<times> thread list) \<times> rthread list \<Rightarrow> (cstate \<times> thread list) \<times> rthread list" where
  "srun_sched [] c = c"
| "srun_sched (W i # is) ((s, ts), rs) =
     (if i < length ts \<and> \<not> tdone (ts ! i)
      then case tstep (ts ! i) s of (t', s') \<Rightarrow> srun_sched is ((s', ts[i := t']), rs)
      else srun_sched is ((s, ts), rs))"
| "srun_sched (R i # is) ((s, ts), rs) =
     (if i < length rs \<and> \<not> rdone (rs ! i)
      then srun_sched is ((s, ts), rs[i := rstep (rs ! i) s])
      else srun_sched is ((s, ts), rs))"

text \<open>
  What a run keeps of a file \<open>n\<close> that no writer names: the writers' invariant, the
  file's contents, and for every reader of \<open>n\<close> the state it would reach alone on the
  state the run started from.
\<close>

definition read_inv :: "string \<Rightarrow> cstate \<Rightarrow> rthread list \<Rightarrow> (cstate \<times> thread list) \<times> rthread list \<Rightarrow> bool" where
  "read_inv n s0 rs0 c \<longleftrightarrow> (case c of ((s, ts), rs) \<Rightarrow>
     minv (s, ts) \<and> list_all (\<lambda>w. tname_of w \<noteq> n) ts \<and> ifile (cfs s) n = ifile (cfs s0) n
     \<and> length rs = length rs0 \<and> (\<forall>i < length rs. read_name (rs0 ! i) = n \<longrightarrow> (\<exists>k. rs ! i = rrun k (rs0 ! i) s0)))"

section \<open>The view of the inode store\<close>

lemma read_file_bview [simp]: "read_file (bview cs) n = ifile cs n"
  by (simp add: bview_def read_file_def ifile_def Mapping.lookup.abs_eq)

lemma bview_dir [simp]: "dir_exists (bview cs) = idir cs" "dir_size (bview cs) = idir_size cs"
  by (simp_all add: bview_def)

lemma os_stat_read_file:
  "os_stat f bs p = (if f then Inl EIO else if \<not> dir_exists bs then Inl ENOENT
                     else case p of DirPath \<Rightarrow> Inr (DirInfo (dir_size bs))
                          | Entry n \<Rightarrow> (case read_file bs n of None \<Rightarrow> Inl ENOENT | Some c \<Rightarrow> Inr (FileInfo (length c))))"
  by (simp add: os_stat_def read_file_def split: fs_path.splits)

section \<open>What a reader depends on\<close>

lemma os_stat_bview_Entry:
  "os_stat f (bview cs) (Entry n) =
     (if f then Inl EIO else case ifile cs n of None \<Rightarrow> Inl ENOENT | Some c \<Rightarrow> Inr (FileInfo (length c)))"
  by (simp add: os_stat_read_file ifile_def)

lemma rstep_local:
  assumes "data_path (read_name t) = Entry (read_name t)" "ifile (cfs s) (read_name t) = ifile (cfs s') (read_name t)"
  shows "rstep t s = rstep t s'"
proof (cases "rroute t")
  case ViaDownload
  with assms have "data_path (query_name (rreq t)) = Entry (query_name (rreq t))"
    "ifile (cfs s) (query_name (rreq t)) = ifile (cfs s') (query_name (rreq t))" by (simp_all add: read_name_def)
  with ViaDownload show ?thesis
    by (cases "rpc t") (simp_all add: rstep_def download_step_def Let_def os_stat_bview_Entry head_or_serve_def ServeFile_def)
next
  case ViaPublic
  with assms have "data_path (trim_prefix (url_path (rreq t)) ''/file/'') = Entry (trim_prefix (url_path (rreq t)) ''/file/'')"
    "ifile (cfs s) (trim_prefix (url_path (rreq t)) ''/file/'') = ifile (cfs s') (trim_prefix (url_path (rreq t)) ''/file/'')"
    by (simp_all add: read_name_def)
  with ViaPublic show ?thesis
    by (cases "rpc t") (simp_all add: rstep_def public_step_def Let_def os_stat_bview_Entry head_or_serve_def ServeFile_def)
qed

lemma rstep_keep: "rroute (rstep t s) = rroute t \<and> rreq (rstep t s) = rreq t \<and> renv (rstep t s) = renv t"
  by (cases "rroute t") (auto simp: rstep_def download_step_def public_step_def Let_def
      split: rpc.split if_splits sum.splits)

lemma rrun_keep: "rroute (rrun k t s) = rroute t \<and> rreq (rrun k t s) = rreq t \<and> renv (rrun k t s) = renv t"
  by (induction k arbitrary: t) (simp_all add: rstep_keep)

lemma read_name_rrun [simp]: "read_name (rrun k t s) = read_name t"
  using rrun_keep [of k t s] by (simp add: read_name_def)

lemma rrun_done: "rdone t \<Longrightarrow> rrun k t s = t"
  by (cases k) simp_all

lemma rrun_add: "rrun (a + b) t s = rrun b (rrun a t s) s"
  by (induction a arbitrary: t) (simp_all add: rrun_done)

lemma rrun_Suc_last: "rrun (Suc k) t s = (if rdone (rrun k t s) then rrun k t s else rstep (rrun k t s) s)"
  using rrun_add [of k 1 t s] by (simp add: rrun_done)

lemma rrun_two: "rpc t = RStart \<Longrightarrow> rdone (rrun 2 t s)"
  by (cases "rroute t") (auto simp: numeral_2_eq_2 rstep_def download_step_def public_step_def Let_def rdone_def
      split: if_splits sum.splits)

lemma rrun_done_eq: "rdone (rrun k t s) \<Longrightarrow> rdone (rrun j t s) \<Longrightarrow> rrun k t s = rrun j t s"
proof (induction k j rule: linorder_wlog)
  case (le a b)
  with rrun_add [of a "b - a" t s] rrun_done [of "rrun a t s" "b - a" s] show ?case by simp
qed (simp add: eq_commute)

section \<open>Writers leave alone the files they do not name\<close>

lemma ustep_names_other:
  assumes wf: "iwf (cfs s)" and st: "ustep u s = (u', s')" and m: "m \<noteq> tname u"
  shows "names (cfs s') m = names (cfs s) m"
proof (cases "tpc u")
  case UStart
  from step_start [OF this st] m show ?thesis by (auto dest: i_create_Inr [OF _ wf])
next
  case (UCreated fd)
  from step_created [OF this st] show ?thesis by (auto dest: i_write_Inr)
next
  case (UWritten fd)
  from step_written [OF this st] show ?thesis by auto
next
  case URollback
  from step_rollback [OF this st] m show ?thesis by (auto dest: i_remove_Inr)
qed (use st in \<open>simp add: ustep_def\<close>)

lemma dstep_names_other:
  assumes st: "dstep d s = (d', s')" and m: "m \<noteq> dname d"
  shows "names (cfs s') m = names (cfs s) m"
proof (cases "dpc d")
  case DStatted
  from dstep_statted [OF this st] show ?thesis
  proof (elim disjE exE conjE)
    fix cs assume rm: "i_remove_path (fault (denv d) RemoveCall) (cfs s) (data_path (dname d)) = Inr cs"
      and s': "s' = s\<lparr>cfs := cs\<rparr>"
    from i_remove_path_Inr [OF rm] m s' show ?thesis by (auto dest!: i_remove_Inr data_path_Entry)
  qed simp
qed (use dstep_start dstep_removed dstep_done st in fastforce)+

lemma tstep_ifile_other:
  assumes wf: "iwf (cfs s)" and ok: "mok s t" and st: "tstep t s = (t', s')" and n: "n \<noteq> tname_of t"
  shows "ifile (cfs s') n = ifile (cfs s) n"
proof (cases t)
  case (Up u)
  obtain u' s'' where us: "ustep u s = (u', s'')" by fastforce
  with st Up have s': "s' = s''" by simp
  note fr = ustep_frame [OF wf _ us] and nm = ustep_names_other [OF wf us]
  show ?thesis
  proof (cases "names (cfs s) n")
    case None
    with nm [of n] n Up s' show ?thesis by (simp add: ifile_def)
  next
    case (Some j)
    with fr n ok Up s' show ?thesis by (simp add: ifile_def)
  qed
next
  case (Del d)
  obtain d' s'' where ds: "dstep d s = (d', s'')" by fastforce
  with st Del have s': "s' = s''" by simp
  note fr = dstep_frame [OF wf ds] and nm = dstep_names_other [OF ds]
  show ?thesis
  proof (cases "names (cfs s) n")
    case None
    with nm [of n] n Del s' show ?thesis by (simp add: ifile_def)
  next
    case (Some j)
    with fr n Del s' show ?thesis by (simp add: ifile_def)
  qed
qed

lemma mstep_ifile_other:
  "mstep c c' \<Longrightarrow> minv c \<Longrightarrow> list_all (\<lambda>w. tname_of w \<noteq> n) (snd c) \<Longrightarrow>
   ifile (cfs (fst c')) n = ifile (cfs (fst c)) n \<and> list_all (\<lambda>w. tname_of w \<noteq> n) (snd c')"
proof (induction rule: mstep.induct)
  case (1 i ts s t' s')
  then have "iwf (cfs s)" "mok s (ts ! i)" "tname_of (ts ! i) \<noteq> n"
    by (auto simp: minv_def list_all_length)
  moreover have "list_all (\<lambda>w. tname_of w \<noteq> n) (ts[i := t'])"
    using "1.prems"(2) tstep_key [OF "1.hyps"(3)] \<open>tname_of (ts ! i) \<noteq> n\<close>
    by (auto simp: list_all_iff dest: set_update_subset_insert [THEN subsetD])
  ultimately show ?case using tstep_ifile_other [OF _ _ "1.hyps"(3)] by simp
qed

section \<open>A reader alone\<close>

section \<open>Runs with readers\<close>

lemma srun_sched_reach: "sstep\<^sup>*\<^sup>* c (srun_sched is c)"
proof (induction "is" c rule: srun_sched.induct)
  case (2 i "is" s ts rs)
  show ?case
  proof (cases "i < length ts \<and> \<not> tdone (ts ! i)")
    case True
    obtain t' s' where st: "tstep (ts ! i) s = (t', s')" by fastforce
    with True have "sstep ((s, ts), rs) ((s', ts[i := t']), rs)" by (blast intro: sstep.writer mstep.intros)
    with "2.IH"(1) [OF True st [symmetric]] True st show ?thesis
      by (simp add: converse_rtranclp_into_rtranclp)
  next
    case False
    with "2.IH"(2) [OF False] show ?thesis by (simp only: srun_sched.simps if_not_P if_False)
  qed
next
  case (3 i "is" s ts rs)
  show ?case
  proof (cases "i < length rs \<and> \<not> rdone (rs ! i)")
    case True
    then have "sstep ((s, ts), rs) ((s, ts), rs[i := rstep (rs ! i) s])" by (blast intro: sstep.reader)
    with "3.IH"(1) [OF True] True show ?thesis by (simp add: converse_rtranclp_into_rtranclp)
  next
    case False
    with "3.IH"(2) [OF False] show ?thesis by (simp only: srun_sched.simps if_not_P if_False)
  qed
qed simp

lemma read_inv_reader:
  assumes inv: "read_inv n s0 rs0 ((s, ts), rs)" and n: "data_path n = Entry n"
    and j: "j < length rs" "\<not> rdone (rs ! j)"
  shows "read_inv n s0 rs0 ((s, ts), rs[j := rstep (rs ! j) s])"
proof -
  have "\<exists>k. rs[j := rstep (rs ! j) s] ! i = rrun k (rs0 ! i) s0"
    if i: "i < length rs" "read_name (rs0 ! i) = n" for i
  proof (cases "i = j")
    case True
    from inv i obtain k where k: "rs ! i = rrun k (rs0 ! i) s0" by (auto simp: read_inv_def)
    have "rstep (rrun k (rs0 ! i) s0) s = rstep (rrun k (rs0 ! i) s0) s0"
      by (rule rstep_local) (use inv i n in \<open>simp_all add: read_inv_def\<close>)
    with k True j rrun_Suc_last [of k "rs0 ! i" s0] show ?thesis by (metis nth_list_update_eq)
  next
    case False
    with inv i show ?thesis by (auto simp: read_inv_def)
  qed
  with inv show ?thesis by (simp add: read_inv_def)
qed

lemma read_inv_run:
  assumes "sstep\<^sup>*\<^sup>* c0 c" "read_inv n s0 rs0 c0" "data_path n = Entry n"
  shows "read_inv n s0 rs0 c"
  using assms
proof (induction rule: rtranclp_induct)
  case (step c c')
  from step.hyps(2) step.IH [OF step.prems] step.prems(2) show ?case
  proof (cases rule: sstep.cases)
    case (writer c1 c1' rs)
    with step.IH [OF step.prems] mstep_minv [OF writer(3)] mstep_ifile_other [OF writer(3)] show ?thesis
      by (auto simp: read_inv_def split: prod.splits)
  next
    case (reader i rs s ts)
    with read_inv_reader step.IH [OF step.prems] step.prems(2) show ?thesis by blast
  qed
qed

text \<open>
  C14: with uploads and deletes that start as in \<open>uploads_deletes_keep_twin\<close> and none of
  which names the file \<open>n\<close>, a download or public read of \<open>n\<close> that has answered, in any
  interleaving, has answered exactly as it would alone on the state the run started
  from: the read is not disturbed by the writers.
\<close>

theorem reads_unaffected:
  assumes start: "iwf (cfs s)" "db_wf (cdb s)" "itwin s" "no_clash ts" "list_all (start_ok s) ts"
    and other: "list_all (\<lambda>w. tname_of w \<noteq> read_name r) ts" and entry: "data_path (read_name r) = Entry (read_name r)"
    and r: "i < length rs" "rs ! i = r" "rpc r = RStart"
    and run: "sstep\<^sup>*\<^sup>* ((s, ts), rs) ((s', ts'), rs')" and fin: "rdone (rs' ! i)"
  shows "rs' ! i = rrun 2 r s"
proof -
  have "read_inv (read_name r) s rs ((s, ts), rs)"
    using minv_start [OF start] other r by (auto simp: read_inv_def intro: exI [of _ 0])
  from read_inv_run [OF run this entry] r obtain k where k: "rs' ! i = rrun k r s"
    by (auto simp: read_inv_def)
  with fin rrun_done_eq [of k r s 2] rrun_two [OF r(3)] show ?thesis by simp
qed

end
