(* ===== verification/MixedProgress.thy ===== *)
theory MixedProgress
  imports MixedRuns
begin

text \<open>
  Progress of uploads and deletes interleaved (\<open>mstep\<close>). The rank of a thread counts the
  shared calls it has left: four for an upload at its start, three for a delete. Every step
  lowers the sum of the ranks, so from every state one is reachable in which every thread
  has answered (\<open>mfinish_reachable\<close>); \<open>Completion\<close> uses this for the existence of a
  complete run.
\<close>

primrec pc_rank :: "upc \<Rightarrow> nat" where
  "pc_rank UStart = 4"
| "pc_rank (UCreated _) = 3"
| "pc_rank (UWritten _) = 2"
| "pc_rank URollback = 1"
| "pc_rank (UDone _) = 0"

primrec drank :: "dpc \<Rightarrow> nat" where
  "drank DStart = 3"
| "drank DStatted = 2"
| "drank DRemoved = 1"
| "drank (DDone _) = 0"

fun trank :: "thread \<Rightarrow> nat" where
  "trank (Up u) = pc_rank (tpc u)"
| "trank (Del d) = drank (dpc d)"

definition mremaining :: "thread list \<Rightarrow> nat" where
  "mremaining ts = sum_list (map trank ts)"

section \<open>Ranks\<close>

lemma ustep_rank:
  assumes "\<not> is_done (tpc t)" and st: "ustep t s = (t', s')"
  shows "pc_rank (tpc t') < pc_rank (tpc t)"
proof (cases "tpc t")
  case UStart
  from step_start [OF this st] this show ?thesis by (cases "tpc t'") auto
next
  case (UCreated fd)
  from step_created [OF this st] this show ?thesis by (cases "tpc t'") auto
next
  case (UWritten fd)
  from step_written [OF this st] this show ?thesis by (cases "tpc t'") auto
next
  case URollback
  from step_rollback [OF this st] this show ?thesis by (cases "tpc t'") auto
qed (use assms in simp)

lemma sum_list_update_less:
  "i < length xs \<Longrightarrow> (y :: nat) < xs ! i \<Longrightarrow> sum_list (xs[i := y]) < sum_list xs"
proof (induction xs arbitrary: i)
  case (Cons x xs)
  then show ?case by (cases i) auto
qed simp

lemma dstep_rank: "\<not> tdone (Del d) \<Longrightarrow> dstep d s = (d', s') \<Longrightarrow> drank (dpc d') < drank (dpc d)"
  by (cases "dpc d") (auto simp: dstep_def Let_def split: if_splits sum.splits)

lemma tstep_rank: "\<not> tdone t \<Longrightarrow> tstep t s = (t', s') \<Longrightarrow> trank t' < trank t"
proof (cases t)
  case (Up u)
  moreover assume "\<not> tdone t" "tstep t s = (t', s')"
  ultimately show ?thesis using ustep_rank [of u s] by (auto split: prod.splits)
next
  case (Del d)
  moreover assume "\<not> tdone t" "tstep t s = (t', s')"
  ultimately show ?thesis using dstep_rank [of d s] by (auto split: prod.splits)
qed

section \<open>Steps\<close>

lemma mstep_remaining: "mstep c c' \<Longrightarrow> mremaining (snd c') < mremaining (snd c)"
proof (induction rule: mstep.induct)
  case (1 i ts s t' s')
  with tstep_rank [OF "1.hyps"(2,3)] show ?case
    by (simp add: mremaining_def map_update sum_list_update_less)
qed

lemma mstep_progress: "\<not> list_all tdone ts \<Longrightarrow> \<exists>c'. mstep (s, ts) c'"
proof -
  assume "\<not> list_all tdone ts"
  then obtain i where i: "i < length ts" "\<not> tdone (ts ! i)" by (auto simp: list_all_length)
  obtain t' s' where "tstep (ts ! i) s = (t', s')" by fastforce
  with i show ?thesis by (blast intro: mstep.intros)
qed

lemma mfinish_reachable: "\<exists>c'. mstep\<^sup>*\<^sup>* c c' \<and> list_all tdone (snd c')"
proof (induction "mremaining (snd c)" arbitrary: c rule: less_induct)
  case less
  show ?case
  proof (cases "list_all tdone (snd c)")
    case False
    then obtain c1 where c1: "mstep c c1" using mstep_progress [of "snd c" "fst c"] by auto
    from less [OF mstep_remaining [OF c1]] c1 show ?thesis
      by (meson converse_rtranclp_into_rtranclp)
  qed blast
qed


end
