(* ===== verification/Completion.thy ===== *)
theory Completion
  imports Readers MixedProgress
begin

text \<open>
  What uploads and deletes achieve together. Every thread here runs without faults, every
  upload is a \<open>POST\<close> carrying a file, and every delete names a file (not the data
  directory, \<open>data_path\<close>); the threads do not clash and start as in \<open>MixedRuns\<close>,
  on an existing data directory. Then a run in which every thread has answered exists,
  and in every such run each upload has answered 201, its bytes are exactly the file under
  its stored name, and the table records that name. The proof carries, beside the
  invariant \<open>minv\<close> of \<open>MixedRuns\<close>, what each upload has achieved at its program
  counter (\<open>upload_ok\<close>) and that no thread's request changes (\<open>same_req\<close>).
\<close>

section \<open>Fault-free threads and what an upload has achieved\<close>

fun calm :: "thread \<Rightarrow> bool" where
  "calm (Up u) \<longleftrightarrow> fault (tenv u) = (\<lambda>_. False) \<and> Method (treq u) = POST \<and> \<not> isl (form_file (treq u))"
| "calm (Del d) \<longleftrightarrow> fault (denv d) = (\<lambda>_. False) \<and> data_path (dname d) = Entry (dname d)"

definition upload_ok :: "cstate \<Rightarrow> uthread \<Rightarrow> bool" where
  "upload_ok s u \<longleftrightarrow> (case tpc u of
       UStart \<Rightarrow> idir (cfs s)
     | URollback \<Rightarrow> False
     | UDone resp \<Rightarrow> resp = upload_created (treq u) (tname u) \<and> ifile (cfs s) (tname u) = Some (tcontent u)
                   \<and> tname u \<in> recorded s
     | _ \<Rightarrow> True)"

fun tok :: "cstate \<Rightarrow> thread \<Rightarrow> bool" where
  "tok s (Up u) = upload_ok s u"
| "tok s (Del d) = True"

fun same_req :: "thread \<Rightarrow> thread \<Rightarrow> bool" where
  "same_req (Up u) (Up u') \<longleftrightarrow> tenv u' = tenv u \<and> treq u' = treq u"
| "same_req (Del d) (Del d') \<longleftrightarrow> denv d' = denv d \<and> dreq d' = dreq d"
| "same_req _ _ \<longleftrightarrow> False"

definition linv :: "thread list \<Rightarrow> cstate \<times> thread list \<Rightarrow> bool" where
  "linv ts0 c \<longleftrightarrow> (case c of (s, ts) \<Rightarrow>
     minv (s, ts) \<and> list_all calm ts \<and> list_all (tok s) ts \<and> list_all2 same_req ts0 ts)"

section \<open>Steps keep the requests\<close>

lemma ustep_keep: "ustep u s = (u', s') \<Longrightarrow> tenv u' = tenv u \<and> treq u' = treq u"
  by (auto simp: ustep_def Let_def split: upc.splits if_splits sum.splits prod.splits)

lemma dstep_req: "dstep d s = (d', s') \<Longrightarrow> denv d' = denv d \<and> dreq d' = dreq d"
  by (auto simp: dstep_def Let_def split: dpc.splits if_splits sum.splits)

lemma tstep_same_req: "tstep t s = (t', s') \<Longrightarrow> same_req t t'"
  by (cases t) (auto split: prod.splits dest: ustep_keep dstep_req)

lemma same_req_refl: "same_req t t"
  by (cases t) simp_all

lemma same_req_trans: "same_req a b \<Longrightarrow> same_req b c \<Longrightarrow> same_req a c"
  by (cases a; cases b; cases c) simp_all

lemma same_req_calm: "same_req t t' \<Longrightarrow> calm t \<Longrightarrow> calm t'"
  by (cases t; cases t') (simp_all add: dname_def)

lemma same_req_upload:
  "same_req (Up u) t \<Longrightarrow> \<exists>u'. t = Up u' \<and> tname u' = tname u \<and> tcontent u' = tcontent u \<and> treq u' = treq u"
  by (cases t) (auto simp: tname_def tcontent_def split: sum.splits)

section \<open>Steps of other threads\<close>

lemma i_create_idir: "i_create f cs n = Inr (fd, cs1) \<Longrightarrow> idir cs1 = idir cs"
  by (auto simp: i_create_def Let_def split: if_splits option.splits)

lemma tstep_idir: "calm t \<Longrightarrow> tstep t s = (t', s') \<Longrightarrow> idir (cfs s') = idir (cfs s)"
proof (cases t)
  case (Up u)
  assume "tstep t s = (t', s')"
  with Up obtain u' where st: "ustep u s = (u', s')" by (auto split: prod.splits)
  show ?thesis
  proof (cases "tpc u")
    case UStart
    from step_start [OF this st] show ?thesis by (auto dest: i_create_idir)
  next
    case (UCreated fd)
    from step_created [OF this st] show ?thesis by (auto dest: i_write_Inr)
  next
    case (UWritten fd)
    from step_written [OF this st] show ?thesis by auto
  next
    case URollback
    from step_rollback [OF this st] show ?thesis by (auto dest: i_remove_Inr)
  qed (use st in \<open>simp add: ustep_def\<close>)
next
  case (Del d)
  assume calm: "calm t" and "tstep t s = (t', s')"
  with Del obtain d' where st: "dstep d s = (d', s')" by (auto split: prod.splits)
  show ?thesis
  proof (cases "dpc d")
    case DStatted
    from dstep_statted [OF this st] show ?thesis
    proof (elim disjE exE conjE)
      fix cs assume rm: "i_remove_path (fault (denv d) RemoveCall) (cfs s) (data_path (dname d)) = Inr cs"
        and s': "s' = s\<lparr>cfs := cs\<rparr>"
      from i_remove_path_Inr [OF rm] calm Del s' show ?thesis by (auto dest: i_remove_Inr)
    qed simp
  qed (use dstep_start dstep_removed dstep_done st in fastforce)+
qed

lemma tstep_recorded_other:
  assumes st: "tstep t s = (t', s')" and n: "n \<noteq> tname_of t" and r: "n \<in> recorded s"
  shows "n \<in> recorded s'"
proof (cases t)
  case (Up u)
  with st obtain u' where us: "ustep u s = (u', s')" by (auto split: prod.splits)
  have "cdb s' = cdb s \<or> (\<exists>f now o' m sz a. InsertFile f now (cdb s) o' m sz a = Inr (cdb s'))"
    using us by (auto simp: ustep_def Let_def split: upc.splits if_splits sum.splits prod.splits)
  with r show ?thesis by (auto simp: recorded_def dest: InsertFile_Inr)
next
  case (Del d)
  with st obtain d' where ds: "dstep d s = (d', s')" by (auto split: prod.splits)
  have "cdb s' = cdb s \<or> (\<exists>f. DB_DeleteFile f (cdb s) (dname d) = Inr (cdb s'))"
    using ds by (auto simp: dstep_def Let_def split: dpc.splits if_splits sum.splits)
  with r n Del show ?thesis by (auto simp: recorded_def dest: DB_DeleteFile_Inr)
qed

lemma upload_ok_other:
  assumes wf: "iwf (cfs s)" and ok: "mok s t" and calm: "calm t" and st: "tstep t s = (t', s')"
    and n: "tname_of t \<noteq> tname u" and uo: "upload_ok s u"
  shows "upload_ok s' u"
  using uo tstep_idir [OF calm st] tstep_ifile_other [OF wf ok st, of "tname u"]
    tstep_recorded_other [OF st, of "tname u"] n
  by (auto simp: upload_ok_def split: upc.splits)


section \<open>The upload's own steps\<close>

lemma upload_ok_self:
  assumes ok: "thread_ok s u" and uo: "upload_ok s u" and calm: "calm (Up u)"
    and nd: "\<not> is_done (tpc u)" and st: "ustep u s = (u', s')"
  shows "upload_ok s' u'"
proof -
  from calm obtain f c where ff: "fault (tenv u) = (\<lambda>_. False)" and post: "Method (treq u) = POST"
    and form: "form_file (treq u) = Inr (f, c)" by (cases "form_file (treq u)") auto
  show ?thesis
  proof (cases "tpc u")
    case UStart
    with uo have "idir (cfs s)" by (simp add: upload_ok_def)
    with UStart st ff post form show ?thesis
      by (auto simp: ustep_def Let_def i_create_def upload_ok_def split: option.splits)
  next
    case (UCreated fd)
    with ok have "inodes (cfs s) fd = Some []" by (simp add: thread_ok_def)
    with UCreated st ff show ?thesis by (auto simp: ustep_def i_write_def upload_ok_def)
  next
    case (UWritten fd)
    with ok have o: "tname u \<notin> recorded s" "idir (cfs s)" "names (cfs s) (tname u) = Some fd"
      "inodes (cfs s) fd = Some (tcontent u)" by (simp_all add: thread_ok_def)
    then obtain db' where ins: "InsertFile (fault (tenv u) InsertCall) (db_clock (tenv u)) (cdb s) (torig u) (tname u)
        (int (length (tcontent u))) (remote_addr (treq u)) = Inr db'"
      using ff by (simp add: InsertFile_def recorded_def Let_def)
    with UWritten st have "u' = u\<lparr>tpc := UDone (upload_created (treq u) (tname u))\<rparr>" "s' = s\<lparr>cdb := db'\<rparr>"
      by (simp_all add: ustep_def Let_def)
    with o recorded_insert [OF ins] show ?thesis by (simp add: upload_ok_def ifile_def)
  qed (use uo nd in \<open>simp_all add: upload_ok_def\<close>)
qed


section \<open>Runs\<close>

lemma tok_step:
  assumes inv: "minv (s, ts)" and calm: "list_all calm ts" and tk: "list_all (tok s) ts"
    and i: "i < length ts" "\<not> tdone (ts ! i)" and st: "tstep (ts ! i) s = (t', s')" and j: "j < length ts"
  shows "tok s' (ts[i := t'] ! j)"
proof -
  from inv have wf: "iwf (cfs s)" and ok: "list_all (mok s) ts" and nc: "no_clash ts"
    by (simp_all add: minv_def)
  show ?thesis
  proof (cases "j = i")
    case True
    show ?thesis
    proof (cases "ts ! i")
      case (Up u)
      with st obtain u' where us: "ustep u s = (u', s')" "t' = Up u'" by (auto split: prod.splits)
      from ok tk calm i Up have "thread_ok s u" "upload_ok s u" "calm (Up u)"
        by (auto simp: list_all_length dest: spec [of _ i])
      from upload_ok_self [OF this _ us(1)] i(2) Up us(2) True i(1) show ?thesis by simp
    next
      case (Del d)
      with st True i(1) show ?thesis by (auto split: prod.splits)
    qed
  next
    case False
    show ?thesis
    proof (cases "ts ! j")
      case (Up w)
      from ok calm i(1) have "mok s (ts ! i)" "calm (ts ! i)" by (simp_all add: list_all_length)
      moreover have "tname_of (ts ! i) \<noteq> tname w"
      proof -
        from nc i(1) j False have "\<not> clash (ts ! j) (ts ! i)" by (simp add: no_clash_def)
        with Up show ?thesis by (auto simp: clash_def)
      qed
      moreover from tk j Up have "upload_ok s w" by (auto simp: list_all_length dest: spec [of _ j])
      ultimately have "upload_ok s' w" by (rule upload_ok_other [OF wf _ _ st])
      with False Up show ?thesis by simp
    qed (use False in simp)
  qed
qed

lemma mstep_linv: "mstep c c' \<Longrightarrow> linv ts0 c \<Longrightarrow> linv ts0 c'"
proof (induction rule: mstep.induct)
  case (1 i ts s t' s')
  have step: "mstep (s, ts) (s', ts[i := t'])" using "1.hyps" by (rule mstep.intros)
  from "1.prems" have inv: "minv (s, ts)" and calm: "list_all calm ts" and tk: "list_all (tok s) ts"
    and sr: "list_all2 same_req ts0 ts" by (simp_all add: linv_def)
  have same: "same_req (ts ! i) t'" by (rule tstep_same_req [OF "1.hyps"(3)])
  have "list_all calm (ts[i := t'])"
    using calm same_req_calm [OF same] "1.hyps"(1) by (auto simp: list_all_length nth_list_update)
  moreover have "list_all (tok s') (ts[i := t'])"
    using tok_step [OF inv calm tk "1.hyps"] by (simp add: list_all_length)
  moreover have "list_all2 same_req ts0 (ts[i := t'])"
    using sr same same_req_trans "1.hyps"(1)
    by (auto simp: list_all2_conv_all_nth nth_list_update)
  ultimately show ?case using mstep_minv [OF step inv] by (simp add: linv_def)
qed

lemma reach_linv: "mstep\<^sup>*\<^sup>* c c' \<Longrightarrow> linv ts0 c \<Longrightarrow> linv ts0 c'"
  by (induction rule: rtranclp_induct) (auto intro: mstep_linv)

lemma linv_start:
  assumes "iwf (cfs s)" "db_wf (cdb s)" "itwin s" "idir (cfs s)" "no_clash ts" "list_all (start_ok s) ts"
    and "list_all calm ts"
  shows "linv ts (s, ts)"
proof -
  have "tok s t" if "t \<in> set ts" for t
  proof -
    from that assms(6) have "start_ok s t" by (simp add: list_all_iff)
    with assms(4) show ?thesis by (cases t) (simp_all add: upload_ok_def)
  qed
  moreover have "list_all2 same_req ts ts" by (simp add: list_all2_conv_all_nth same_req_refl)
  ultimately show ?thesis using minv_start [OF assms(1-3,5,6)] assms(7) by (simp add: linv_def list_all_iff)
qed

lemma linv_final:
  assumes inv: "linv ts0 (s', ts')" and fin: "list_all tdone ts'" and i: "i < length ts0" and u: "ts0 ! i = Up u"
  shows "answered (ts' ! i) = Some (upload_created (treq u) (tname u))
         \<and> ifile (cfs s') (tname u) = Some (tcontent u) \<and> tname u \<in> recorded s'"
proof -
  from inv have "list_all2 same_req ts0 ts'" by (simp add: linv_def)
  then have len: "length ts' = length ts0" and "same_req (ts0 ! i) (ts' ! i)"
    using i by (simp_all add: list_all2_conv_all_nth)
  with u have "same_req (Up u) (ts' ! i)" by simp
  from same_req_upload [OF this] obtain u' where
    u': "ts' ! i = Up u'" "tname u' = tname u" "tcontent u' = tcontent u" "treq u' = treq u" by blast
  from inv i len u' have "upload_ok s' u'" by (auto simp: linv_def list_all_length dest: spec [of _ i])
  moreover have "is_done (tpc u')"
  proof -
    from fin i len have "tdone (ts' ! i)" by (simp add: list_all_length)
    with u'(1) show ?thesis by simp
  qed
  ultimately show ?thesis using u' by (cases "tpc u'") (simp_all add: upload_ok_def)
qed

section \<open>Every upload completes\<close>

text \<open>
  C13: fault-free uploads (each a \<open>POST\<close> carrying a file) and deletes of files, none of
  which clash, started on an existing data directory in a state that satisfies the twin
  invariant: some interleaving lets every thread answer, and in every interleaving in which
  every thread has answered, each upload has answered 201 with its stored name, the file
  under that name holds exactly the bytes it sent, and the table records the name.
\<close>

theorem uploads_complete:
  assumes start: "iwf (cfs s)" "db_wf (cdb s)" "itwin s" "idir (cfs s)" "no_clash ts" "list_all (start_ok s) ts"
    and calm: "list_all calm ts"
  shows "(\<exists>c'. mstep\<^sup>*\<^sup>* (s, ts) c' \<and> list_all tdone (snd c'))
       \<and> (\<forall>s' ts'. mstep\<^sup>*\<^sup>* (s, ts) (s', ts') \<longrightarrow> list_all tdone ts' \<longrightarrow>
            (\<forall>i < length ts. \<forall>u. ts ! i = Up u \<longrightarrow>
               answered (ts' ! i) = Some (upload_created (treq u) (tname u))
               \<and> ifile (cfs s') (tname u) = Some (tcontent u) \<and> tname u \<in> recorded s'))"
  using mfinish_reachable [of "(s, ts)"] linv_final [OF reach_linv [OF _ linv_start [OF start calm]]]
  by auto

end
