(* ===== verification/SmokeTest.thy ===== *)
theory SmokeTest
  imports Database
begin

text \<open>
  The database smoke test, \<open>src/test_db.go\<close>: a program that removes \<open>test.db\<close>, opens
  a new database and runs insert, lookup, listing, delete and a final lookup against it,
  printing a line per step and stopping at the first error. Its output is a list of
  printed items (\<open>smoke_out\<close>); the value printed by \<open>%v\<close> or \<open>%+v\<close> is kept as a value
  rather than rendered. The I/O calls fail where \<open>fault\<close> says so; \<open>os.Remove\<close> of an
  existing \<open>test.db\<close> that fails leaves the old database (\<open>old\<close>) to be opened.
\<close>

datatype smoke_call = SmokeRemove | SmokeNewDB | SmokeInsert | SmokeGet | SmokeAll | SmokeDelete | SmokeVerify

datatype smoke_out =
    Println string
  | PrintRecord string FileRecord
  | PrintRecords string "FileRecord list option"
  | PrintErr string db_error

definition test_db :: "(smoke_call \<Rightarrow> bool) \<Rightarrow> timestamp \<Rightarrow> DB option \<Rightarrow> smoke_out list" where
  "test_db fault now old =
     (case NewDB (fault SmokeNewDB) (if fault SmokeRemove then old else None) of
        Inl err \<Rightarrow> [PrintErr ''Error creating database: '' err]
      | Inr db \<Rightarrow> Println ''Inserting a test file record...'' #
          (case InsertFile (fault SmokeInsert) now db ''original_test.txt'' ''stored_test.txt'' 1024 ''127.0.0.1:12345'' of
             Inl err \<Rightarrow> [PrintErr ''Error inserting file: '' err]
           | Inr db1 \<Rightarrow> Println ''Retrieving the file record...'' #
               (case GetFileByStoredName (fault SmokeGet) db1 ''stored_test.txt'' of
                  Inl err \<Rightarrow> [PrintErr ''Error getting file: '' err]
                | Inr record \<Rightarrow> PrintRecord ''Retrieved file: '' record # Println ''Getting all files...'' #
                    (case GetAllFiles (fault SmokeAll) db1 of
                       Inl err \<Rightarrow> [PrintErr ''Error getting all files: '' err]
                     | Inr allFiles \<Rightarrow> PrintRecords ''All files: '' allFiles # Println ''Deleting the file record...'' #
                         (case DB_DeleteFile (fault SmokeDelete) db1 ''stored_test.txt'' of
                            Inl err \<Rightarrow> [PrintErr ''Error deleting file: '' err]
                          | Inr db2 \<Rightarrow>
                              (case GetFileByStoredName (fault SmokeVerify) db2 ''stored_test.txt'' of
                                 Inl err \<Rightarrow> [PrintErr ''Successfully confirmed file was deleted: '' err]
                               | Inr _ \<Rightarrow> [])
                              @ [Println ''Database test completed successfully!''])))))"

definition smoke_record :: "timestamp \<Rightarrow> int \<Rightarrow> FileRecord" where
  "smoke_record now i = \<lparr>ID = i, OriginalName = ''original_test.txt'', StoredName = ''stored_test.txt'',
                          UploadTime = now, FileSize = 1024, UploadAddr = ''127.0.0.1:12345''\<rparr>"

definition smoke_stored :: "DB option \<Rightarrow> bool" where
  "smoke_stored old \<longleftrightarrow> (case old of None \<Rightarrow> False | Some d \<Rightarrow> ''stored_test.txt'' \<in> set (map StoredName (rows d)))"

section \<open>What the smoke test prints\<close>

lemma smoke_insert:
  "InsertFile f now db o' s sz a = Inr db1 \<longleftrightarrow>
     \<not> f \<and> s \<notin> set (map StoredName (rows db)) \<and>
     db1 = \<lparr>rows = rows db @ [\<lparr>ID = next_rowid db, OriginalName = o', StoredName = s,
                                 UploadTime = now, FileSize = sz, UploadAddr = a\<rparr>], seq = next_rowid db\<rparr>"
  by (auto simp: InsertFile_def Let_def)

lemma find_snoc: "\<not> (\<exists>x\<in>set xs. P x) \<Longrightarrow> find P (xs @ [y]) = (if P y then Some y else None)"
  by (induction xs) auto

lemma smoke_lookup_new:
  "s \<notin> set (map StoredName (rows db)) \<Longrightarrow>
   GetFileByStoredName f (\<lparr>rows = rows db @ [r], seq = i\<rparr>) s = (if f then Inl ErrEngine else if StoredName r = s then Inr r else Inl ErrNotFound)"
proof -
  assume "s \<notin> set (map StoredName (rows db))"
  then have "\<not> (\<exists>x\<in>set (rows db). StoredName x = s)" by (auto simp: image_iff)
  then show ?thesis by (simp add: GetFileByStoredName_def find_snoc)
qed

lemma smoke_delete_new:
  "s \<notin> set (map StoredName (rows db)) \<Longrightarrow> StoredName r = s \<Longrightarrow>
   DB_DeleteFile f (\<lparr>rows = rows db @ [r], seq = i\<rparr>) s = (if f then Inl ErrEngine else Inr \<lparr>rows = rows db, seq = i\<rparr>)"
proof -
  assume s: "s \<notin> set (map StoredName (rows db))" and r: "StoredName r = s"
  then have "filter (\<lambda>r. StoredName r \<noteq> s) (rows db) = rows db" by (intro filter_True) (auto simp: image_iff)
  with r show ?thesis by (simp add: DB_DeleteFile_def Let_def)
qed

text \<open>With no failing call, the test prints its eight lines; the record it reads back is the one it inserted.\<close>

theorem test_db_clean_run:
  "test_db (\<lambda>_. False) now old =
     [Println ''Inserting a test file record...'', Println ''Retrieving the file record...'',
      PrintRecord ''Retrieved file: '' (smoke_record now 1), Println ''Getting all files...'',
      PrintRecords ''All files: '' (Some [smoke_record now 1]), Println ''Deleting the file record...'',
      PrintErr ''Successfully confirmed file was deleted: '' ErrNotFound,
      Println ''Database test completed successfully!'']"
  by (simp add: test_db_def NewDB_def empty_db_def InsertFile_def Let_def next_rowid_def max_rowid_def
      GetFileByStoredName_def GetAllFiles_def DB_DeleteFile_def smoke_record_def)

text \<open>
  C30: the test reports success exactly when its first five database calls succeed; the
  final lookup, its only check that the delete worked, cannot make it fail: any error of
  that lookup, an engine failure included, is printed as confirmation.
\<close>

theorem test_db_completes:
  "last (test_db fault now old) = Println ''Database test completed successfully!'' \<longleftrightarrow>
     \<not> fault SmokeNewDB \<and> \<not> fault SmokeInsert \<and> \<not> (fault SmokeRemove \<and> smoke_stored old)
     \<and> \<not> fault SmokeGet \<and> \<not> fault SmokeAll \<and> \<not> fault SmokeDelete"
proof -
  define D where "D = (if fault SmokeRemove then (case old of None \<Rightarrow> empty_db | Some d \<Rightarrow> d) else empty_db)"
  have opened: "NewDB (fault SmokeNewDB) (if fault SmokeRemove then old else None)
                  = (if fault SmokeNewDB then Inl ErrEngine else Inr D)"
    by (simp add: NewDB_def D_def)
  have stored: "''stored_test.txt'' \<in> set (map StoredName (rows D)) \<longleftrightarrow> fault SmokeRemove \<and> smoke_stored old"
    by (auto simp: D_def smoke_stored_def empty_db_def split: option.splits)
  let ?ins = "InsertFile (fault SmokeInsert) now D ''original_test.txt'' ''stored_test.txt'' 1024 ''127.0.0.1:12345''"
  consider (no_db) "fault SmokeNewDB"
    | (no_insert) "\<not> fault SmokeNewDB" "fault SmokeInsert \<or> ''stored_test.txt'' \<in> set (map StoredName (rows D))"
    | (inserted) "\<not> fault SmokeNewDB" "\<not> fault SmokeInsert" "''stored_test.txt'' \<notin> set (map StoredName (rows D))"
    by blast
  then show ?thesis
  proof cases
    case no_db
    then show ?thesis unfolding test_db_def opened by simp
  next
    case no_insert
    then have "?ins = Inl (if fault SmokeInsert then ErrEngine else ErrConstraintUnique)"
      by (auto simp: InsertFile_def)
    with no_insert stored show ?thesis unfolding test_db_def opened by auto
  next
    case inserted
    define r where "r = \<lparr>ID = next_rowid D, OriginalName = ''original_test.txt'', StoredName = ''stored_test.txt'',
                         UploadTime = now, FileSize = 1024, UploadAddr = ''127.0.0.1:12345''\<rparr>"
    have ins: "?ins = Inr \<lparr>rows = rows D @ [r], seq = next_rowid D\<rparr>"
      using inserted by (simp add: smoke_insert r_def)
    have o: "NewDB (fault SmokeNewDB) (if fault SmokeRemove then old else None) = Inr D"
      using inserted opened by simp
    from inserted stored show ?thesis
      unfolding test_db_def o sum.case ins
      by (simp add: smoke_lookup_new smoke_delete_new r_def GetAllFiles_def Let_def
          split: sum.split)
  qed
qed

end
