(* ===== verification/Spec2Isabelle.thy ===== *)
theory Spec2Isabelle
  imports Router Completion SmokeTest
begin

text \<open>
  \<^bold>\<open>A verification development for the uploads service.\<close>

  The program (Go, \<open>src/\<close>) is an authenticated file store: clients upload files over
  HTTP, the bytes go to a data directory under a generated name and a record of the
  upload (original name, generated name, time, size, client address) goes to an SQLite
  table; clients list, download and delete by the generated name, and a public route
  serves a file by name.

  \<^bold>\<open>Parts and theories.\<close>
  \<^item> \<open>Prelude\<close>: the types (\<open>byte = 8 word\<close>, \<open>bytes\<close>, clock readings), the lemma
    collections \<open>name_simps\<close> and \<open>store_simps\<close>, generic list lemmas.
  \<^item> \<open>PathSafety\<close>: the traversal check \<open>strings.Contains(name, "..") ||
    strings.Contains(name, "/")\<close> of \<open>handlers.go\<close> (\<open>unsafe_name\<close>), over a model of
    Go's \<open>strings.Index\<close> with its dispatch on the pattern length, proved equal to the
    substring relation \<open>sublist\<close>; \<open>strings.TrimPrefix\<close>.
  \<^item> \<open>Naming\<close>: the naming scheme of \<open>UploadFile\<close> (\<open>handlers.go\<close> lines 80--83):
    \<open>filepath.Ext\<close> (\<open>Ext\<close>, the library's backward scan), \<open>%d\<close> (\<open>fmt_int\<close>) and
    \<open>new_filename\<close>. Proved: stored names pass the traversal check; the second and the
    extension can be read back from a name (so names collide exactly when both agree);
    a closed form of \<open>Ext\<close>.
  \<^item> \<open>ByteStore\<close>: the data directory reached through \<open>filepath.Join(DataDir, name)\<close>
    (\<open>data_path\<close>: the names \<open>""\<close> and \<open>"."\<close> denote the directory itself) and the
    \<open>os\<close> calls \<open>os.Stat\<close>, \<open>os.Create\<close>, \<open>Write\<close>, \<open>os.Remove\<close>, modelled from their
    POSIX behaviour (they are not part of the repository). The state is a record of the
    directory's existence and size and a finite map (\<open>mapping\<close>) from name to bytes.
  \<^item> \<open>Database\<close>: \<open>database.go\<close>: the table as the rowid-ordered list of
    \<open>FileRecord\<close>s plus the \<open>AUTOINCREMENT\<close> sequence; \<open>NewDB\<close>, \<open>InsertFile\<close>,
    \<open>GetFileByStoredName\<close>, \<open>GetAllFiles\<close> and \<open>DeleteFile\<close> (here \<open>DB_DeleteFile\<close>).
    Proved: the table invariant (\<open>db_wf\<close>) and its preservation; that the methods
    refine the abstract store of spec section 4.2, a map from stored name to record
    (\<open>db_index\<close>); the listing is a sorted
    permutation.
  \<^item> \<open>Handlers\<close>: the storage coordinator, \<open>handlers.go\<close>: \<open>UploadFile\<close>,
    \<open>ListFiles\<close>, \<open>DownloadFile\<close>, \<open>PublicFileAccess\<close>, \<open>DeleteFile\<close>, each the
    whole Go function, composed from the pieces above, and \<open>http.ServeFile\<close>
    (library, modelled from its documentation). A handler is a function of an
    environment (\<open>env\<close>: the two clock readings and which I/O call sites fail), the
    request and the \<open>server_state\<close> (data directory and table) to the response and the
    next state; every \<open>http.Error\<close> and early return is a branch. Proved: the
    twin-existence invariant of spec I2 (\<open>state_wf\<close>: every record has its bytes, of
    the recorded size) is kept by every upload whose generated name is not yet recorded
    and by every delete whose metadata step does not fail, under any other faults;
    delete removes both representations; names with \<open>..\<close> or \<open>/\<close> are rejected by
    all three routes before any access; listing answers an array, never \<open>null\<close>.
  \<^item> \<open>Config\<close>: \<open>config.go\<close>: the \<open>Config\<close> record, \<open>ServerAddr\<close> and \<open>LoadConfig\<close>
    with its defaults (\<open>with_defaults\<close>); reading the file is an input and
    \<open>json.Unmarshal\<close> a parameter. Proved: a loaded configuration always has a data
    directory, a database path and a nonzero port and keeps every field the file sets;
    the listen address reads back to the port; the two error paths.
  \<^item> \<open>Login\<close>: \<open>Handler.Login\<close>, with MD5 as a parameter and \<open>hex.EncodeToString\<close>
    on \<open>8 word\<close> bytes (\<open>drop_bit\<close>, \<open>AND\<close>); the encoding's round trips with the
    decoder. Proved: when a login returns the API key, and that a configured hash with
    upper-case digits admits nobody.
  \<^item> \<open>Middleware\<close>: \<open>middleware.go\<close>: a handler is a function of environment, request
    and state (\<open>handler\<close>); \<open>APIKeyMiddleware\<close> and \<open>CORSMiddleware\<close> map handlers
    to handlers. Lemmas on what the gate answers and on which handlers are read-only.
  \<^item> \<open>Router\<close>: \<open>main.go\<close>: the route table as \<open>ServeHTTP\<close> (the \<open>ServeMux\<close> path
    cleaning and \<open>/file\<close> redirect modelled from \<open>net/http\<close>, the static asset server a
    parameter), start-up as \<open>main_startup\<close>, and \<open>reach\<close>, the inductive set of states
    a freshly started server reaches by a sequence of requests. Proved: auth gating on
    the four protected routes, key independence of all others, the preflight answer,
    the public route's indifference to the method, and that every state reached by
    benign requests keeps the invariants (rule induction over \<open>reach\<close>).
  \<^item> \<open>Concurrency\<close>: the race of spec section 5. Go serves every request on its own
    goroutine, so the calls of concurrent uploads interleave. An upload is a thread
    (\<open>uthread\<close>: environment, request, program counter \<open>upc\<close>) whose atomic steps
    (\<open>ustep\<close>) are the calls of \<open>UploadFile\<close> on shared state: \<open>os.Create\<close>,
    \<open>Write\<close>, \<open>InsertFile\<close> and the rollback \<open>os.Remove\<close> (\<open>handlers.go\<close> lines
    94--114). The directory is an inode store (\<open>istore\<close>): a second \<open>os.Create\<close> of a
    name truncates the same inode, \<open>Write\<close> writes at offset 0 of its descriptor, and
    \<open>os.Remove\<close> unlinks the name. \<open>cstep\<close> steps any unfinished thread.
  \<^item> \<open>Interleaving\<close>: every run of \<open>cstep\<close>. The invariant \<open>cinv\<close> couples the shared
    state with what each thread owns at its program counter (\<open>thread_ok\<close>); it is
    preserved by every step when stored names are distinct, so such uploads keep the
    twin invariant in every interleaving. \<open>run_sched\<close> runs an explicit schedule.
  \<^item> \<open>DeleteRace\<close>: deletes as threads too (\<open>dthread\<close>, \<open>dstep\<close>: the calls
    \<open>os.Stat\<close>, \<open>os.Remove\<close>, \<open>db.DeleteFile\<close> of \<open>DeleteFile\<close>, lines 241--286), a
    server thread is an upload or a delete (\<open>thread\<close>), and \<open>mstep\<close> interleaves
    them; restricted to uploads it is \<open>cstep\<close> (\<open>mstep_uploads\<close>).
  \<^item> \<open>MixedRuns\<close>: every run of \<open>mstep\<close>, in the rely-guarantee style of
    \<open>Interleaving\<close>. Threads clash when they have the same stored name and one is an
    upload (\<open>clash\<close>, \<open>no_clash\<close>); a delete between its \<open>os.Remove\<close> and its
    \<open>db.DeleteFile\<close> holds its name in \<open>removing\<close>. The invariant \<open>minv\<close> is the twin
    invariant except for those names (\<open>itwin_but\<close>), plus what each thread owns
    (\<open>mok\<close>); every step preserves it (\<open>mstep_minv\<close>), so uploads and deletes that do
    not clash, with no failing table delete, keep the twin invariant outright once all
    have answered (\<open>uploads_deletes_keep_twin\<close>). \<open>delete_race\<close> is a clash, and
    \<open>DeleteFile_orphan_record\<close> a failing table delete: neither side condition can go.
  \<^item> \<open>MixedProgress\<close>: the calls each thread has left (\<open>pc_rank\<close>, \<open>drank\<close>)
    fall with every \<open>mstep\<close>, so from every state one where every thread has answered
    is reachable (\<open>mfinish_reachable\<close>), which \<open>Completion\<close> uses.
  \<^item> \<open>Readers\<close>: \<open>DownloadFile\<close> and \<open>PublicFileAccess\<close> as threads
    (\<open>rthread\<close>; \<open>download_step\<close>, \<open>public_step\<close>) whose two steps are
    \<open>os.Stat\<close> and then \<open>http.ServeFile\<close> (or the second \<open>os.Stat\<close> of a
    \<open>HEAD\<close>), run on the byte store the inode store denotes (\<open>bview\<close>); \<open>sstep\<close>
    interleaves them with \<open>mstep\<close>, and a reader's step changes no shared state.
    Proved: uploads and deletes leave alone every file they do not name (\<open>tstep_ifile_other\<close>), so a read
    of such a file answers in every interleaving as it would alone at the start
    (\<open>reads_unaffected\<close>).
  \<^item> \<open>Completion\<close>: what fault-free uploads and deletes that do not clash achieve
    together (\<open>calm\<close>: no fault, every upload a \<open>POST\<close> with a file, every delete
    naming a file). Beside \<open>minv\<close>, the invariant \<open>linv\<close> records what each upload
    has achieved at its program counter (\<open>upload_ok\<close>: at its start the directory
    exists, it never reaches the rollback, and once answered its answer is 201, its
    bytes are the file under its name and the table records the name). Proved: a run
    in which every thread answers exists, and in every such run each upload has
    answered 201 with its bytes stored and recorded (\<open>uploads_complete\<close>).
  \<^item> \<open>SmokeTest\<close>: \<open>test_db.go\<close>, the database smoke test, as the list of items it
    prints (\<open>test_db\<close>), with a fault flag per call and the database left by an earlier
    run in case \<open>os.Remove\<close> fails. Proved: the output of a clean run, and that the test
    reports success exactly when its first five calls succeed: its final check never
    fails.
  \<^item> This theory: the header, the properties that span components (an upload can be
    read back by either read route; the same-name and delete races run under explicit schedules) and the witnesses of every theorem with hypotheses, on the
    concrete states below.

  \<^bold>\<open>Findings the theorems establish.\<close>
  \<^item> \<open>UploadFile_collision\<close>: two uploads in the same second with the same extension
    collide even when they are sequential: the second overwrites the first's bytes,
    fails on the uniqueness constraint, and its rollback \<open>os.Remove\<close> deletes the
    file, leaving the first upload's record with no bytes (spec I2 broken). The spec
    describes this only for concurrent uploads.
  \<^item> \<open>same_name_race\<close>: interleaved, two such uploads share one inode; the shorter
    write lands over the longer, so the first upload's record (answered 201) names bytes
    that neither client sent, and the second's rollback then unlinks the file.
  \<^item> \<open>delete_race\<close>: stored names are predictable, and a delete of the name an upload
    is about to record, interleaved with it, unlinks the new file, swallows the missing
    record, and answers 200; the upload then records the name and answers 201, leaving a
    record with no file (spec I2 broken with both clients told of success).
  \<^item> \<open>download_during_upload\<close>: an upload creates its file before it writes the
    bytes, and a download only checks that the file exists: a download of the name in
    between answers 200 with an empty file, and the upload then answers 201.
  \<^item> \<open>download_unlisted_codes\<close>: the download route answers 301 (the name \<open>.\<close>
    passes the traversal check and names the data directory) and 500 (an open failure
    in \<open>http.ServeFile\<close>, or a stat error other than not-found, which is not rejected);
    the spec's table lists neither for it.
  \<^item> \<open>test_db_completes\<close>: the smoke test's check that the delete worked cannot
    fail: any error of the final lookup, an engine failure included, is printed as
    confirmation, and a record that survived would only skip that line.
  \<^item> \<open>DeleteFile_empty_name_removes_dir\<close>: the delete route has no empty-name check;
    \<open>filepath.Join(DataDir, "")\<close> is the data directory, which \<open>os.Remove\<close> deletes
    when empty, after which every upload fails.
  \<^item> \<open>DeleteFile_orphan_record\<close>: a failing metadata delete is swallowed, leaving an
    orphan record (as the spec says).
  \<^item> \<open>public_any_method\<close>: the public route has no method check and serves the file
    to \<open>POST\<close>, \<open>PUT\<close>, \<open>DELETE\<close> and \<open>OPTIONS\<close> as to \<open>GET\<close>.
  \<^item> \<open>Login_case_sensitive_hash\<close>: the password check compares lower-case hex strings,
    so a configured hash written in upper case locks every user out.

  \<^bold>\<open>Modelling choices.\<close> No loop of the program is unbounded: the scans of
  \<open>Ext\<close>, \<open>Index\<close> and the decimal rendering are structural recursions, and no fuel is
  needed. A thread makes at most four calls (an upload) or three (a delete), so every
  run of threads is finite. Go's \<open>int64\<close> values (the Unix second, file sizes, ids) are \<open>int\<close>: a
  size is the length of an in-memory buffer and a second a clock reading, neither near
  the bound. Faults are an input (\<open>fault\<close>), one per call site, so every error path is a
  reachable branch. Time values written by the database are abstract integers ordered
  like the clock. Error texts appended from \<open>err.Error()\<close> are omitted.

  \<^bold>\<open>Not modelled.\<close> A list request as a thread (it makes one table read, so it is
  atomic); the open, stat and copy inside \<open>http.ServeFile\<close> as separate steps (it is one
  step of a reader); HTTP range and conditional requests of
  \<open>http.ServeFile\<close> (206, 304, 412, 416), its \<open>Content-Type\<close> and \<open>Last-Modified\<close>
  headers, and its 403 on a permission error (an open failure answers 500 here); the
  static asset server (\<open>http.FileServer\<close>, a parameter);
  multipart parsing (its size argument is a memory threshold, not a size cap);
  \<open>ListenAndServe\<close> and logging, which are I/O without a modelled effect;
  \<open>db.Close\<close>, which releases the connection and changes no modelled state (in
  \<open>main.go\<close> the deferred call never runs: the only ways out of \<open>main\<close> are
  \<open>log.Fatal\<close> calls, and \<open>os.Exit\<close> skips deferred calls); \<open>NewHandler\<close>, which
  only pairs the configuration with the database;
  the query string of redirect locations; the formatting of values printed by
  \<open>test_db.go\<close> (kept as values).
\<close>

section \<open>Concrete states for the witnesses\<close>

definition ex_record :: FileRecord where
  "ex_record = \<lparr>ID = 1, OriginalName = ''a.txt'', StoredName = ''1700000000.txt'',
                 UploadTime = 5, FileSize = 2, UploadAddr = ''10.0.0.1:5000''\<rparr>"

definition ex_state :: server_state where
  "ex_state =
     \<lparr>fsys = \<lparr>dir_exists = True, dir_size = 4096,
               files = Mapping.update ''1700000000.txt'' [104, 105] Mapping.empty\<rparr>,
      dbase = \<lparr>rows = [ex_record], seq = 1\<rparr>\<rparr>"

definition empty_state :: server_state where
  "empty_state = \<lparr>fsys = \<lparr>dir_exists = True, dir_size = 4096, files = Mapping.empty\<rparr>, dbase = empty_db\<rparr>"

definition ex_request :: request where
  "ex_request =
     \<lparr>Method = GET, url_path = ''/api/download'', query_name = '''', form_file = Inl ''no file'',
      json_filename = None, json_creds = None, remote_addr = ''10.0.0.2:6000'', host = ''files.example'',
      api_key_header = ''secret''\<rparr>"

definition ex_upload :: "string \<Rightarrow> bytes \<Rightarrow> request" where
  "ex_upload name content = ex_request\<lparr>Method := POST, url_path := ''/api/upload'', form_file := Inr (name, content)\<rparr>"

definition ex_delete :: "string \<Rightarrow> request" where
  "ex_delete name = ex_request\<lparr>Method := DELETE, url_path := ''/api/delete'', json_filename := Some name\<rparr>"

definition ex_env :: "unix_time \<Rightarrow> env" where
  "ex_env t = \<lparr>clock = t, db_clock = 9, fault = (\<lambda>_. False)\<rparr>"

definition ex_db1 :: DB where
  "ex_db1 = \<lparr>rows = [ex_record, \<lparr>ID = 2, OriginalName = ''c.png'', StoredName = ''1700000001.png'',
                 UploadTime = 9, FileSize = 3, UploadAddr = ''10.0.0.2:6000''\<rparr>], seq = 2\<rparr>"

definition ex_db2 :: DB where
  "ex_db2 = \<lparr>rows = [], seq = 1\<rparr>"

definition ex_cfg :: Config where
  "ex_cfg = \<lparr>APIKey = ''secret'', UIUsername = ''admin'', UIPasswordHash = ''ab01'', DataDir = ''data'',
             DBPath = ''uploads.db'', Port = 8080\<rparr>"

text \<open>A stand-in for MD5 (the theorems hold for every hash function) and for the asset server.\<close>

definition ex_md5 :: "bytes \<Rightarrow> bytes" where
  "ex_md5 b = [0xAB, 0x01]"

definition ex_static :: "http_method \<Rightarrow> string \<Rightarrow> response" where
  "ex_static m p = http_error 404 ''404 page not found''"

definition ex_disk :: byte_store where
  "ex_disk = \<lparr>dir_exists = False, dir_size = 4096, files = Mapping.empty\<rparr>"

text \<open>
  Upload threads for the interleaving model: an empty data directory as an inode store, and
  two uploads that share a second and an extension (\<open>race0\<close>) or do not (\<open>pair0\<close>).
\<close>

definition ex_istore :: istore where
  "ex_istore = \<lparr>idir = True, idir_size = 4096, names = Map.empty, inodes = Map.empty, next_ino = 0\<rparr>"

definition ex_cstate :: cstate where
  "ex_cstate = \<lparr>cfs = ex_istore, cdb = ex_db2\<rparr>"

definition ex_dir :: server_state where
  "ex_dir = \<lparr>fsys = ex_disk\<lparr>dir_exists := True\<rparr>, dbase = ex_db2\<rparr>"

definition upload_thread :: "unix_time \<Rightarrow> string \<Rightarrow> bytes \<Rightarrow> uthread" where
  "upload_thread t f c = \<lparr>tenv = ex_env t, treq = ex_upload f c, tpc = UStart\<rparr>"

definition race0 :: "cstate \<times> uthread list" where
  "race0 = (ex_cstate,
            [upload_thread 1700000000 ''a.txt'' [1, 2, 3], upload_thread 1700000000 ''b.txt'' [9]])"

definition pair0 :: "cstate \<times> uthread list" where
  "pair0 = (ex_cstate,
            [upload_thread 1700000000 ''a.txt'' [1, 2, 3], upload_thread 1700000001 ''b.txt'' [9]])"

definition delete_thread :: "string \<Rightarrow> dthread" where
  "delete_thread n = \<lparr>denv = ex_env 0, dreq = ex_delete n, dpc = DStart\<rparr>"

definition del_race0 :: "cstate \<times> thread list" where
  "del_race0 = (ex_cstate, [Up (upload_thread 1700000000 ''a.txt'' [1, 2, 3]), Del (delete_thread ''1700000000.txt'')])"

text \<open>
  A store holding one recorded file, an upload of another name and a delete of the recorded
  one: threads that do not clash (\<open>mixed0\<close>).
\<close>

definition ex_mixed_store :: istore where
  "ex_mixed_store = \<lparr>idir = True, idir_size = 4096, names = [''1700000000.txt'' \<mapsto> 0], inodes = [0 \<mapsto> [104, 105]], next_ino = 1\<rparr>"

definition ex_mixed :: cstate where
  "ex_mixed = \<lparr>cfs = ex_mixed_store, cdb = dbase ex_state\<rparr>"

definition mixed0 :: "cstate \<times> thread list" where
  "mixed0 = (ex_mixed, [Up (upload_thread 1700000001 ''b.txt'' [9]), Del (delete_thread ''1700000000.txt'')])"

text \<open>
  A download of a name (\<open>dl_thread\<close>); the same upload as in \<open>del_race0\<close> with a download
  of the name it will get (\<open>read_race0\<close>); and a download of the file of \<open>ex_mixed\<close>
  beside an upload and a delete of other names (\<open>read0\<close>).
\<close>

definition dl_thread :: "string \<Rightarrow> rthread" where
  "dl_thread n = \<lparr>renv = ex_env 0, rreq = ex_request\<lparr>query_name := n\<rparr>, rroute = ViaDownload, rpc = RStart\<rparr>"

definition read_race0 :: "(cstate \<times> thread list) \<times> rthread list" where
  "read_race0 = ((ex_cstate, [Up (upload_thread 1700000000 ''a.txt'' [1, 2, 3])]), [dl_thread ''1700000000.txt''])"

definition read0 :: "(cstate \<times> thread list) \<times> rthread list" where
  "read0 = ((ex_mixed, [Up (upload_thread 1700000001 ''b.txt'' [9]), Del (delete_thread ''x.txt'')]),
            [dl_thread ''1700000000.txt''])"

lemmas ex_defs = ex_record_def ex_state_def empty_state_def ex_request_def ex_upload_def ex_delete_def ex_env_def ex_db1_def ex_db2_def ex_cfg_def ex_md5_def ex_static_def ex_disk_def

lemmas thread_eval = delete_thread_def ex_istore_def ex_cstate_def ex_dir_def upload_thread_def ustep_def tname_def tcontent_def torig_def

lemmas name_eval = new_filename_def fmt_int_def fmt_nat.simps digit_char_def Ext_def
lemmas wf_eval = state_wf_def store_wf_def db_wf_def twin_inv_def read_file_def
lemmas path_eval = unsafe_name_iff sublist_code prefix_code suffix_to_prefix data_path_def

lemma ex_insert_result: "InsertFile False 9 (dbase ex_state) ''c.png'' ''1700000001.png'' 3 ''10.0.0.2:6000'' = Inr ex_db1"
  by (simp add: ex_defs ex_db1_def InsertFile_def next_rowid_def max_rowid_def)
lemma ex_delete_result: "DB_DeleteFile False (dbase ex_state) ''1700000000.txt'' = Inr ex_db2"
  by (simp add: ex_defs ex_db2_def DB_DeleteFile_def)

lemma ex_boot: "main_startup (Some []) (\<lambda>_. Some ex_cfg) False None False ex_disk = Inr (ex_cfg, empty_state)"
  by (simp add: main_startup_def LoadConfig_def NewDB_def os_mkdir_all_def ex_defs with_defaults_def)

section \<open>Properties spanning components\<close>

text \<open>
  C3: round trip (spec section 8): a fault-free upload whose generated name is fresh
  answers 201 with that name, and a fault-free read of the name by either read route
  then answers exactly the uploaded bytes, their length as \<open>Content-Length\<close>, under
  the route's disposition; the record holds the same length.
\<close>

theorem upload_download_roundtrip:
  assumes nofault: "fault e = (\<lambda>_. False)" and post: "Method r = POST"
    and ff: "form_file r = Inr (filename, content)"
    and dir: "dir_exists (fsys st)" and wf: "db_wf (dbase st)"
    and fresh: "new_filename (clock e) filename \<notin> dom (db_index (dbase st))"
    and nofault': "fault e' = (\<lambda>_. False)"
    and get: "Method d = GET" and q: "query_name d = new_filename (clock e) filename"
    and path: "\<not> suffix ''/index.html'' (url_path d)"
  defines "n \<equiv> new_filename (clock e) filename" and "st' \<equiv> snd (UploadFile e r st)"
  shows "status (fst (UploadFile e r st)) = 201
       \<and> fst (DownloadFile e' d st') =
           \<lparr>status = 200, headers = [(''Content-Disposition'', ''attachment; filename='' @ n),
                                    (''Content-Length'', fmt_int (int (length content)))],
            body = FileContent content\<rparr>
       \<and> fst (PublicFileAccess e' (d\<lparr>url_path := ''/file/'' @ n\<rparr>) st') =
           \<lparr>status = 200, headers = [(''Content-Disposition'', ''inline; filename='' @ n),
                                    (''Content-Length'', fmt_int (int (length content)))],
            body = FileContent content\<rparr>
       \<and> map_option FileSize (db_index (dbase st') n) = Some (int (length content))"
proof -
  have up: "status (fst (UploadFile e r st)) = 201"
    "read_file (fsys st') n = Some content"
    "db_index (dbase st') n = Some \<lparr>ID = seq (dbase st) + 1, OriginalName = filename, StoredName = n,
        UploadTime = db_clock e, FileSize = int (length content), UploadAddr = remote_addr r\<rparr>"
    using UploadFile_success [OF nofault post ff dir wf fresh] by (simp_all add: n_def st'_def)
  have safe: "\<not> unsafe_name n"
    using no_double_dot [OF fmt_int_chars(1) ext_form_Ext] new_filename_parts(1)
    by (simp add: n_def unsafe_name_iff new_filename_def)
  have entry: "data_path n = Entry n" by (simp add: n_def)
  have "DownloadFile e' d st' = (head_or_serve e' d (fsys st') ''attachment'' n (Entry n), st')"
    using DownloadFile_stored [OF nofault' _ _ safe entry up(2) path] get q by (simp add: n_def)
  moreover have "head_or_serve e' d (fsys st') ''attachment'' n (Entry n) =
      \<lparr>status = 200, headers = [(''Content-Disposition'', ''attachment; filename='' @ n),
                               (''Content-Length'', fmt_int (int (length content)))],
       body = FileContent content\<rparr>"
    using head_or_serve_file [OF nofault' up(2) path] get by simp
  moreover have pub: "PublicFileAccess e' (d\<lparr>url_path := ''/file/'' @ n\<rparr>) st' =
      (head_or_serve e' (d\<lparr>url_path := ''/file/'' @ n\<rparr>) (fsys st') ''inline'' n (Entry n), st')"
    by (rule PublicFileAccess_stored [OF nofault' _ safe entry up(2)]) (simp add: trim_prefix_def)
  moreover have "head_or_serve e' (d\<lparr>url_path := ''/file/'' @ n\<rparr>) (fsys st') ''inline'' n (Entry n) =
      \<lparr>status = 200, headers = [(''Content-Disposition'', ''inline; filename='' @ n),
                               (''Content-Length'', fmt_int (int (length content)))],
       body = FileContent content\<rparr>"
    using head_or_serve_file [OF nofault' up(2)] index_html_stored [of "clock e" filename] get
    by (simp add: n_def)
  ultimately show ?thesis using up by simp
qed

text \<open>
  C9: two uploads in the same second with the same extension, interleaved: both create
  the same name and so the same inode, the shorter write lands over the longer one, and the
  first insert records the name with its own size while the file holds bytes neither client
  sent; the second insert then fails on the unique name and its rollback unlinks the file
  under the first upload's record, which was answered 201.
\<close>

theorem same_name_race:
  "let c1 = run_sched [0, 1, 0, 1, 0] race0; c2 = run_sched [1, 1] c1 in
     cstep\<^sup>*\<^sup>* race0 c1 \<and> cstep\<^sup>*\<^sup>* c1 c2
     \<and> rows (cdb (fst c1)) = [\<lparr>ID = 2, OriginalName = ''a.txt'', StoredName = ''1700000000.txt'',
                                 UploadTime = 9, FileSize = 3, UploadAddr = ''10.0.0.2:6000''\<rparr>]
     \<and> ifile (cfs (fst c1)) ''1700000000.txt'' = Some [9, 2, 3]
     \<and> all_done (snd c2)
     \<and> map (\<lambda>t. case tpc t of UDone resp \<Rightarrow> status resp | _ \<Rightarrow> 0) (snd c2) = [201, 500]
     \<and> rows (cdb (fst c2)) = rows (cdb (fst c1))
     \<and> \<not> itwin (fst c2)"
proof -
  have c1: "run_sched [0, 1, 0, 1, 0] race0 =
      (\<lparr>cfs = \<lparr>idir = True, idir_size = 4096, names = [''1700000000.txt'' \<mapsto> 0], inodes = [0 \<mapsto> [9, 2, 3]], next_ino = 1\<rparr>,
        cdb = \<lparr>rows = [\<lparr>ID = 2, OriginalName = ''a.txt'', StoredName = ''1700000000.txt'',
                         UploadTime = 9, FileSize = 3, UploadAddr = ''10.0.0.2:6000''\<rparr>], seq = 2\<rparr>\<rparr>,
       [(upload_thread 1700000000 ''a.txt'' [1, 2, 3])\<lparr>tpc :=
          UDone (upload_created (ex_upload ''a.txt'' [1, 2, 3]) ''1700000000.txt'')\<rparr>,
        (upload_thread 1700000000 ''b.txt'' [9])\<lparr>tpc := UWritten 0\<rparr>])"
    by (simp add: race0_def ex_defs thread_eval Let_def name_eval i_create_def i_write_def
        InsertFile_def next_rowid_def max_rowid_def fun_upd_twist)
  have r1: "cstep\<^sup>*\<^sup>* race0 (run_sched [0, 1, 0, 1, 0] race0)"
    and r2: "cstep\<^sup>*\<^sup>* (run_sched [0, 1, 0, 1, 0] race0) (run_sched [1, 1] (run_sched [0, 1, 0, 1, 0] race0))"
    by (rule run_sched_reach)+
  show ?thesis
    unfolding Let_def using r1 r2 unfolding c1
    by (simp add: ex_defs thread_eval Let_def name_eval i_remove_def InsertFile_def all_done_def
        ifile_def itwin_def itwin_but_def upload_created_def http_error_def)
qed

text \<open>
  C25: the download route answers codes the spec's table does not list for it: 301 for
  the name \<open>.\<close>, which passes the traversal check and names the data directory, and
  500 when \<open>http.ServeFile\<close> cannot open an existing file.
\<close>

theorem download_unlisted_codes:
  "status (fst (ServeHTTP ex_md5 ex_cfg ex_static (ex_env 0) (ex_request\<lparr>query_name := ''.''\<rparr>) ex_state)) = 301
   \<and> status (fst (ServeHTTP ex_md5 ex_cfg ex_static ((ex_env 0)\<lparr>fault := (\<lambda>c. c = ServeOpen)\<rparr>)
                    (ex_request\<lparr>query_name := ''1700000000.txt''\<rparr>) ex_state)) = 500"
  by (simp add: ex_defs ServeHTTP_def Let_def mux_match_def CORSMiddleware_def APIKeyMiddleware_def
      DownloadFile_def head_or_serve_def ServeFile_def path_eval os_stat_def local_redirect_def url_base_def
      lookup_update' add_header_def http_error_def)

text \<open>
  C10: an upload and a delete of the name the upload will get (stored names are the
  second and the extension, so they can be predicted), interleaved: the delete finds the
  upload's new file, unlinks it, finds no record and swallows that error; the upload then
  records the name. Both answer success, 201 and 200, and the table is left with a record
  whose file does not exist.
\<close>

theorem delete_race:
  "let c = mrun_sched [0, 0, 1, 1, 1, 0] del_race0 in
     mstep\<^sup>*\<^sup>* del_race0 c
     \<and> map (map_option status \<circ> answered) (snd c) = [Some 201, Some 200]
     \<and> rows (cdb (fst c)) = [\<lparr>ID = 2, OriginalName = ''a.txt'', StoredName = ''1700000000.txt'',
                                UploadTime = 9, FileSize = 3, UploadAddr = ''10.0.0.2:6000''\<rparr>]
     \<and> ifile (cfs (fst c)) ''1700000000.txt'' = None
     \<and> \<not> itwin (fst c)"
proof -
  have r: "mstep\<^sup>*\<^sup>* del_race0 (mrun_sched [0, 0, 1, 1, 1, 0] del_race0)" by (rule mrun_sched_reach)
  show ?thesis
    unfolding Let_def using r
    by (simp add: del_race0_def ex_defs thread_eval Let_def name_eval path_eval i_create_def i_write_def
        i_stat_def i_remove_path_def i_remove_def dstep_def dname_def delete_ok_def DB_DeleteFile_def
        InsertFile_def next_rowid_def max_rowid_def ifile_def itwin_def itwin_but_def upload_created_def http_error_def)
qed

lemma mixed_run_done: "list_all tdone (snd (mrun_sched [1, 0, 1, 0, 1, 0, 0] mixed0))"
  by (simp add: mixed0_def ex_mixed_def ex_mixed_store_def ex_defs thread_eval Let_def name_eval path_eval i_create_def
      i_write_def i_stat_def i_remove_path_def i_remove_def dstep_def dname_def delete_ok_def DB_DeleteFile_def
      InsertFile_def next_rowid_def max_rowid_def ifile_def upload_created_def http_error_def)

text \<open>
  C11: a download of the name an upload is about to record, run between the upload's
  \<open>os.Create\<close> and its \<open>Write\<close>, answers 200 with an empty file; the upload then
  answers 201 and records three bytes under that name.
\<close>

theorem download_during_upload:
  "let c = srun_sched [W 0, R 0, R 0, W 0, W 0] read_race0 in
     sstep\<^sup>*\<^sup>* read_race0 c
     \<and> map (map_option status \<circ> answered) (snd (fst c)) = [Some 201]
     \<and> map_option status (ranswer (snd c ! 0)) = Some 200
     \<and> map_option body (ranswer (snd c ! 0)) = Some (FileContent [])
     \<and> ifile (cfs (fst (fst c))) ''1700000000.txt'' = Some [1, 2, 3]
     \<and> map FileSize (rows (cdb (fst (fst c)))) = [3]"
proof -
  have r: "sstep\<^sup>*\<^sup>* read_race0 (srun_sched [W 0, R 0, R 0, W 0, W 0] read_race0)" by (rule srun_sched_reach)
  show ?thesis
    unfolding Let_def using r
    by (simp add: read_race0_def dl_thread_def ex_defs thread_eval Let_def name_eval path_eval i_create_def
        i_write_def InsertFile_def next_rowid_def max_rowid_def ifile_def upload_created_def rstep_def
        download_step_def os_stat_bview_Entry head_or_serve_def ServeFile_def add_header_def rdone_def ranswer_def)
qed

section \<open>Witnesses\<close>

text \<open>Each theorem with hypotheses, applied to the concrete states above.\<close>

theorem UploadFile_collision_witness:
  "fst (UploadFile (ex_env 1700000000) (ex_upload ''b.txt'' [7, 8, 9]) ex_state) =
     http_error 500 ''Failed to save file record to database: ''
   \<and> db_index (dbase (snd (UploadFile (ex_env 1700000000) (ex_upload ''b.txt'' [7, 8, 9]) ex_state))) ''1700000000.txt'' = Some ex_record
   \<and> read_file (fsys (snd (UploadFile (ex_env 1700000000) (ex_upload ''b.txt'' [7, 8, 9]) ex_state))) ''1700000000.txt'' = None
   \<and> \<not> twin_inv (snd (UploadFile (ex_env 1700000000) (ex_upload ''b.txt'' [7, 8, 9]) ex_state))"
proof -
  have wf: "state_wf ex_state" by (simp add: ex_defs wf_eval)
  have old: "ex_record \<in> set (rows (dbase ex_state))" by (simp add: ex_defs)
  have same: "StoredName ex_record = new_filename (clock (ex_env 1700000000)) ''b.txt''"
    by (simp add: ex_defs name_eval)
  have "Method (ex_upload ''b.txt'' [7, 8, 9]) = POST" "form_file (ex_upload ''b.txt'' [7, 8, 9]) = Inr (''b.txt'', [7, 8, 9])"
    "fault (ex_env 1700000000) = (\<lambda>_. False)" by (simp_all add: ex_defs)
  from UploadFile_collision [OF wf old same this] show ?thesis by (simp add: ex_record_def)
qed

theorem UploadFile_preserves_wf_witness:
  "state_wf ex_state \<and> new_filename 1700000001 ''c.png'' \<notin> set (map StoredName (rows (dbase ex_state)))
   \<and> state_wf (snd (UploadFile (ex_env 1700000001) (ex_upload ''c.png'' [1, 2, 3]) ex_state))"
proof -
  have wf: "state_wf ex_state" by (simp add: ex_defs wf_eval)
  have ff: "form_file (ex_upload ''c.png'' [1, 2, 3]) = Inr (''c.png'', [1, 2, 3])" by (simp add: ex_defs)
  have fresh: "new_filename (clock (ex_env 1700000001)) ''c.png'' \<notin> set (map StoredName (rows (dbase ex_state)))"
    by (simp add: ex_defs name_eval)
  from UploadFile_preserves_wf [OF wf ff fresh] wf fresh show ?thesis by (simp add: ex_env_def)
qed

theorem DeleteFile_preserves_wf_witness:
  "state_wf ex_state \<and> \<not> fault (ex_env 0) DeleteRowCall
   \<and> state_wf (snd (DeleteFile (ex_env 0) (ex_delete ''1700000000.txt'') ex_state))"
proof -
  have wf: "state_wf ex_state" by (simp add: ex_defs wf_eval)
  have nf: "\<not> fault (ex_env 0) DeleteRowCall" by (simp add: ex_env_def)
  from DeleteFile_preserves_wf [OF wf nf] wf nf show ?thesis by simp
qed

theorem DeleteFile_removes_both_witness:
  "status (fst (DeleteFile (ex_env 0) (ex_delete ''1700000000.txt'') ex_state)) = 200
   \<and> read_file (fsys (snd (DeleteFile (ex_env 0) (ex_delete ''1700000000.txt'') ex_state))) ''1700000000.txt'' = None
   \<and> db_index (dbase (snd (DeleteFile (ex_env 0) (ex_delete ''1700000000.txt'') ex_state))) ''1700000000.txt'' = None"
proof -
  have h: "fault (ex_env 0) = (\<lambda>_. False)" "json_filename (ex_delete ''1700000000.txt'') = Some ''1700000000.txt''"
    by (simp_all add: ex_defs)
  have st: "status (fst (DeleteFile (ex_env 0) (ex_delete ''1700000000.txt'') ex_state)) = 200"
    by (simp add: ex_defs DeleteFile_def Let_def path_eval os_stat_def os_remove_def)
  from DeleteFile_removes_both [OF h st] st show ?thesis by simp
qed

theorem DeleteFile_orphan_record_witness:
  "status (fst (DeleteFile ((ex_env 0)\<lparr>fault := (\<lambda>c. c = DeleteRowCall)\<rparr>) (ex_delete ''1700000000.txt'') ex_state)) = 200
   \<and> db_index (dbase (snd (DeleteFile ((ex_env 0)\<lparr>fault := (\<lambda>c. c = DeleteRowCall)\<rparr>) (ex_delete ''1700000000.txt'') ex_state))) ''1700000000.txt'' = Some ex_record
   \<and> read_file (fsys (snd (DeleteFile ((ex_env 0)\<lparr>fault := (\<lambda>c. c = DeleteRowCall)\<rparr>) (ex_delete ''1700000000.txt'') ex_state))) ''1700000000.txt'' = None"
proof -
  have h: "fault ((ex_env 0)\<lparr>fault := (\<lambda>c. c = DeleteRowCall)\<rparr>) = (\<lambda>c. c = DeleteRowCall)" by simp
  have wf: "state_wf ex_state" by (simp add: ex_defs wf_eval)
  have old: "ex_record \<in> set (rows (dbase ex_state))" by (simp add: ex_defs)
  have r: "Method (ex_delete ''1700000000.txt'') = DELETE"
    "json_filename (ex_delete ''1700000000.txt'') = Some (StoredName ex_record)"
    by (simp_all add: ex_defs)
  have n: "\<not> unsafe_name (StoredName ex_record)" "data_path (StoredName ex_record) = Entry (StoredName ex_record)"
    by (simp_all add: ex_record_def path_eval)
  from DeleteFile_orphan_record [OF h wf old r n] show ?thesis by (simp add: ex_record_def)
qed

theorem DeleteFile_empty_name_removes_dir_witness:
  "status (fst (DeleteFile (ex_env 0) (ex_delete '''') empty_state)) = 200
   \<and> \<not> dir_exists (fsys (snd (DeleteFile (ex_env 0) (ex_delete '''') empty_state)))
   \<and> status (fst (UploadFile (ex_env 1) (ex_upload ''c.png'' [1]) (snd (DeleteFile (ex_env 0) (ex_delete '''') empty_state)))) = 500"
proof -
  have h: "fault (ex_env 0) = (\<lambda>_. False)" "dir_exists (fsys empty_state)" "Mapping.is_empty (files (fsys empty_state))"
    "Method (ex_delete '''') = DELETE" "json_filename (ex_delete '''') = Some ''''"
    by (simp_all add: ex_defs)
  have u: "Method (ex_upload ''c.png'' [1]) = POST" "form_file (ex_upload ''c.png'' [1]) = Inr (''c.png'', [1])"
    "\<not> fault (ex_env 1) ReadBody" by (simp_all add: ex_defs)
  from DeleteFile_empty_name_removes_dir [OF h] u show ?thesis by blast
qed

theorem unsafe_name_rejected_witness:
  "DownloadFile (ex_env 0) (ex_request\<lparr>query_name := ''../etc''\<rparr>) ex_state = (http_error 400 ''Invalid filename'', ex_state)
   \<and> PublicFileAccess (ex_env 0) (ex_request\<lparr>url_path := ''/file/../etc''\<rparr>) ex_state = (http_error 400 ''Invalid filename'', ex_state)
   \<and> DeleteFile (ex_env 0) (ex_delete ''../etc'') ex_state = (http_error 400 ''Invalid filename'', ex_state)"
proof -
  have u: "sublist ''..'' ''../etc'' \<or> CHR ''/'' \<in> set ''../etc''" by simp
  have r: "(Method (ex_request\<lparr>query_name := ''../etc''\<rparr>) = GET \<or> Method (ex_request\<lparr>query_name := ''../etc''\<rparr>) = HEAD)
       \<and> query_name (ex_request\<lparr>query_name := ''../etc''\<rparr>) = ''../etc''"
    "trim_prefix (url_path (ex_request\<lparr>url_path := ''/file/../etc''\<rparr>)) ''/file/'' = ''../etc''"
    "Method (ex_delete ''../etc'') = DELETE \<and> json_filename (ex_delete ''../etc'') = Some ''../etc''"
    by (simp_all add: ex_defs trim_prefix_def)
  from unsafe_name_rejected [OF u, of "ex_request\<lparr>query_name := ''../etc''\<rparr>" "ex_env 0" ex_state
      "ex_request\<lparr>url_path := ''/file/../etc''\<rparr>" "ex_delete ''../etc''"] u r
  show ?thesis by blast
qed

theorem ListFiles_array_witness:
  "Method ex_request = GET \<and> \<not> fault (ex_env 0) QueryAll
   \<and> (\<exists>rs. ListFiles (ex_env 0) ex_request empty_state =
            (\<lparr>status = 200, headers = [(''Content-Type'', ''application/json'')], body = ListJson (Some rs)\<rparr>, empty_state)
          \<and> mset rs = mset (rows (dbase empty_state))
          \<and> sorted_wrt (\<lambda>a b. UploadTime b \<le> UploadTime a) rs)"
proof -
  have h: "Method ex_request = GET" "\<not> fault (ex_env 0) QueryAll" by (simp_all add: ex_defs)
  from ListFiles_array [OF h] h show ?thesis by blast
qed

theorem metadata_store_invariant_witness:
  "db_wf (dbase ex_state)
   \<and> InsertFile False 9 (dbase ex_state) ''c.png'' ''1700000001.png'' 3 ''10.0.0.2:6000'' = Inr ex_db1 \<and> db_wf ex_db1
   \<and> DB_DeleteFile False (dbase ex_state) ''1700000000.txt'' = Inr ex_db2 \<and> db_wf ex_db2"
proof -
  have wf: "db_wf (dbase ex_state)" by (simp add: ex_defs db_wf_def)
  show ?thesis
    using metadata_store_invariant [of "dbase ex_state" False 9 "''c.png''" "''1700000001.png''" 3 "''10.0.0.2:6000''" ex_db1]
      metadata_store_invariant [of "dbase ex_state" False 9 "''c.png''" "''1700000000.txt''" 3 "''10.0.0.2:6000''" ex_db1 ex_db2]
      wf ex_insert_result ex_delete_result by blast
qed

theorem metadata_store_refinement_witness:
  "db_wf (dbase ex_state)
   \<and> db_index ex_db1 = (db_index (dbase ex_state))(''1700000001.png'' \<mapsto>
        \<lparr>ID = 2, OriginalName = ''c.png'', StoredName = ''1700000001.png'',
         UploadTime = 9, FileSize = 3, UploadAddr = ''10.0.0.2:6000''\<rparr>)
   \<and> GetFileByStoredName False (dbase ex_state) ''1700000000.txt'' = Inr ex_record
   \<and> db_index ex_db2 = (db_index (dbase ex_state))(''1700000000.txt'' := None)"
proof -
  have wf: "db_wf (dbase ex_state)" by (simp add: ex_defs db_wf_def)
  have s: "seq (dbase ex_state) + 1 = 2" "db_index (dbase ex_state) ''1700000000.txt'' = Some ex_record"
    by (simp_all add: ex_defs db_index_def)
  from metadata_store_refinement [OF wf, of 9 "''c.png''" "''1700000001.png''" 3 "''10.0.0.2:6000''" ex_db1]
      metadata_store_refinement [OF wf, of 9 "''c.png''" "''1700000000.txt''" 3 "''10.0.0.2:6000''" ex_db1 ex_db2]
      ex_insert_result ex_delete_result wf s
  show ?thesis by simp
qed

theorem upload_download_roundtrip_witness:
  "status (fst (UploadFile (ex_env 1700000001) (ex_upload ''c.png'' [1, 2, 3]) ex_state)) = 201
   \<and> fst (DownloadFile (ex_env 0) (ex_request\<lparr>query_name := ''1700000001.png''\<rparr>)
          (snd (UploadFile (ex_env 1700000001) (ex_upload ''c.png'' [1, 2, 3]) ex_state))) =
       \<lparr>status = 200, headers = [(''Content-Disposition'', ''attachment; filename=1700000001.png''),
                                (''Content-Length'', ''3'')],
        body = FileContent [1, 2, 3]\<rparr>"
proof -
  have h: "fault (ex_env 1700000001) = (\<lambda>_. False)" "Method (ex_upload ''c.png'' [1, 2, 3]) = POST"
    "form_file (ex_upload ''c.png'' [1, 2, 3]) = Inr (''c.png'', [1, 2, 3])"
    "dir_exists (fsys ex_state)" "db_wf (dbase ex_state)"
    "new_filename (clock (ex_env 1700000001)) ''c.png'' \<notin> dom (db_index (dbase ex_state))"
    "fault (ex_env 0) = (\<lambda>_. False)" "Method (ex_request\<lparr>query_name := ''1700000001.png''\<rparr>) = GET"
    "query_name (ex_request\<lparr>query_name := ''1700000001.png''\<rparr>) = new_filename (clock (ex_env 1700000001)) ''c.png''"
    "\<not> suffix ''/index.html'' (url_path (ex_request\<lparr>query_name := ''1700000001.png''\<rparr>))"
    by (simp_all add: ex_defs db_wf_def db_index_def name_eval suffix_to_prefix)
  have n: "new_filename (clock (ex_env 1700000001)) ''c.png'' = ''1700000001.png''" by (simp add: ex_defs name_eval)
  from upload_download_roundtrip [OF h] show ?thesis by (simp add: n fmt_int_def fmt_nat.simps digit_char_def)
qed

theorem LoadConfig_defaults_witness:
  "DataDir (projr (LoadConfig (Some []) (\<lambda>_. Some (ex_cfg\<lparr>DataDir := [], Port := 0\<rparr>)))) = ''data''
   \<and> Port (projr (LoadConfig (Some []) (\<lambda>_. Some (ex_cfg\<lparr>DataDir := [], Port := 0\<rparr>)))) = 8080
   \<and> APIKey (projr (LoadConfig (Some []) (\<lambda>_. Some (ex_cfg\<lparr>DataDir := [], Port := 0\<rparr>)))) = ''secret''"
proof -
  have u: "(\<lambda>_. Some (ex_cfg\<lparr>DataDir := [], Port := 0\<rparr>)) [] = Some (ex_cfg\<lparr>DataDir := [], Port := 0\<rparr>)" by simp
  have l: "LoadConfig (Some []) (\<lambda>_. Some (ex_cfg\<lparr>DataDir := [], Port := 0\<rparr>)) =
           Inr (with_defaults (ex_cfg\<lparr>DataDir := [], Port := 0\<rparr>))" by (simp add: LoadConfig_def)
  from LoadConfig_defaults [OF u l] have "DataDir (with_defaults (ex_cfg\<lparr>DataDir := [], Port := 0\<rparr>)) \<noteq> []"
    "APIKey (with_defaults (ex_cfg\<lparr>DataDir := [], Port := 0\<rparr>)) = ''secret''" by (simp_all add: ex_cfg_def)
  with l show ?thesis by simp
qed

theorem Login_grants_key_witness:
  "status (fst (Login ex_md5 ex_cfg (ex_env 0) (ex_request\<lparr>Method := POST, json_creds := Some (''admin'', ''pw'')\<rparr>) ex_state)) = 200
   \<and> status (fst (Login ex_md5 ex_cfg (ex_env 0) (ex_request\<lparr>Method := POST, json_creds := Some (''root'', ''pw'')\<rparr>) ex_state)) \<noteq> 200"
proof -
  have h: "set (UIPasswordHash ex_cfg) \<subseteq> set hextable" "hex_decode (UIPasswordHash ex_cfg) = Some [0xAB, 0x01]"
    by (simp_all add: ex_cfg_def hextable_def from_hex_char_def)
  show ?thesis
    using Login_grants_key [OF h, of ex_md5 "ex_env 0" "ex_request\<lparr>Method := POST, json_creds := Some (''admin'', ''pw'')\<rparr>" ex_state]
      Login_grants_key [OF h, of ex_md5 "ex_env 0" "ex_request\<lparr>Method := POST, json_creds := Some (''root'', ''pw'')\<rparr>" ex_state]
    by (simp add: ex_cfg_def ex_md5_def)
qed

theorem Login_case_sensitive_hash_witness:
  "status (fst (Login ex_md5 (ex_cfg\<lparr>UIPasswordHash := ''AB01''\<rparr>) (ex_env 0)
      (ex_request\<lparr>Method := POST, json_creds := Some (''admin'', ''pw'')\<rparr>) ex_state)) \<noteq> 200"
proof -
  have "\<not> set (UIPasswordHash (ex_cfg\<lparr>UIPasswordHash := ''AB01''\<rparr>)) \<subseteq> set hextable"
    by (simp add: hextable_def)
  then show ?thesis by (rule Login_case_sensitive_hash)
qed

theorem reach_state_wf_witness:
  "reach ex_md5 ex_static ex_cfg (snd (ServeHTTP ex_md5 ex_cfg ex_static (ex_env 1700000001) (ex_upload ''c.png'' [1, 2, 3]) empty_state))
   \<and> state_wf (snd (ServeHTTP ex_md5 ex_cfg ex_static (ex_env 1700000001) (ex_upload ''c.png'' [1, 2, 3]) empty_state))"
proof -
  have "reach ex_md5 ex_static ex_cfg empty_state"
    by (rule reach.boot [OF ex_boot]) (simp_all add: ex_disk_def store_wf_def)
  moreover have "benign (ex_env 1700000001) (ex_upload ''c.png'' [1, 2, 3]) empty_state"
    by (simp add: benign_def ex_defs empty_db_def)
  ultimately have "reach ex_md5 ex_static ex_cfg (snd (ServeHTTP ex_md5 ex_cfg ex_static (ex_env 1700000001) (ex_upload ''c.png'' [1, 2, 3]) empty_state))"
    by (rule reach.step)
  with reach_state_wf show ?thesis by blast
qed

theorem auth_gating_witness:
  "status (fst (ServeHTTP ex_md5 ex_cfg ex_static (ex_env 0) ((ex_upload ''c.png'' [1])\<lparr>api_key_header := ''guess''\<rparr>) ex_state)) = 401
   \<and> snd (ServeHTTP ex_md5 ex_cfg ex_static (ex_env 0) ((ex_upload ''c.png'' [1])\<lparr>api_key_header := ''guess''\<rparr>) ex_state) = ex_state"
proof -
  have h: "url_path ((ex_upload ''c.png'' [1])\<lparr>api_key_header := ''guess''\<rparr>)
             \<in> {''/api/upload'', ''/api/list'', ''/api/download'', ''/api/delete''}"
    "Method ((ex_upload ''c.png'' [1])\<lparr>api_key_header := ''guess''\<rparr>) \<noteq> OPTIONS"
    "api_key_header ((ex_upload ''c.png'' [1])\<lparr>api_key_header := ''guess''\<rparr>) \<noteq> APIKey ex_cfg
     \<or> api_key_header ((ex_upload ''c.png'' [1])\<lparr>api_key_header := ''guess''\<rparr>) = []"
    by (simp_all add: ex_defs)
  from auth_gating [OF h, of ex_md5 ex_static "ex_env 0" ex_state] show ?thesis by (simp add: http_error_def)
qed

theorem keyless_routes_witness:
  "ServeHTTP ex_md5 ex_cfg ex_static (ex_env 0) (ex_request\<lparr>url_path := ''/file/1700000000.txt'', api_key_header := []\<rparr>) ex_state
   = ServeHTTP ex_md5 ex_cfg ex_static (ex_env 0) (ex_request\<lparr>url_path := ''/file/1700000000.txt''\<rparr>) ex_state"
proof -
  have "url_path (ex_request\<lparr>url_path := ''/file/1700000000.txt''\<rparr>)
          \<notin> {''/api/upload'', ''/api/list'', ''/api/download'', ''/api/delete''}" by simp
  from keyless_routes [OF this, of ex_md5 ex_cfg ex_static "ex_env 0" "[]" ex_state] show ?thesis by simp
qed

theorem preflight_witness:
  "ServeHTTP ex_md5 ex_cfg ex_static (ex_env 0) (ex_request\<lparr>url_path := ''/api/delete'', Method := OPTIONS, api_key_header := []\<rparr>) ex_state
   = (\<lparr>status = 200, headers = cors_headers, body = NoBody\<rparr>, ex_state)"
proof -
  have h: "url_path (ex_request\<lparr>url_path := ''/api/delete'', Method := OPTIONS, api_key_header := []\<rparr>)
             \<in> {''/api/upload'', ''/api/list'', ''/api/download'', ''/api/delete'', ''/api/login''}"
    "Method (ex_request\<lparr>url_path := ''/api/delete'', Method := OPTIONS, api_key_header := []\<rparr>) = OPTIONS"
    by simp_all
  from preflight [OF h] show ?thesis .
qed

theorem public_any_method_witness:
  "ServeHTTP ex_md5 ex_cfg ex_static (ex_env 0) (ex_request\<lparr>url_path := ''/file/1700000000.txt'', Method := DELETE\<rparr>) ex_state
   = ServeHTTP ex_md5 ex_cfg ex_static (ex_env 0) (ex_request\<lparr>url_path := ''/file/1700000000.txt'', Method := GET\<rparr>) ex_state"
proof -
  have h: "prefix ''/file/'' (url_path (ex_request\<lparr>url_path := ''/file/1700000000.txt'', Method := DELETE\<rparr>))"
    "Method (ex_request\<lparr>url_path := ''/file/1700000000.txt'', Method := DELETE\<rparr>) \<noteq> HEAD" by simp_all
  from public_any_method [OF h, of ex_md5 ex_cfg ex_static "ex_env 0" ex_state] show ?thesis by simp
qed
theorem distinct_uploads_keep_twin_witness:
  "itwin (fst (run_sched [0, 1, 0, 1, 0, 1] pair0)) \<and> db_wf (cdb (fst (run_sched [0, 1, 0, 1, 0, 1] pair0)))
   \<and> iwf (cfs (fst (run_sched [0, 1, 0, 1, 0, 1] pair0)))"
proof -
  have h: "iwf (cfs (fst pair0))" "db_wf (cdb (fst pair0))" "itwin (fst pair0)" "distinct (map tname (snd pair0))"
    "list_all (\<lambda>t. tpc t = UStart \<and> tname t \<notin> recorded (fst pair0)) (snd pair0)"
    by (simp_all add: pair0_def ex_defs thread_eval name_eval iwf_def db_wf_def itwin_def itwin_but_def recorded_def)
  have "cstep\<^sup>*\<^sup>* (fst pair0, snd pair0)
          (fst (run_sched [0, 1, 0, 1, 0, 1] pair0), snd (run_sched [0, 1, 0, 1, 0, 1] pair0))"
    using run_sched_reach [of pair0] by simp
  from distinct_uploads_keep_twin [OF h this] show ?thesis .
qed

theorem uploads_deletes_keep_twin_witness:
  "iwf (cfs (fst (mrun_sched [1, 0, 1, 0, 1, 0, 0] mixed0)))
   \<and> db_wf (cdb (fst (mrun_sched [1, 0, 1, 0, 1, 0, 0] mixed0)))
   \<and> list_all tdone (snd (mrun_sched [1, 0, 1, 0, 1, 0, 0] mixed0))
   \<and> itwin (fst (mrun_sched [1, 0, 1, 0, 1, 0, 0] mixed0))"
proof -
  have h: "iwf (cfs (fst mixed0))" "db_wf (cdb (fst mixed0))" "itwin (fst mixed0)" "no_clash (snd mixed0)"
    "list_all (start_ok (fst mixed0)) (snd mixed0)"
    by (simp_all add: mixed0_def ex_mixed_def ex_mixed_store_def ex_defs thread_eval name_eval iwf_def db_wf_def
        itwin_def itwin_but_def recorded_def ifile_def no_clash_def clash_def dname_def less_Suc_eq All_less_Suc)
  have "mstep\<^sup>*\<^sup>* (fst mixed0, snd mixed0)
          (fst (mrun_sched [1, 0, 1, 0, 1, 0, 0] mixed0), snd (mrun_sched [1, 0, 1, 0, 1, 0, 0] mixed0))"
    using mrun_sched_reach [of mixed0] by simp
  from uploads_deletes_keep_twin [OF h this] mixed_run_done show ?thesis by simp
qed

theorem reads_unaffected_witness:
  "snd (srun_sched [R 0, W 0, W 1, W 0, R 0, W 1, W 0, W 1, W 0] read0) ! 0 = rrun 2 (dl_thread ''1700000000.txt'') ex_mixed"
proof -
  let ?c = "srun_sched [R 0, W 0, W 1, W 0, R 0, W 1, W 0, W 1, W 0] read0"
  have h: "iwf (cfs ex_mixed)" "db_wf (cdb ex_mixed)" "itwin ex_mixed" "no_clash (snd (fst read0))"
    "list_all (start_ok ex_mixed) (snd (fst read0))"
    "list_all (\<lambda>w. tname_of w \<noteq> read_name (dl_thread ''1700000000.txt'')) (snd (fst read0))"
    "data_path (read_name (dl_thread ''1700000000.txt'')) = Entry (read_name (dl_thread ''1700000000.txt''))"
    "0 < length (snd read0)" "snd read0 ! 0 = dl_thread ''1700000000.txt''" "rpc (dl_thread ''1700000000.txt'') = RStart"
    by (simp_all add: read0_def ex_mixed_def ex_mixed_store_def ex_defs thread_eval name_eval iwf_def db_wf_def
        itwin_def itwin_but_def recorded_def ifile_def no_clash_def clash_def dname_def less_Suc_eq All_less_Suc
        read_name_def dl_thread_def data_path_def)
  have run: "sstep\<^sup>*\<^sup>* ((ex_mixed, snd (fst read0)), snd read0) ((fst (fst ?c), snd (fst ?c)), snd ?c)"
    using srun_sched_reach [of read0 "[R 0, W 0, W 1, W 0, R 0, W 1, W 0, W 1, W 0]"] by (simp add: read0_def)
  have fin: "rdone (snd ?c ! 0)"
    by (simp add: read0_def dl_thread_def ex_mixed_def ex_mixed_store_def ex_defs thread_eval Let_def name_eval
        path_eval i_create_def i_write_def i_stat_def i_remove_path_def i_remove_def dstep_def dname_def
        InsertFile_def next_rowid_def max_rowid_def ifile_def upload_created_def http_error_def rstep_def
        download_step_def os_stat_bview_Entry head_or_serve_def ServeFile_def add_header_def rdone_def)
  from reads_unaffected [OF h run fin] show ?thesis .
qed

theorem uploads_complete_witness:
  "answered (snd (mrun_sched [1, 0, 1, 0, 1, 0, 0] mixed0) ! 0)
     = Some (upload_created (ex_upload ''b.txt'' [9]) ''1700000001.txt'')
   \<and> ifile (cfs (fst (mrun_sched [1, 0, 1, 0, 1, 0, 0] mixed0))) ''1700000001.txt'' = Some [9]
   \<and> ''1700000001.txt'' \<in> recorded (fst (mrun_sched [1, 0, 1, 0, 1, 0, 0] mixed0))"
proof -
  let ?c = "mrun_sched [1, 0, 1, 0, 1, 0, 0] mixed0"
  have h: "iwf (cfs (fst mixed0))" "db_wf (cdb (fst mixed0))" "itwin (fst mixed0)" "idir (cfs (fst mixed0))"
    "no_clash (snd mixed0)" "list_all (start_ok (fst mixed0)) (snd mixed0)" "list_all calm (snd mixed0)"
    by (simp_all add: mixed0_def ex_mixed_def ex_mixed_store_def ex_defs thread_eval name_eval iwf_def db_wf_def
        itwin_def itwin_but_def recorded_def ifile_def no_clash_def clash_def dname_def less_Suc_eq All_less_Suc
        data_path_def)
  have run: "mstep\<^sup>*\<^sup>* (fst mixed0, snd mixed0) (fst ?c, snd ?c)"
    using mrun_sched_reach [of mixed0] by simp
  from conjunct2 [OF uploads_complete [OF h]] run mixed_run_done
  have all: "\<forall>i < length (snd mixed0). \<forall>u. snd mixed0 ! i = Up u \<longrightarrow>
               answered (snd ?c ! i) = Some (upload_created (treq u) (tname u))
               \<and> ifile (cfs (fst ?c)) (tname u) = Some (tcontent u) \<and> tname u \<in> recorded (fst ?c)"
    by blast
  have "0 < length (snd mixed0)" "snd mixed0 ! 0 = Up (upload_thread 1700000001 ''b.txt'' [9])"
    by (simp_all add: mixed0_def)
  with all have "answered (snd ?c ! 0) = Some (upload_created (treq (upload_thread 1700000001 ''b.txt'' [9]))
          (tname (upload_thread 1700000001 ''b.txt'' [9])))
        \<and> ifile (cfs (fst ?c)) (tname (upload_thread 1700000001 ''b.txt'' [9]))
          = Some (tcontent (upload_thread 1700000001 ''b.txt'' [9]))
        \<and> tname (upload_thread 1700000001 ''b.txt'' [9]) \<in> recorded (fst ?c)"
    by blast
  then show ?thesis by (simp add: thread_eval ex_defs name_eval)
qed

end
